(* ===== verification/Harness_Prelude.thy ===== *)
theory Harness_Prelude
  imports Main
begin

section \<open>Prelude: results, sequenced checks and scanning loops\<close>

text \<open>
  What every component of the harness shares.  A Python function that may raise is a HOL
  function into \<open>exn + 'a\<close>: \<open>Inl\<close> is the exception that leaves the function, \<open>Inr\<close> the value
  it returns.  \<open>require\<close> is the \<open>if not c: raise ModuleError(reason)\<close> idiom of the scripts,
  \<open>seqE\<close> a straight sequence of such checks, \<open>foldE\<close> a \<open>for\<close> loop whose body may raise, and
  \<open>mapE\<close> a comprehension whose body may raise.  The locales at the end are the interface
  between the loaders (loops that compare each row with the row before) and the properties
  that need the whole file ordered.
\<close>

named_theorems result_simps \<open>when a composed computation returns or raises\<close>
named_theorems scan_simps \<open>unfolding of the scanning loops of the loaders\<close>

subsection \<open>Exceptions and results\<close>

text \<open>
  \<open>Domain m\<close> is the module's own exception class (\<open>TimelineError\<close>, \<open>SemanticError\<close>, \dots) with
  its message, \<open>SchemaInvalid\<close> a \<open>ValidationError\<close> of the JSON-schema package, \<open>PyExn t\<close> any
  other Python exception, by its type name.
\<close>

datatype exn = Domain string | SchemaInvalid | PyExn string

type_synonym 'a result = "exn + 'a"

definition bindE :: "'e + 'a \<Rightarrow> ('a \<Rightarrow> 'e + 'b) \<Rightarrow> 'e + 'b" where
  "bindE m f = (case m of Inl e \<Rightarrow> Inl e | Inr x \<Rightarrow> f x)"

definition require :: "bool \<Rightarrow> string \<Rightarrow> unit result" where
  "require c reason = (if c then Inr () else Inl (Domain reason))"

definition whenE :: "bool \<Rightarrow> 'e + unit \<Rightarrow> 'e + unit" where
  "whenE c m = (if c then m else Inr ())"

fun seqE :: "('e + unit) list \<Rightarrow> 'e + unit" where
  "seqE [] = Inr ()"
| "seqE (m # ms) = bindE m (\<lambda>_. seqE ms)"

fun foldE :: "('s \<Rightarrow> 'a \<Rightarrow> 'e + 's) \<Rightarrow> 's \<Rightarrow> 'a list \<Rightarrow> 'e + 's" where
  "foldE f s [] = Inr s"
| "foldE f s (x # xs) = bindE (f s x) (\<lambda>s'. foldE f s' xs)"

fun mapE :: "('a \<Rightarrow> 'e + 'b) \<Rightarrow> 'a list \<Rightarrow> 'e + 'b list" where
  "mapE f [] = Inr []"
| "mapE f (x # xs) = bindE (f x) (\<lambda>y. bindE (mapE f xs) (\<lambda>ys. Inr (y # ys)))"

lemma bindE_simps [simp, result_simps]:
  "bindE (Inl e) f = Inl e"
  "bindE (Inr x) f = f x"
  by (simp_all add: bindE_def)

lemma bindE_Inr_iff [simp, result_simps]:
  "bindE m f = Inr y \<longleftrightarrow> (\<exists>x. m = Inr x \<and> f x = Inr y)"
  by (cases m) simp_all

lemma bindE_Inl_iff [result_simps]:
  "bindE m f = Inl e \<longleftrightarrow> m = Inl e \<or> (\<exists>x. m = Inr x \<and> f x = Inl e)"
  by (cases m) simp_all

lemma bindE_assoc [result_simps]:
  "bindE (bindE m f) g = bindE m (\<lambda>x. bindE (f x) g)"
  by (cases m) simp_all

lemma require_Inr_iff [simp, result_simps]: "require c r = Inr u \<longleftrightarrow> c"
  by (simp add: require_def)

lemma require_Inl_iff [result_simps]: "require c r = Inl e \<longleftrightarrow> \<not> c \<and> e = Domain r"
  by (auto simp: require_def)

lemma require_simps [simp, result_simps]:
  "require True r = Inr ()"
  "require False r = Inl (Domain r)"
  by (simp_all add: require_def)

lemma whenE_Inr_iff [simp, result_simps]: "whenE c m = Inr u \<longleftrightarrow> (c \<longrightarrow> m = Inr ())"
  by (simp add: whenE_def)

lemma whenE_Inl_iff [result_simps]: "whenE c m = Inl e \<longleftrightarrow> c \<and> m = Inl e"
  by (simp add: whenE_def)

lemma seqE_Inr_iff [simp, result_simps]: "seqE ms = Inr u \<longleftrightarrow> (\<forall>m\<in>set ms. m = Inr ())"
  by (induction ms) auto

lemma seqE_append: "seqE (xs @ ys) = bindE (seqE xs) (\<lambda>_. seqE ys)"
  by (induction xs) (simp_all add: bindE_assoc)

text \<open>The first failing check decides the exception.\<close>

lemma seqE_Inl_split:
  "seqE ms = Inl e \<Longrightarrow> \<exists>pre post. ms = pre @ Inl e # post \<and> (\<forall>m\<in>set pre. m = Inr ())"
proof (induction ms)
  case Nil
  then show ?case by simp
next
  case (Cons m ms)
  show ?case
  proof (cases m)
    case (Inl e')
    with Cons.prems have "m # ms = [] @ Inl e # ms" by simp
    then show ?thesis by (metis list.set(1) empty_iff)
  next
    case (Inr u)
    with Cons.prems have "seqE ms = Inl e" by simp
    with Cons.IH obtain pre post
      where "ms = pre @ Inl e # post" "\<forall>m\<in>set pre. m = Inr ()" by blast
    with Inr have "m # ms = (m # pre) @ Inl e # post" "\<forall>m\<in>set (m # pre). m = Inr ()"
      by simp_all
    then show ?thesis by blast
  qed
qed

lemma foldE_append:
  "foldE f s (xs @ ys) = bindE (foldE f s xs) (\<lambda>s'. foldE f s' ys)"
  by (induction xs arbitrary: s) (simp_all add: bindE_assoc)

lemma foldE_invariant:
  assumes "foldE f s xs = Inr s'" and "I s"
    and "\<And>s x t. I s \<Longrightarrow> x \<in> set xs \<Longrightarrow> f s x = Inr t \<Longrightarrow> I t"
  shows "I s'"
  using assms
proof (induction xs arbitrary: s)
  case Nil
  then show ?case by simp
next
  case (Cons x xs)
  from Cons.prems(1) obtain t where t: "f s x = Inr t" "foldE f t xs = Inr s'" by auto
  with Cons.prems(2,3) have "I t" by (meson list.set_intros(1))
  with t(2) show ?case
    by (rule Cons.IH) (use Cons.prems(3) in \<open>meson list.set_intros(2)\<close>)
qed

text \<open>The loop invariant may speak of the rows seen so far.\<close>

lemma foldE_seen_invariant:
  assumes "foldE f s xs = Inr s'" and "I seen s"
    and "\<And>seen s x t. I seen s \<Longrightarrow> f s x = Inr t \<Longrightarrow> I (seen @ [x]) t"
  shows "I (seen @ xs) s'"
  using assms(1,2)
proof (induction xs arbitrary: s seen)
  case Nil
  then show ?case by simp
next
  case (Cons x xs)
  from Cons.prems(1) obtain t where t: "f s x = Inr t" "foldE f t xs = Inr s'" by auto
  from Cons.IH [OF t(2) assms(3) [OF Cons.prems(2) t(1)]] show ?case by simp
qed

lemma mapE_Inr_length: "mapE f xs = Inr ys \<Longrightarrow> length ys = length xs"
  by (induction xs arbitrary: ys) auto

lemma mapE_Inr_nth: "mapE f xs = Inr ys \<Longrightarrow> i < length xs \<Longrightarrow> f (xs ! i) = Inr (ys ! i)"
proof (induction xs arbitrary: ys i)
  case Nil
  then show ?case by simp
next
  case (Cons x xs)
  then show ?case by (cases i) auto
qed

lemma mapE_Inr_iff:
  "mapE f xs = Inr ys \<longleftrightarrow> length ys = length xs \<and> (\<forall>i<length xs. f (xs ! i) = Inr (ys ! i))"
proof
  assume "mapE f xs = Inr ys"
  then show "length ys = length xs \<and> (\<forall>i<length xs. f (xs ! i) = Inr (ys ! i))"
    by (simp add: mapE_Inr_length mapE_Inr_nth)
next
  assume "length ys = length xs \<and> (\<forall>i<length xs. f (xs ! i) = Inr (ys ! i))"
  then show "mapE f xs = Inr ys"
  proof (induction xs arbitrary: ys)
    case Nil
    then show ?case by simp
  next
    case (Cons x xs)
    then obtain z zs where ys: "ys = z # zs" by (cases ys) auto
    with Cons.prems have "f x = Inr z" by force
    moreover have "mapE f xs = Inr zs"
      by (rule Cons.IH) (use Cons.prems ys in auto)
    ultimately show ?case by (simp add: ys)
  qed
qed

lemma mapE_total: "(\<And>x. x \<in> set xs \<Longrightarrow> f x = Inr (g x)) \<Longrightarrow> mapE f xs = Inr (map g xs)"
  by (induction xs) simp_all

subsection \<open>Loops that compare each row with the one before\<close>

text \<open>
  The loaders of the harness all scan a file once and keep the previous row's key (a
  timestamp, a sequence number) in a local variable that starts as \<open>None\<close>.  What such a loop
  promises its callers is that the keys of an accepted file are pairwise ordered; the promise
  follows from two laws of the loop body, so it is proved once here.
\<close>

locale ordered_scan =
  fixes body :: "'s \<Rightarrow> 'a \<Rightarrow> 'e + 's"
    and seen :: "'s \<Rightarrow> 'k option"
    and key :: "'a \<Rightarrow> 'k"
    and R :: "'k \<Rightarrow> 'k \<Rightarrow> bool"
  assumes body_ordered: "body s x = Inr s' \<Longrightarrow> seen s = Some k \<Longrightarrow> R k (key x)"
    and body_seen: "body s x = Inr s' \<Longrightarrow> seen s' = Some (key x)"
begin

lemma scan_from:
  "foldE body s xs = Inr s' \<Longrightarrow> seen s = Some k \<Longrightarrow> successively R (k # map key xs)"
proof (induction xs arbitrary: s k)
  case Nil
  then show ?case by simp
next
  case (Cons x xs)
  from Cons.prems(1) obtain t where t: "body s x = Inr t" "foldE body t xs = Inr s'" by auto
  with Cons.prems(2) have "R k (key x)" using body_ordered by blast
  moreover have "successively R (key x # map key xs)"
    by (rule Cons.IH [OF t(2) body_seen [OF t(1)]])
  ultimately show ?case by simp
qed

lemma scan_successive: "foldE body s xs = Inr s' \<Longrightarrow> successively R (map key xs)"
proof (cases xs)
  case Nil
  then show ?thesis by simp
next
  case (Cons x ys)
  moreover assume "foldE body s xs = Inr s'"
  ultimately obtain t where "body s x = Inr t" "foldE body t ys = Inr s'" by auto
  then have "successively R (key x # map key ys)" using scan_from body_seen by blast
  with Cons show ?thesis by simp
qed

lemma scan_last: "foldE body s xs = Inr s' \<Longrightarrow> xs \<noteq> [] \<Longrightarrow> seen s' = Some (key (last xs))"
proof (induction xs arbitrary: s)
  case Nil
  then show ?case by simp
next
  case (Cons x xs)
  from Cons.prems(1) obtain t where t: "body s x = Inr t" "foldE body t xs = Inr s'" by auto
  show ?case
  proof (cases xs)
    case Nil
    with t show ?thesis using body_seen by fastforce
  next
    case Cons': (Cons y ys)
    with Cons.IH [OF t(2)] show ?thesis by simp
  qed
qed

end

text \<open>When the order is transitive the whole file is sorted, not only neighbouring rows.\<close>

locale sorted_scan = ordered_scan +
  assumes R_trans: "transp R"
begin

lemma scan_sorted: "foldE body s xs = Inr s' \<Longrightarrow> sorted_wrt R (map key xs)"
  using scan_successive R_trans by (simp add: successively_conv_sorted_wrt)

lemma scan_pairs:
  "foldE body s xs = Inr s' \<Longrightarrow> i < j \<Longrightarrow> j < length xs \<Longrightarrow> R (key (xs ! i)) (key (xs ! j))"
  using scan_sorted by (fastforce simp: sorted_wrt_iff_nth_less)

end

subsection \<open>Lists\<close>

lemma successively_drop: "successively R xs \<Longrightarrow> successively R (drop n xs)"
  by (metis append_take_drop_id successively_append_iff)

lemma successively_take: "successively R xs \<Longrightarrow> successively R (take n xs)"
  by (metis append_take_drop_id successively_append_iff)

end
