(* ===== verification/Py_Json.thy ===== *)
theory Py_Json
  imports Py_Text Complex_Main "HOL-Library.AList"
begin

section \<open>Python values as the scripts read them from JSON\<close>

text \<open>
  The harness exchanges JSON documents: every component parses its inputs with \<open>json.loads\<close>
  and then works on dictionaries, comparing values with Python's \<open>==\<close>.  A document is a
  \<open>json\<close> value; an object keeps its keys in insertion order, as a Python dict does.  A float
  is represented by the decimal number that \<open>str()\<close> prints for it, which is what the scripts
  read (\<open>Decimal(str(value))\<close>) and which determines the float; the literals \<open>NaN\<close> and
  \<open>\<plusminus>Infinity\<close>, which \<open>json.loads\<close> accepts, are \<open>JNaN\<close> and \<open>JInf negative\<close>.  Strings are sequences of 8-bit characters.
\<close>

datatype json =
    JNull
  | JBool bool
  | JInt int
  | JFloat rat
  | JNaN
  | JInf bool
  | JStr string
  | JArr "json list"
  | JObj "(string \<times> json) list"

type_synonym obj = "(string \<times> json) list"

named_theorems json_simps \<open>reading and comparing JSON values\<close>

subsection \<open>Reading\<close>

text \<open>
  \<open>ob.get(k)\<close> on a dict, \<open>ob[k]\<close> on a dict (\<open>KeyError\<close>), \<open>v[k]\<close> on any value with a string key
  (\<open>TypeError\<close> on what cannot be indexed by a string), and \<open>v.get(k)\<close> on any value
  (\<open>AttributeError\<close> on what is not a dict).
\<close>

definition obj_get :: "obj \<Rightarrow> string \<Rightarrow> json" where
  "obj_get ob k = (case map_of ob k of None \<Rightarrow> JNull | Some v \<Rightarrow> v)"

definition obj_idx :: "obj \<Rightarrow> string \<Rightarrow> json result" where
  "obj_idx ob k = (case map_of ob k of None \<Rightarrow> Inl (PyExn ''KeyError'') | Some v \<Rightarrow> Inr v)"

definition idx :: "json \<Rightarrow> string \<Rightarrow> json result" where
  "idx v k = (case v of JObj ob \<Rightarrow> obj_idx ob k | _ \<Rightarrow> Inl (PyExn ''TypeError''))"

definition getE :: "json \<Rightarrow> string \<Rightarrow> json result" where
  "getE v k = (case v of JObj ob \<Rightarrow> Inr (obj_get ob k) | _ \<Rightarrow> Inl (PyExn ''AttributeError''))"

text \<open>\<open>v[k]\<close> where the code knows that \<open>v\<close> is a dict that has \<open>k\<close>.\<close>

definition field_of :: "json \<Rightarrow> string \<Rightarrow> json" where
  "field_of v k = (case v of JObj ob \<Rightarrow> obj_get ob k | _ \<Rightarrow> JNull)"

definition obj_set :: "string \<Rightarrow> json \<Rightarrow> obj \<Rightarrow> obj" where
  "obj_set k v ob = AList.update k v ob"

text \<open>\<open>ob.update({\<dots>})\<close>: every pair in turn, a present key keeping its place.\<close>

fun obj_update :: "obj \<Rightarrow> obj \<Rightarrow> obj" where
  "obj_update ob [] = ob"
| "obj_update ob ((k, v) # kvs) = obj_update (obj_set k v ob) kvs"

declare obj_update.simps [simp del]

definition keys_of :: "obj \<Rightarrow> string list" where
  "keys_of ob = map fst ob"

subsection \<open>Types, numbers, truth and equality\<close>

definition is_str :: "json \<Rightarrow> bool" where
  "is_str v = (case v of JStr _ \<Rightarrow> True | _ \<Rightarrow> False)"

definition is_dict :: "json \<Rightarrow> bool" where
  "is_dict v = (case v of JObj _ \<Rightarrow> True | _ \<Rightarrow> False)"

definition is_list :: "json \<Rightarrow> bool" where
  "is_list v = (case v of JArr _ \<Rightarrow> True | _ \<Rightarrow> False)"

text \<open>\<open>isinstance(v, int)\<close> holds of the booleans too.\<close>

definition is_int :: "json \<Rightarrow> bool" where
  "is_int v = (case v of JInt _ \<Rightarrow> True | JBool _ \<Rightarrow> True | _ \<Rightarrow> False)"

definition py_num :: "json \<Rightarrow> rat option" where
  "py_num v = (case v of JBool b \<Rightarrow> Some (of_bool b) | JInt i \<Rightarrow> Some (of_int i)
     | JFloat q \<Rightarrow> Some q | _ \<Rightarrow> None)"

definition truthy :: "json \<Rightarrow> bool" where
  "truthy v = (case v of JNull \<Rightarrow> False | JBool b \<Rightarrow> b | JInt i \<Rightarrow> i \<noteq> 0 | JFloat q \<Rightarrow> q \<noteq> 0
     | JNaN \<Rightarrow> True | JInf _ \<Rightarrow> True | JStr s \<Rightarrow> s \<noteq> [] | JArr xs \<Rightarrow> xs \<noteq> [] | JObj ob \<Rightarrow> ob \<noteq> [])"

text \<open>
  Python's \<open>==\<close>: numbers compare by value across \<open>bool\<close>, \<open>int\<close> and \<open>float\<close>, lists element by
  element, dicts as maps.  A \<open>NaN\<close> differs from everything, an infinity equals itself.
\<close>

fun py_eq :: "json \<Rightarrow> json \<Rightarrow> bool" where
  "py_eq (JStr s) v = (v = JStr s)"
| "py_eq JNull v = (v = JNull)"
| "py_eq (JInf b) v = (v = JInf b)"
| "py_eq (JArr xs) v = (case v of JArr ys \<Rightarrow> list_all2 py_eq xs ys | _ \<Rightarrow> False)"
| "py_eq (JObj ob) v = (case v of JObj p \<Rightarrow>
       set (map fst ob) = set (map fst p) \<and>
       list_all (\<lambda>(k, x). case map_of p k of None \<Rightarrow> False | Some y \<Rightarrow> py_eq x y) ob
     | _ \<Rightarrow> False)"
| "py_eq v w = (py_num v \<noteq> None \<and> py_num v = py_num w)"

text \<open>
  Python's \<open><\<close>: numbers by value, strings by code points, anything else raises.  (Lists, which
  no compared field holds, are left to the raising case.)
\<close>

definition is_number :: "json \<Rightarrow> bool" where
  "is_number v = (case v of JBool _ \<Rightarrow> True | JInt _ \<Rightarrow> True | JFloat _ \<Rightarrow> True | JNaN \<Rightarrow> True
     | JInf _ \<Rightarrow> True | _ \<Rightarrow> False)"

definition num_less :: "json \<Rightarrow> json \<Rightarrow> bool" where
  "num_less v w = (case v of
       JNaN \<Rightarrow> False
     | JInf negative \<Rightarrow> negative \<and> w \<noteq> JInf True \<and> w \<noteq> JNaN
     | _ \<Rightarrow> (case w of JInf negative \<Rightarrow> \<not> negative
             | _ \<Rightarrow> (case (py_num v, py_num w) of (Some x, Some y) \<Rightarrow> x < y | _ \<Rightarrow> False)))"

definition py_less :: "json \<Rightarrow> json \<Rightarrow> bool result" where
  "py_less v w = (case (v, w) of (JStr s, JStr t) \<Rightarrow> Inr (s < t)
     | _ \<Rightarrow> if is_number v \<and> is_number w then Inr (num_less v w)
           else Inl (PyExn ''TypeError''))"

text \<open>Membership in a literal set of strings; an unhashable left operand raises.\<close>

definition in_strs :: "json \<Rightarrow> string list \<Rightarrow> bool result" where
  "in_strs v ss = (case v of JStr s \<Rightarrow> Inr (s \<in> set ss) | JArr _ \<Rightarrow> Inl (PyExn ''TypeError'')
     | JObj _ \<Rightarrow> Inl (PyExn ''TypeError'') | _ \<Rightarrow> Inr False)"

text \<open>\<open>str(v)\<close> of the values the scripts put into messages.\<close>

definition py_str :: "json \<Rightarrow> string" where
  "py_str v = (case v of JStr s \<Rightarrow> s | JNull \<Rightarrow> ''None'' | JInt i \<Rightarrow> show_int i
     | JBool b \<Rightarrow> (if b then ''True'' else ''False'') | _ \<Rightarrow> ''<value>'')"

lemma obj_get_set [simp, json_simps]:
  "obj_get (obj_set k v ob) k' = (if k' = k then v else obj_get ob k')"
  by (simp add: obj_get_def obj_set_def update_conv')

lemma obj_get_update:
  "distinct (map fst kvs) \<Longrightarrow>
   obj_get (obj_update ob kvs) k = (case map_of kvs k of None \<Rightarrow> obj_get ob k | Some v \<Rightarrow> v)"
proof (induction ob kvs rule: obj_update.induct)
  case (2 ob k' v kvs)
  then have "map_of kvs k' = None" by (simp add: map_of_eq_None_iff)
  with 2 show ?case by (auto simp: obj_update.simps split: option.splits)
qed (simp add: obj_update.simps)

lemma map_of_obj_set [json_simps]: "map_of (obj_set k v ob) = (map_of ob)(k \<mapsto> v)"
  by (simp add: obj_set_def update_conv')

lemma obj_get_Cons [simp, json_simps]:
  "obj_get ((k, v) # ob) k' = (if k' = k then v else obj_get ob k')"
  "obj_get [] k' = JNull"
  by (simp_all add: obj_get_def)

lemma idx_JObj_iff [json_simps]: "idx v k = Inr x \<longleftrightarrow> (\<exists>ob. v = JObj ob \<and> map_of ob k = Some x)"
  by (cases v) (auto simp: idx_def obj_idx_def split: option.splits)

lemma getE_iff [json_simps]: "getE v k = Inr x \<longleftrightarrow> (\<exists>ob. v = JObj ob \<and> x = obj_get ob k)"
  by (cases v) (auto simp: getE_def)

lemma in_strs_iff [json_simps]:
  "in_strs v ss = Inr b \<longleftrightarrow>
   \<not> is_list v \<and> \<not> is_dict v \<and> b = (\<exists>s \<in> set ss. v = JStr s)"
  by (cases v) (auto simp: in_strs_def is_list_def is_dict_def)

lemma py_eq_JStr [simp, json_simps]: "py_eq v (JStr s) \<longleftrightarrow> v = JStr s"
  by (cases v) (auto simp: py_num_def)

lemma py_eq_JNull [simp, json_simps]: "py_eq v JNull \<longleftrightarrow> v = JNull"
  by (cases v) (auto simp: py_num_def)

lemma py_eq_JInt [simp, json_simps]: "py_eq v (JInt n) \<longleftrightarrow> py_num v = Some (of_int n)"
  by (cases v) (auto simp: py_num_def)

lemma py_num_simps [simp, json_simps]:
  "py_num (JInt n) = Some (of_int n)" "py_num (JFloat q) = Some q"
  "py_num (JBool b) = Some (of_bool b)"
  "py_num JNull = None" "py_num JNaN = None" "py_num (JInf b') = None" "py_num (JStr s) = None"
  "py_num (JArr xs) = None" "py_num (JObj ob) = None"
  by (simp_all add: py_num_def)

text \<open>On the values the scripts compare (no list, no dict inside) \<open>==\<close> is symmetric and
  transitive.\<close>

definition scalar :: "json \<Rightarrow> bool" where
  "scalar v \<longleftrightarrow> \<not> is_list v \<and> \<not> is_dict v \<and> v \<noteq> JNaN"

lemma py_eq_scalar_iff:
  assumes "scalar v" "scalar w"
  shows "py_eq v w \<longleftrightarrow> v = w \<or> (py_num v \<noteq> None \<and> py_num v = py_num w)"
  using assms by (cases v; cases w) (auto simp: scalar_def is_list_def is_dict_def)

lemma py_eq_scalar_right: "py_eq v w \<Longrightarrow> scalar v \<Longrightarrow> scalar w"
  by (cases v; cases w) (auto simp: scalar_def is_list_def is_dict_def)

lemma py_eq_scalar_left: "py_eq v w \<Longrightarrow> scalar w \<Longrightarrow> scalar v"
  by (cases v; cases w) (auto simp: scalar_def is_list_def is_dict_def)

lemma py_eq_scalar_sym: "py_eq v w \<Longrightarrow> scalar v \<Longrightarrow> py_eq w v"
  using py_eq_scalar_right [of v w] by (metis py_eq_scalar_iff)

lemma is_str_iff [json_simps]: "is_str v \<longleftrightarrow> (\<exists>s. v = JStr s)"
  by (cases v) (simp_all add: is_str_def)

lemma is_dict_iff [json_simps]: "is_dict v \<longleftrightarrow> (\<exists>ob. v = JObj ob)"
  by (cases v) (simp_all add: is_dict_def)

lemma is_list_iff [json_simps]: "is_list v \<longleftrightarrow> (\<exists>xs. v = JArr xs)"
  by (cases v) (simp_all add: is_list_def)

lemma num_less_trans: "num_less a b \<Longrightarrow> num_less b c \<Longrightarrow> num_less a c"
  by (cases a; cases b; cases c) (auto simp: num_less_def of_bool_def split: if_splits)

lemma py_less_trans:
  assumes "py_less a b = Inr True" and "py_less b c = Inr True"
  shows "py_less a c = Inr True"
  using assms num_less_trans [of a b c]
  by (cases a; cases b; cases c) (auto simp: py_less_def is_number_def split: if_splits)

lemma py_less_ints [simp, json_simps]: "py_less (JInt a) (JInt b) = Inr (a < b)"
  by (simp add: py_less_def is_number_def num_less_def)

subsection \<open>A JSON file as a script finds it\<close>

text \<open>Not a regular file, a file whose reading or parsing raises the named exception, or the
  document it holds.\<close>

datatype loaded = FileMissing | FileRaises string | FileJson json

end
