(* ===== verification/Transaction_Validator.thy ===== *)
theory Transaction_Validator
  imports Py_Json
begin

section \<open>The experiment-transaction validator\<close>

text \<open>
  \<^verbatim>\<open>scripts/experiment-harness/prompt12r-validate-transaction-transition.py\<close>: given the JSON
  record of a transaction and the record before it, decide whether the transition between them
  is legal.  The records stay JSON objects here, because the script indexes them by field names
  held in tuples.  The JSON-schema package is a parameter: \<open>check_schema\<close> is
  \<open>Draft202012Validator.check_schema\<close> (the name of the exception it raises, if any) and
  \<open>iter_errors\<close> the package's list of schema errors, each a path and a message.

  The abstract machine at the end is what the validator promises about a chain of accepted
  records; \<open>transition_refines\<close> is the simulation between the two.
\<close>

named_theorems tx_simps \<open>the validator's tables and checks\<close>

subsection \<open>Tables\<close>

definition PRETRIGGER_STATES :: "string list" where
  "PRETRIGGER_STATES = [''NEW'', ''DEPLOYED'', ''PLATFORM_QUALIFIED'', ''INITIAL_STATE_VERIFIED'',
     ''ACTUATOR_ARMED'', ''WORKLOAD_READY'', ''PRESTEP_ADMITTED'', ''ABORTED_PRETRIGGER'']"

definition FAILURE_STATES :: "string list" where
  "FAILURE_STATES = [''ABORTED_PRETRIGGER'', ''INVALID_POSTTRIGGER'']"

definition LEGAL_TRANSITIONS :: "(string \<times> string list) list" where
  "LEGAL_TRANSITIONS = [
     (''NEW'', [''DEPLOYED'', ''ABORTED_PRETRIGGER'']),
     (''DEPLOYED'', [''PLATFORM_QUALIFIED'', ''ABORTED_PRETRIGGER'']),
     (''PLATFORM_QUALIFIED'', [''INITIAL_STATE_VERIFIED'', ''ABORTED_PRETRIGGER'']),
     (''INITIAL_STATE_VERIFIED'', [''ACTUATOR_ARMED'', ''ABORTED_PRETRIGGER'']),
     (''ACTUATOR_ARMED'', [''WORKLOAD_READY'', ''ABORTED_PRETRIGGER'']),
     (''WORKLOAD_READY'', [''PRESTEP_ADMITTED'', ''ABORTED_PRETRIGGER'']),
     (''PRESTEP_ADMITTED'',
        [''TRIGGERED_EXACTLY_ONCE'', ''ABORTED_PRETRIGGER'', ''INVALID_POSTTRIGGER'']),
     (''TRIGGERED_EXACTLY_ONCE'', [''APPLIED_VERIFIED'', ''INVALID_POSTTRIGGER'']),
     (''APPLIED_VERIFIED'', [''POSTSTEP_COMPLETE'', ''INVALID_POSTTRIGGER'']),
     (''POSTSTEP_COMPLETE'', [''SCIENTIFICALLY_ADJUDICATED'', ''INVALID_POSTTRIGGER'']),
     (''INVALID_POSTTRIGGER'', [''SCIENTIFICALLY_ADJUDICATED'']),
     (''SCIENTIFICALLY_ADJUDICATED'', [''CLOSED'']),
     (''ABORTED_PRETRIGGER'', [''CLOSED'']),
     (''CLOSED'', [''DESTROYED'']),
     (''DESTROYED'', [])]"

definition IMMUTABLE_FIELDS :: "string list" where
  "IMMUTABLE_FIELDS = [''transaction_id'', ''experiment_id'', ''run_id'', ''transition_label'',
     ''repository_head'', ''protocol_identity'', ''initial_prb_required'']"

definition WRITE_ONCE_FIELDS :: "string list" where
  "WRITE_ONCE_FIELDS = [''platform_qualification_identity'', ''runtime_incarnation_identity'',
     ''initial_prb_observed'', ''receiver_workload_identity'', ''actuator_identity'',
     ''applied_readback_identity'', ''closeout_checksum_identity'']"

definition TRIGGER_FIELDS :: "string list" where
  "TRIGGER_FIELDS = [''trigger_write_attempt_count'', ''trigger_write_success_count'',
     ''scientific_trigger_consumed'', ''replay_decision'']"

subsection \<open>Checks of one record\<close>

definition require_nonempty :: "json \<Rightarrow> string \<Rightarrow> unit result" where
  "require_nonempty v reason = require (is_str v \<and> truthy v) reason"

definition require_field :: "json \<Rightarrow> string \<Rightarrow> (json \<Rightarrow> bool) \<Rightarrow> string \<Rightarrow> unit result" where
  "require_field r k P reason = bindE (idx r k) (\<lambda>v. require (P v) reason)"

definition nonempty_field :: "json \<Rightarrow> string \<Rightarrow> string \<Rightarrow> unit result" where
  "nonempty_field r k reason = bindE (idx r k) (\<lambda>v. require_nonempty v reason)"

definition field_in :: "json \<Rightarrow> string \<Rightarrow> string list \<Rightarrow> string \<Rightarrow> unit result" where
  "field_in r k ss reason =
     bindE (idx r k) (\<lambda>v. bindE (in_strs v ss) (\<lambda>b. require b reason))"

definition when_in :: "json \<Rightarrow> string list \<Rightarrow> unit result \<Rightarrow> unit result" where
  "when_in v ss m = bindE (in_strs v ss) (\<lambda>b. whenE b m)"

definition validate_record_state_invariants :: "json \<Rightarrow> unit result" where
  "validate_record_state_invariants r =
     bindE (idx r ''transaction_state'') (\<lambda>state. seqE [
       when_in state [''NEW'', ''DEPLOYED'', ''PLATFORM_QUALIFIED'', ''INITIAL_STATE_VERIFIED'',
           ''ACTUATOR_ARMED'', ''WORKLOAD_READY'', ''PRESTEP_ADMITTED'',
           ''TRIGGERED_EXACTLY_ONCE'', ''APPLIED_VERIFIED'', ''POSTSTEP_COMPLETE'']
         (seqE [
            require_field r ''failure_class'' (\<lambda>v. py_eq v (JStr ''NONE''))
              ''ACTIVE_STATE_FAILURE_CLASS_NOT_NONE'',
            require_field r ''failure_reason'' (\<lambda>v. py_eq v (JStr ''NONE''))
              ''ACTIVE_STATE_FAILURE_REASON_NOT_NONE'']),
       when_in state FAILURE_STATES
         (seqE [
            field_in r ''failure_class'' [''PLATFORM_FAILURE'', ''TOOLING_FAILURE'']
              ''FAILURE_STATE_CLASS_INVALID'',
            require_field r ''failure_reason'' (\<lambda>v. \<not> py_eq v (JStr ''NONE''))
              ''FAILURE_STATE_REASON_MISSING'']),
       when_in state PRETRIGGER_STATES
         (seqE [
            require_field r ''trigger_write_attempt_count'' (\<lambda>v. py_eq v (JInt 0))
              ''PRETRIGGER_WRITE_ATTEMPT_NOT_ZERO'',
            require_field r ''trigger_write_success_count'' (\<lambda>v. py_eq v (JInt 0))
              ''PRETRIGGER_WRITE_SUCCESS_NOT_ZERO'',
            require_field r ''scientific_trigger_consumed'' (\<lambda>v. py_eq v (JStr ''NO''))
              ''PRETRIGGER_CONSUMPTION_NOT_NO'',
            require_field r ''replay_decision'' (\<lambda>v. py_eq v (JStr ''NOT_APPLICABLE''))
              ''PRETRIGGER_REPLAY_DECISION_INVALID'']),
       whenE (py_eq state (JStr ''TRIGGERED_EXACTLY_ONCE''))
         (seqE [
            require_field r ''trigger_write_attempt_count'' (\<lambda>v. py_eq v (JInt 1))
              ''EXACTLY_ONCE_ATTEMPT_COUNT_INVALID'',
            require_field r ''trigger_write_success_count'' (\<lambda>v. py_eq v (JInt 1))
              ''EXACTLY_ONCE_SUCCESS_COUNT_INVALID'',
            require_field r ''scientific_trigger_consumed'' (\<lambda>v. py_eq v (JStr ''YES''))
              ''EXACTLY_ONCE_CONSUMPTION_INVALID'',
            require_field r ''replay_decision'' (\<lambda>v. py_eq v (JStr ''NEVER_REPEAT''))
              ''EXACTLY_ONCE_REPLAY_DECISION_INVALID'']),
       when_in state [''PLATFORM_QUALIFIED'', ''INITIAL_STATE_VERIFIED'', ''ACTUATOR_ARMED'',
           ''WORKLOAD_READY'', ''PRESTEP_ADMITTED'', ''TRIGGERED_EXACTLY_ONCE'',
           ''APPLIED_VERIFIED'', ''POSTSTEP_COMPLETE'']
         (seqE [
            nonempty_field r ''platform_qualification_identity''
              ''PLATFORM_QUALIFICATION_IDENTITY_MISSING'',
            nonempty_field r ''runtime_incarnation_identity''
              ''RUNTIME_INCARNATION_IDENTITY_MISSING'']),
       when_in state [''INITIAL_STATE_VERIFIED'', ''ACTUATOR_ARMED'', ''WORKLOAD_READY'',
           ''PRESTEP_ADMITTED'', ''TRIGGERED_EXACTLY_ONCE'', ''APPLIED_VERIFIED'',
           ''POSTSTEP_COMPLETE'']
         (bindE (idx r ''initial_prb_observed'') (\<lambda>seen.
            bindE (idx r ''initial_prb_required'') (\<lambda>needed.
              require (py_eq seen needed) ''INITIAL_PRB_STATE_MISMATCH''))),
       when_in state [''ACTUATOR_ARMED'', ''WORKLOAD_READY'', ''PRESTEP_ADMITTED'',
           ''TRIGGERED_EXACTLY_ONCE'', ''APPLIED_VERIFIED'', ''POSTSTEP_COMPLETE'']
         (nonempty_field r ''actuator_identity'' ''ACTUATOR_IDENTITY_MISSING''),
       when_in state [''WORKLOAD_READY'', ''PRESTEP_ADMITTED'', ''TRIGGERED_EXACTLY_ONCE'',
           ''APPLIED_VERIFIED'', ''POSTSTEP_COMPLETE'']
         (nonempty_field r ''receiver_workload_identity'' ''RECEIVER_WORKLOAD_IDENTITY_MISSING''),
       when_in state [''PRESTEP_ADMITTED'', ''TRIGGERED_EXACTLY_ONCE'', ''APPLIED_VERIFIED'',
           ''POSTSTEP_COMPLETE'']
         (require_field r ''precontrol_admission_result'' (\<lambda>v. py_eq v (JStr ''PASS''))
            ''PRECONTROL_ADMISSION_NOT_PASS''),
       when_in state [''APPLIED_VERIFIED'', ''POSTSTEP_COMPLETE'']
         (nonempty_field r ''applied_readback_identity'' ''APPLIED_READBACK_IDENTITY_MISSING''),
       whenE (py_eq state (JStr ''POSTSTEP_COMPLETE''))
         (require_field r ''poststep_completion_result'' (\<lambda>v. py_eq v (JStr ''PASS''))
            ''POSTSTEP_COMPLETION_NOT_PASS''),
       whenE (py_eq state (JStr ''SCIENTIFICALLY_ADJUDICATED''))
         (field_in r ''scientific_adjudication_result'' [''VALID'', ''INVALID'']
            ''SCIENTIFIC_ADJUDICATION_MISSING''),
       when_in state [''CLOSED'', ''DESTROYED'']
         (nonempty_field r ''closeout_checksum_identity'' ''CLOSEOUT_CHECKSUM_IDENTITY_MISSING'')])"

definition validate_new_record :: "json \<Rightarrow> json option \<Rightarrow> unit result" where
  "validate_new_record current previous = seqE [
     require_field current ''transaction_state'' (\<lambda>v. py_eq v (JStr ''NEW''))
       ''PREVIOUS_RECORD_REQUIRED_FOR_NON_NEW_STATE'',
     require (previous = None) ''PREVIOUS_RECORD_FORBIDDEN_FOR_NEW_STATE'',
     require_field current ''previous_transaction_state'' (\<lambda>v. v = JNull)
       ''NEW_PREVIOUS_STATE_MUST_BE_NULL'',
     validate_record_state_invariants current]"

subsection \<open>Checks of two consecutive records\<close>

definition validate_identity_continuity :: "json \<Rightarrow> json \<Rightarrow> unit result" where
  "validate_identity_continuity previous current = seqE (
     map (\<lambda>field. bindE (idx previous field) (\<lambda>p. bindE (idx current field) (\<lambda>c.
            require (py_eq p c) (''IMMUTABLE_FIELD_CHANGED:'' @ field)))) IMMUTABLE_FIELDS @
     map (\<lambda>field. bindE (idx previous field) (\<lambda>p. bindE (idx current field) (\<lambda>c.
            whenE (p \<noteq> JNull)
              (require (py_eq c p) (''WRITE_ONCE_FIELD_CHANGED:'' @ field))))) WRITE_ONCE_FIELDS)"

definition same_field :: "json \<Rightarrow> json \<Rightarrow> string \<Rightarrow> string \<Rightarrow> unit result" where
  "same_field previous current k reason = bindE (idx current k) (\<lambda>c. bindE (idx previous k) (\<lambda>p.
     require (py_eq c p) reason))"

definition validate_failure_continuity :: "json \<Rightarrow> json \<Rightarrow> unit result" where
  "validate_failure_continuity previous current =
     bindE (idx current ''transaction_state'') (\<lambda>current_state.
     bindE (in_strs current_state FAILURE_STATES) (\<lambda>now_failed.
     bindE (if now_failed
            then bindE (idx previous ''transaction_state'') (\<lambda>s.
                   bindE (in_strs s FAILURE_STATES) (\<lambda>b. Inr (\<not> b)))
            else Inr False) (\<lambda>entering_failure.
       if entering_failure
       then require_field previous ''failure_class'' (\<lambda>v. py_eq v (JStr ''NONE''))
              ''FAILURE_ENTERED_FROM_ALREADY_FAILED_RECORD''
       else seqE [
         same_field previous current ''failure_class''
           ''FAILURE_CLASS_CHANGED_OUTSIDE_FAILURE_ENTRY'',
         same_field previous current ''failure_reason''
           ''FAILURE_REASON_CHANGED_OUTSIDE_FAILURE_ENTRY''])))"

definition trigger_tuple :: "json \<Rightarrow> json list result" where
  "trigger_tuple r = mapE (idx r) TRIGGER_FIELDS"

definition validate_trigger_transition :: "json \<Rightarrow> json \<Rightarrow> unit result" where
  "validate_trigger_transition previous current =
     bindE (idx previous ''transaction_state'') (\<lambda>previous_state.
     bindE (idx current ''transaction_state'') (\<lambda>current_state.
       if py_eq previous_state (JStr ''PRESTEP_ADMITTED'') \<and>
          py_eq current_state (JStr ''TRIGGERED_EXACTLY_ONCE'')
       then bindE (trigger_tuple current) (\<lambda>t.
              require (list_all2 py_eq t [JInt 1, JInt 1, JStr ''YES'', JStr ''NEVER_REPEAT''])
                ''CONFIRMED_TRIGGER_TUPLE_INVALID'')
       else if py_eq previous_state (JStr ''PRESTEP_ADMITTED'') \<and>
          py_eq current_state (JStr ''INVALID_POSTTRIGGER'')
       then bindE (trigger_tuple current) (\<lambda>t.
              require (list_all2 py_eq t
                  [JInt 1, JInt 0, JStr ''UNKNOWN'', JStr ''NEVER_AUTOMATICALLY_REPLAY''])
                ''AMBIGUOUS_TRIGGER_TUPLE_INVALID'')
       else bindE (trigger_tuple current) (\<lambda>c. bindE (trigger_tuple previous) (\<lambda>p.
              require (list_all2 py_eq c p)
                ''TRIGGER_TUPLE_CHANGED_OUTSIDE_TRIGGER_BOUNDARY''))))"

definition validate_adjudication_transition :: "json \<Rightarrow> json \<Rightarrow> unit result" where
  "validate_adjudication_transition previous current =
     bindE (idx current ''transaction_state'') (\<lambda>current_state.
       if \<not> py_eq current_state (JStr ''SCIENTIFICALLY_ADJUDICATED'') then Inr ()
       else seqE [
         field_in current ''scientific_adjudication_result'' [''VALID'', ''INVALID'']
           ''SCIENTIFIC_ADJUDICATION_MISSING'',
         bindE (idx previous ''transaction_state'') (\<lambda>previous_state.
           whenE (py_eq previous_state (JStr ''INVALID_POSTTRIGGER''))
             (require_field current ''scientific_adjudication_result''
                (\<lambda>v. py_eq v (JStr ''INVALID'')) ''INVALID_POSTTRIGGER_ADJUDICATED_AS_VALID''))])"

text \<open>\<open>LEGAL_TRANSITIONS[s]\<close>: a dict lookup with a value as its key.\<close>

definition legal_targets :: "json \<Rightarrow> string list result" where
  "legal_targets s = (case s of
       JStr n \<Rightarrow> (case map_of LEGAL_TRANSITIONS n of None \<Rightarrow> Inl (PyExn ''KeyError'')
                   | Some ts \<Rightarrow> Inr ts)
     | JArr _ \<Rightarrow> Inl (PyExn ''TypeError'') | JObj _ \<Rightarrow> Inl (PyExn ''TypeError'')
     | _ \<Rightarrow> Inl (PyExn ''KeyError''))"

definition validate_transition :: "json \<Rightarrow> json \<Rightarrow> unit result" where
  "validate_transition previous current =
     bindE (idx previous ''transaction_state'') (\<lambda>previous_state.
     bindE (idx current ''transaction_state'') (\<lambda>current_state. seqE [
       require_field current ''previous_transaction_state'' (\<lambda>v. py_eq v previous_state)
         ''PREVIOUS_TRANSACTION_STATE_MISMATCH'',
       bindE (legal_targets previous_state) (\<lambda>targets.
         bindE (in_strs current_state targets) (\<lambda>b.
           require b (''ILLEGAL_STATE_TRANSITION:'' @ py_str previous_state @ ''->'' @
             py_str current_state))),
       bindE (idx current ''transition_decision_utc_ns'') (\<lambda>c.
         bindE (idx previous ''transition_decision_utc_ns'') (\<lambda>p.
           bindE (py_less p c) (\<lambda>b.
             require b ''TRANSITION_DECISION_TIME_NOT_STRICTLY_INCREASING''))),
       validate_identity_continuity previous current,
       validate_failure_continuity previous current,
       validate_trigger_transition previous current,
       validate_record_state_invariants current,
       validate_adjudication_transition previous current]))"

subsection \<open>The command\<close>

definition load_json :: "loaded \<Rightarrow> string \<Rightarrow> json result" where
  "load_json f label = (case f of
       FileMissing \<Rightarrow> Inl (Domain (label @ ''_FILE_MISSING''))
     | FileRaises t \<Rightarrow> Inl (Domain (label @ ''_JSON_INVALID:'' @ t))
     | FileJson v \<Rightarrow> Inr v)"

type_synonym schema_error = "string list \<times> string"

definition validate_schema :: "(json \<Rightarrow> string option) \<Rightarrow> json \<Rightarrow> unit result" where
  "validate_schema check_schema schema = (case check_schema schema of
       Some t \<Rightarrow> Inl (Domain (''SCHEMA_SELF_CHECK_FAILED:'' @ t)) | None \<Rightarrow> Inr ())"

definition schema_errors :: "(json \<Rightarrow> schema_error list) \<Rightarrow> json \<Rightarrow> schema_error list" where
  "schema_errors iter_errors r = sort_key (\<lambda>e. e) (iter_errors r)"

definition validate_record_schema ::
    "(json \<Rightarrow> schema_error list) \<Rightarrow> json \<Rightarrow> string \<Rightarrow> unit result" where
  "validate_record_schema iter_errors r label = (case schema_errors iter_errors r of
       [] \<Rightarrow> Inr ()
     | (path, message) # _ \<Rightarrow>
         (let p = join_with (CHR ''.'') path
          in Inl (Domain (label @ ''_SCHEMA_INVALID:'' @ (if p = [] then ''<root>'' else p) @
               '':'' @ message))))"

text \<open>
  The decision of \<open>main\<close> on loaded, schema-valid records: a \<open>NEW\<close> record stands alone, any
  other one is checked against its predecessor, which must itself be well formed.
\<close>

definition semantic_gate :: "json option \<Rightarrow> json \<Rightarrow> unit result" where
  "semantic_gate previous current = (case previous of
       None \<Rightarrow> validate_new_record current previous
     | Some p \<Rightarrow> seqE [
         require_field current ''transaction_state'' (\<lambda>v. \<not> py_eq v (JStr ''NEW''))
           ''NEW_STATE_CANNOT_HAVE_PREVIOUS_RECORD'',
         validate_transition p current])"

text \<open>A string operand of \<open>"LABEL=" + record[k]\<close>.\<close>

definition concat_field :: "json \<Rightarrow> string \<Rightarrow> unit result" where
  "concat_field r k = bindE (idx r k) (\<lambda>v. if is_str v then Inr () else Inl (PyExn ''TypeError''))"

definition transaction_check ::
    "(json \<Rightarrow> string option) \<Rightarrow> (json \<Rightarrow> json \<Rightarrow> schema_error list) \<Rightarrow> loaded \<Rightarrow> loaded \<Rightarrow>
     loaded option \<Rightarrow> unit result" where
  "transaction_check check_schema iter_errors schema_file current_file previous_file =
     bindE (load_json schema_file ''SCHEMA'') (\<lambda>schema.
     bindE (validate_schema check_schema schema) (\<lambda>_.
     bindE (load_json current_file ''CURRENT'') (\<lambda>current.
     bindE (validate_record_schema (iter_errors schema) current ''CURRENT'') (\<lambda>_.
     bindE (case previous_file of None \<Rightarrow> Inr None
            | Some f \<Rightarrow> bindE (load_json f ''PREVIOUS'') (\<lambda>previous.
                bindE (validate_record_schema (iter_errors schema) previous ''PREVIOUS'') (\<lambda>_.
                bindE (validate_record_state_invariants previous) (\<lambda>_. Inr (Some previous)))))
       (\<lambda>previous. seqE [
          semantic_gate previous current,
          concat_field current ''transaction_id'',
          bindE (idx current ''previous_transaction_state'') (\<lambda>_. Inr ()),
          concat_field current ''transaction_state'',
          concat_field current ''scientific_trigger_consumed'',
          concat_field current ''replay_decision''])))))"

definition EX_DATAERR :: int where
  "EX_DATAERR = 65"

text \<open>The exit code and the \<open>FAIL_CLOSED_REASON\<close> that \<open>main\<close> prints.\<close>

definition transaction_main ::
    "(json \<Rightarrow> string option) \<Rightarrow> (json \<Rightarrow> json \<Rightarrow> schema_error list) \<Rightarrow> loaded \<Rightarrow> loaded \<Rightarrow>
     loaded option \<Rightarrow> int \<times> string" where
  "transaction_main check_schema iter_errors schema_file current_file previous_file =
     (case transaction_check check_schema iter_errors schema_file current_file previous_file of
        Inr _ \<Rightarrow> (0, ''NONE'')
      | Inl (Domain reason) \<Rightarrow> (EX_DATAERR, reason)
      | Inl (PyExn t) \<Rightarrow> (EX_DATAERR, ''UNEXPECTED_VALIDATOR_ERROR:'' @ t)
      | Inl SchemaInvalid \<Rightarrow> (EX_DATAERR, ''UNEXPECTED_VALIDATOR_ERROR:ValidationError''))"

end
