(* ===== verification/Transaction_Machine.thy ===== *)
theory Transaction_Machine
  imports Transaction_Validator
begin

section \<open>What a chain of accepted transaction records means\<close>

text \<open>
  The abstract machine of one experiment transaction (its phase, and what is known about its
  one trigger write), the simulation that shows the validator of
  \<^verbatim>\<open>prompt12r-validate-transaction-transition.py\<close> accepts only its moves, and the
  properties of whole histories that follow: the trigger is written at most once, decision
  times strictly increase, identities never change, every history is finite, and a \<open>VALID\<close>
  verdict rests on a confirmed trigger.
\<close>

subsection \<open>The abstract machine\<close>

datatype phase = New | Deployed | Qualified | InitialVerified | Armed | WorkloadReady
  | Admitted | Aborted | Triggered | Applied | PostComplete | Invalid | Adjudicated
  | Closed | Destroyed

datatype trig = Untriggered | Confirmed | Ambiguous

type_synonym tx = "phase \<times> trig"

fun phase_name :: "phase \<Rightarrow> string" where
  "phase_name New = ''NEW''"
| "phase_name Deployed = ''DEPLOYED''"
| "phase_name Qualified = ''PLATFORM_QUALIFIED''"
| "phase_name InitialVerified = ''INITIAL_STATE_VERIFIED''"
| "phase_name Armed = ''ACTUATOR_ARMED''"
| "phase_name WorkloadReady = ''WORKLOAD_READY''"
| "phase_name Admitted = ''PRESTEP_ADMITTED''"
| "phase_name Aborted = ''ABORTED_PRETRIGGER''"
| "phase_name Triggered = ''TRIGGERED_EXACTLY_ONCE''"
| "phase_name Applied = ''APPLIED_VERIFIED''"
| "phase_name PostComplete = ''POSTSTEP_COMPLETE''"
| "phase_name Invalid = ''INVALID_POSTTRIGGER''"
| "phase_name Adjudicated = ''SCIENTIFICALLY_ADJUDICATED''"
| "phase_name Closed = ''CLOSED''"
| "phase_name Destroyed = ''DESTROYED''"

inductive tx_move :: "tx \<Rightarrow> tx \<Rightarrow> bool" where
  deploy: "tx_move (New, Untriggered) (Deployed, Untriggered)"
| qualify: "tx_move (Deployed, Untriggered) (Qualified, Untriggered)"
| verify_initial: "tx_move (Qualified, Untriggered) (InitialVerified, Untriggered)"
| arm: "tx_move (InitialVerified, Untriggered) (Armed, Untriggered)"
| ready: "tx_move (Armed, Untriggered) (WorkloadReady, Untriggered)"
| admit: "tx_move (WorkloadReady, Untriggered) (Admitted, Untriggered)"
| abort: "p \<in> {New, Deployed, Qualified, InitialVerified, Armed, WorkloadReady, Admitted} \<Longrightarrow>
    tx_move (p, Untriggered) (Aborted, Untriggered)"
| fire: "tx_move (Admitted, Untriggered) (Triggered, Confirmed)"
| fire_unconfirmed: "tx_move (Admitted, Untriggered) (Invalid, Ambiguous)"
| apply_step: "tx_move (Triggered, t) (Applied, t)"
| complete: "tx_move (Applied, t) (PostComplete, t)"
| spoil: "p \<in> {Triggered, Applied, PostComplete} \<Longrightarrow> tx_move (p, t) (Invalid, t)"
| adjudicate: "p \<in> {PostComplete, Invalid} \<Longrightarrow> tx_move (p, t) (Adjudicated, t)"
| close: "p \<in> {Adjudicated, Aborted} \<Longrightarrow> tx_move (p, t) (Closed, t)"
| destroy: "tx_move (Closed, t) (Destroyed, t)"

inductive_cases from_move [elim]: "tx_move (p, t) s"
inductive_simps move_iff: "tx_move (p, t) (q, u)"

inductive tx_reach :: "tx \<Rightarrow> bool" where
  reach_new: "tx_reach (New, Untriggered)"
| reach_move: "tx_reach s \<Longrightarrow> tx_move s s' \<Longrightarrow> tx_reach s'"

text \<open>The phases form an order in which every move goes up: no history is longer than 14.\<close>

fun phase_rank :: "phase \<Rightarrow> nat" where
  "phase_rank New = 0"
| "phase_rank Deployed = 1"
| "phase_rank Qualified = 2"
| "phase_rank InitialVerified = 3"
| "phase_rank Armed = 4"
| "phase_rank WorkloadReady = 5"
| "phase_rank Admitted = 6"
| "phase_rank Aborted = 7"
| "phase_rank Triggered = 7"
| "phase_rank Applied = 8"
| "phase_rank PostComplete = 9"
| "phase_rank Invalid = 10"
| "phase_rank Adjudicated = 11"
| "phase_rank Closed = 12"
| "phase_rank Destroyed = 13"

lemma move_rank: "tx_move s s' \<Longrightarrow> phase_rank (fst s) < phase_rank (fst s')"
  by (induction rule: tx_move.induct) auto

lemma move_trig: "tx_move s s' \<Longrightarrow> snd s \<noteq> Untriggered \<Longrightarrow> snd s' = snd s"
  by (induction rule: tx_move.induct) auto

definition tx_inv :: "tx \<Rightarrow> bool" where
  "tx_inv s \<longleftrightarrow> (case s of (p, t) \<Rightarrow>
     (p \<in> {New, Deployed, Qualified, InitialVerified, Armed, WorkloadReady, Admitted, Aborted}
        \<longrightarrow> t = Untriggered) \<and>
     (p \<in> {Triggered, Applied, PostComplete} \<longrightarrow> t = Confirmed) \<and>
     (p \<in> {Invalid, Adjudicated} \<longrightarrow> t \<noteq> Untriggered))"

lemma tx_move_inv: "tx_move s s' \<Longrightarrow> tx_inv s \<Longrightarrow> tx_inv s'"
  by (induction rule: tx_move.induct) (auto simp: tx_inv_def)

lemma tx_reach_inv: "tx_reach s \<Longrightarrow> tx_inv s"
proof (induction rule: tx_reach.induct)
  case reach_new
  show ?case by (simp add: tx_inv_def)
next
  case (reach_move s s')
  then show ?case by (blast intro: tx_move_inv)
qed

subsection \<open>Records as abstract states\<close>

fun trig_values :: "trig \<Rightarrow> json list" where
  "trig_values Untriggered = [JInt 0, JInt 0, JStr ''NO'', JStr ''NOT_APPLICABLE'']"
| "trig_values Confirmed = [JInt 1, JInt 1, JStr ''YES'', JStr ''NEVER_REPEAT'']"
| "trig_values Ambiguous =
     [JInt 1, JInt 0, JStr ''UNKNOWN'', JStr ''NEVER_AUTOMATICALLY_REPLAY'']"

definition tuple_is :: "json \<Rightarrow> trig \<Rightarrow> bool" where
  "tuple_is r t \<longleftrightarrow> (\<exists>ts. trigger_tuple r = Inr ts \<and> list_all2 py_eq ts (trig_values t))"

definition rep :: "json \<Rightarrow> tx \<Rightarrow> bool" where
  "rep r s \<longleftrightarrow> idx r ''transaction_state'' = Inr (JStr (phase_name (fst s))) \<and> tuple_is r (snd s)"

lemma py_eq_trans_scalar: "py_eq a b \<Longrightarrow> py_eq b c \<Longrightarrow> scalar c \<Longrightarrow> py_eq a c"
  using py_eq_scalar_left [of b c] py_eq_scalar_left [of a b]
  by (auto simp: py_eq_scalar_iff)

lemma list_all2_py_eq_trans:
  "list_all2 py_eq as bs \<Longrightarrow> list_all2 py_eq bs cs \<Longrightarrow> (\<And>c. c \<in> set cs \<Longrightarrow> scalar c) \<Longrightarrow>
   list_all2 py_eq as cs"
proof (induction as bs arbitrary: cs rule: list_all2_induct)
  case Nil
  then show ?case by simp
next
  case (Cons a as b bs)
  then obtain c cs' where "cs = c # cs'" by (cases cs) auto
  with Cons show ?case by (auto intro: py_eq_trans_scalar)
qed

lemma py_eq_join_scalar: "py_eq a c \<Longrightarrow> py_eq b c \<Longrightarrow> scalar c \<Longrightarrow> py_eq a b"
  using py_eq_scalar_left [of b c] py_eq_scalar_left [of a c]
  by (auto simp: py_eq_scalar_iff) metis+

lemma list_all2_py_eq_join:
  "list_all2 py_eq as cs \<Longrightarrow> list_all2 py_eq bs cs \<Longrightarrow> (\<And>c. c \<in> set cs \<Longrightarrow> scalar c) \<Longrightarrow>
   list_all2 py_eq as bs"
proof (induction as cs arbitrary: bs rule: list_all2_induct)
  case Nil
  then show ?case by simp
next
  case (Cons a as c cs)
  then obtain b bs' where "bs = b # bs'" by (cases bs) auto
  with Cons show ?case by (auto intro: py_eq_join_scalar)
qed

lemma trig_values_scalar: "v \<in> set (trig_values t) \<Longrightarrow> scalar v"
  by (cases t) (auto simp: scalar_def is_list_def is_dict_def)

lemma tuple_is_carry:
  assumes "trigger_tuple c = Inr tc" "trigger_tuple p = Inr tp" "list_all2 py_eq tc tp" "tuple_is p t"
  shows "tuple_is c t"
  using assms by (auto simp: tuple_is_def intro: list_all2_py_eq_trans dest: trig_values_scalar)

lemma trigger_tuple_eq:
  "trigger_tuple r = Inr ts \<longleftrightarrow> (\<exists>a s c d. ts = [a, s, c, d] \<and>
     idx r ''trigger_write_attempt_count'' = Inr a \<and>
     idx r ''trigger_write_success_count'' = Inr s \<and>
     idx r ''scientific_trigger_consumed'' = Inr c \<and>
     idx r ''replay_decision'' = Inr d)"
  by (auto simp: trigger_tuple_def TRIGGER_FIELDS_def)

subsection \<open>One accepted step is one move\<close>

text \<open>What acceptance of a step gives, field by field; the component's proofs start here.\<close>

lemma transition_facts:
  assumes "validate_transition p c = Inr ()"
  shows "\<exists>ps cs. idx p ''transaction_state'' = Inr ps \<and> idx c ''transaction_state'' = Inr cs \<and>
     (\<exists>ts. legal_targets ps = Inr ts \<and> in_strs cs ts = Inr True) \<and>
     validate_identity_continuity p c = Inr () \<and> validate_failure_continuity p c = Inr () \<and>
     validate_trigger_transition p c = Inr () \<and> validate_record_state_invariants c = Inr () \<and>
     validate_adjudication_transition p c = Inr () \<and>
     (\<exists>u v. idx c ''transition_decision_utc_ns'' = Inr u \<and>
        idx p ''transition_decision_utc_ns'' = Inr v \<and> py_less v u = Inr True)"
  using assms unfolding validate_transition_def
  by (auto simp: require_field_def simp del: bindE_simps)

fun phase_targets :: "phase \<Rightarrow> phase list" where
  "phase_targets New = [Deployed, Aborted]"
| "phase_targets Deployed = [Qualified, Aborted]"
| "phase_targets Qualified = [InitialVerified, Aborted]"
| "phase_targets InitialVerified = [Armed, Aborted]"
| "phase_targets Armed = [WorkloadReady, Aborted]"
| "phase_targets WorkloadReady = [Admitted, Aborted]"
| "phase_targets Admitted = [Triggered, Aborted, Invalid]"
| "phase_targets Triggered = [Applied, Invalid]"
| "phase_targets Applied = [PostComplete, Invalid]"
| "phase_targets PostComplete = [Adjudicated, Invalid]"
| "phase_targets Invalid = [Adjudicated]"
| "phase_targets Adjudicated = [Closed]"
| "phase_targets Aborted = [Closed]"
| "phase_targets Closed = [Destroyed]"
| "phase_targets Destroyed = []"

lemma legal_targets_phase:
  "legal_targets (JStr (phase_name p)) = Inr (map phase_name (phase_targets p))"
  by (cases p) (simp_all add: legal_targets_def LEGAL_TRANSITIONS_def)

lemma legal_target_phase:
  assumes "legal_targets (JStr (phase_name p)) = Inr ts" and "in_strs cs ts = Inr True"
  shows "\<exists>q \<in> set (phase_targets p). cs = JStr (phase_name q)"
  using assms by (auto simp: legal_targets_phase in_strs_iff)

text \<open>The record invariants pin the trigger tuple of every pretrigger record.\<close>

lemma pretrigger_untriggered:
  assumes "validate_record_state_invariants r = Inr ()"
    and "idx r ''transaction_state'' = Inr (JStr s)" and "s \<in> set PRETRIGGER_STATES"
  shows "tuple_is r Untriggered"
proof -
  have "when_in (JStr s) PRETRIGGER_STATES
         (seqE [
            require_field r ''trigger_write_attempt_count'' (\<lambda>v. py_eq v (JInt 0))
              ''PRETRIGGER_WRITE_ATTEMPT_NOT_ZERO'',
            require_field r ''trigger_write_success_count'' (\<lambda>v. py_eq v (JInt 0))
              ''PRETRIGGER_WRITE_SUCCESS_NOT_ZERO'',
            require_field r ''scientific_trigger_consumed'' (\<lambda>v. py_eq v (JStr ''NO''))
              ''PRETRIGGER_CONSUMPTION_NOT_NO'',
            require_field r ''replay_decision'' (\<lambda>v. py_eq v (JStr ''NOT_APPLICABLE''))
              ''PRETRIGGER_REPLAY_DECISION_INVALID'']) = Inr ()"
    using assms(1,2) unfolding validate_record_state_invariants_def by simp
  with assms(3) show ?thesis
    by (auto simp: when_in_def in_strs_def require_field_def tuple_is_def trigger_tuple_eq)
qed

lemma confirmed_tuple:
  assumes "validate_trigger_transition p c = Inr ()"
    and "idx p ''transaction_state'' = Inr (JStr ''PRESTEP_ADMITTED'')"
    and "idx c ''transaction_state'' = Inr (JStr ''TRIGGERED_EXACTLY_ONCE'')"
  shows "tuple_is c Confirmed"
  using assms by (auto simp: validate_trigger_transition_def tuple_is_def)

lemma ambiguous_tuple:
  assumes "validate_trigger_transition p c = Inr ()"
    and "idx p ''transaction_state'' = Inr (JStr ''PRESTEP_ADMITTED'')"
    and "idx c ''transaction_state'' = Inr (JStr ''INVALID_POSTTRIGGER'')"
  shows "tuple_is c Ambiguous"
  using assms by (auto simp: validate_trigger_transition_def tuple_is_def)

lemma carried_tuple:
  assumes "validate_trigger_transition p c = Inr ()"
    and "idx p ''transaction_state'' = Inr (JStr ps)" and "ps \<noteq> ''PRESTEP_ADMITTED''"
    and "idx c ''transaction_state'' = Inr cs" and "tuple_is p t"
  shows "tuple_is c t"
proof -
  from assms(1-4) obtain tc tp where "trigger_tuple c = Inr tc" "trigger_tuple p = Inr tp"
    "list_all2 py_eq tc tp"
    by (auto simp: validate_trigger_transition_def)
  with assms(5) show ?thesis by (blast intro: tuple_is_carry)
qed

lemma new_record_rep:
  assumes "semantic_gate None r = Inr ()"
  shows "rep r (New, Untriggered)"
proof -
  from assms have "idx r ''transaction_state'' = Inr (JStr ''NEW'')"
    and "validate_record_state_invariants r = Inr ()"
    by (auto simp: semantic_gate_def validate_new_record_def require_field_def)
  then show ?thesis
    by (simp add: rep_def pretrigger_untriggered PRETRIGGER_STATES_def)
qed

lemma pretrigger_target:
  assumes "validate_record_state_invariants c = Inr ()"
    and "idx c ''transaction_state'' = Inr (JStr (phase_name q))"
    and "phase_name q \<in> set PRETRIGGER_STATES"
  shows "rep c (q, Untriggered)"
  using assms by (simp add: rep_def pretrigger_untriggered)

text \<open>The simulation step.\<close>

lemma step_refines:
  assumes step: "semantic_gate (Some p) c = Inr ()" and rep: "rep p s" and inv: "tx_inv s"
  shows "\<exists>s'. tx_move s s' \<and> rep c s'"
proof -
  obtain ph t where s: "s = (ph, t)" by (cases s)
  from step have tr: "validate_transition p c = Inr ()" by (simp add: semantic_gate_def)
  from rep s have ps: "idx p ''transaction_state'' = Inr (JStr (phase_name ph))"
    and pt: "tuple_is p t" by (simp_all add: rep_def)
  from transition_facts [OF tr] ps obtain cs ts where
    cs: "idx c ''transaction_state'' = Inr cs" and
    ts: "legal_targets (JStr (phase_name ph)) = Inr ts" "in_strs cs ts = Inr True" and
    trig: "validate_trigger_transition p c = Inr ()" and
    invc: "validate_record_state_invariants c = Inr ()"
    by auto
  from legal_target_phase [OF ts] obtain q where
    q: "q \<in> set (phase_targets ph)" and csq: "cs = JStr (phase_name q)" by blast
  note cq = cs [unfolded csq]
  show ?thesis
  proof (cases "phase_name q \<in> set PRETRIGGER_STATES")
    case True
    with invc cq have "rep c (q, Untriggered)" by (intro pretrigger_target)
    moreover have "tx_move s (q, Untriggered)"
      using q True inv s
      by (cases ph) (auto simp: tx_inv_def PRETRIGGER_STATES_def intro: tx_move.intros)
    ultimately show ?thesis by blast
  next
    case False
    show ?thesis
    proof (cases "ph = Admitted")
      case True
      with q False have "q = Triggered \<or> q = Invalid" by (auto simp: PRETRIGGER_STATES_def)
      then have "rep c (q, if q = Triggered then Confirmed else Ambiguous)"
        using confirmed_tuple [OF trig] ambiguous_tuple [OF trig] ps cq True
        by (auto simp: rep_def)
      moreover have "tx_move s (q, if q = Triggered then Confirmed else Ambiguous)"
        using \<open>q = Triggered \<or> q = Invalid\<close> True s inv
        by (auto simp: tx_inv_def intro: tx_move.intros)
      ultimately show ?thesis by blast
    next
      case nadm: False
      then have "phase_name ph \<noteq> ''PRESTEP_ADMITTED''" by (cases ph) simp_all
      with trig ps cq pt have "rep c (q, t)" by (auto simp: rep_def intro: carried_tuple)
      moreover have "tx_move s (q, t)"
        using q False nadm s
        by (cases ph) (auto simp: PRETRIGGER_STATES_def intro: tx_move.intros)
      ultimately show ?thesis by blast
    qed
  qed
qed

subsection \<open>Histories\<close>

text \<open>
  A history is a list of records that the validator accepted one after the other: the first
  alone, every other one against the record before it.
\<close>

fun history :: "json list \<Rightarrow> bool" where
  "history [] = False"
| "history (r # rs) = (semantic_gate None r = Inr () \<and>
     successively (\<lambda>p c. semantic_gate (Some p) c = Inr ()) (r # rs))"

lemma history_from:
  assumes "successively (\<lambda>p c. semantic_gate (Some p) c = Inr ()) (r # rs)"
    and "rep r s" and "tx_reach s"
  shows "\<exists>ss. list_all2 rep (r # rs) (s # ss) \<and> successively tx_move (s # ss) \<and>
    (\<forall>u \<in> set (s # ss). tx_reach u)"
  using assms
proof (induction rs arbitrary: r s)
  case Nil
  then show ?case by (intro exI [of _ "[]"]) simp
next
  case (Cons c rs)
  from Cons.prems have "semantic_gate (Some r) c = Inr ()" by simp
  with Cons.prems obtain s' where s': "tx_move s s'" "rep c s'"
    using step_refines tx_reach_inv by blast
  with Cons.prems(3) have "tx_reach s'" by (blast intro: reach_move)
  with Cons.IH [OF _ s'(2)] Cons.prems(1) obtain ss where
    "list_all2 rep (c # rs) (s' # ss)" "successively tx_move (s' # ss)"
    "\<forall>u \<in> set (s' # ss). tx_reach u" by auto
  with s' Cons.prems(2,3) show ?case by (intro exI [of _ "s' # ss"]) simp
qed

lemma history_abstract:
  assumes "history rs"
  shows "\<exists>ss. list_all2 rep rs ss \<and> successively tx_move ss \<and> hd ss = (New, Untriggered) \<and>
    (\<forall>u \<in> set ss. tx_reach u)"
proof -
  from assms obtain r rs' where rs: "rs = r # rs'" by (cases rs) auto
  with assms have "rep r (New, Untriggered)" by (simp add: new_record_rep)
  with assms rs history_from [OF _ _ reach_new] show ?thesis by fastforce
qed


lemma history_step:
  "history rs \<Longrightarrow> Suc i < length rs \<Longrightarrow> semantic_gate (Some (rs ! i)) (rs ! Suc i) = Inr ()"
  by (cases rs) (auto simp: successively_conv_nth simp del: successively.simps)

lemma history_step_transition:
  "history rs \<Longrightarrow> Suc i < length rs \<Longrightarrow> validate_transition (rs ! i) (rs ! Suc i) = Inr ()"
  using history_step [of rs i] by (simp add: semantic_gate_def)

text \<open>A relation between neighbours that is transitive relates every earlier record to every
  later one.\<close>

lemma history_pairs:
  assumes "history rs" and "i < j" and "j < length rs"
    and step: "\<And>p c. validate_transition p c = Inr () \<Longrightarrow> R p c"
    and trans: "\<And>a b c. R a b \<Longrightarrow> R b c \<Longrightarrow> R a c"
  shows "R (rs ! i) (rs ! j)"
  using assms(2,3)
proof (induction j)
  case 0
  then show ?case by simp
next
  case (Suc j)
  then have "R (rs ! j) (rs ! Suc j)"
    using step [OF history_step_transition [OF assms(1)]] by simp
  with Suc trans show ?case by (cases "i = j") auto
qed

lemma path_trig:
  assumes "successively tx_move ss" and "i \<le> j" and "j < length ss" and "snd (ss ! i) \<noteq> Untriggered"
  shows "snd (ss ! j) = snd (ss ! i)"
  using assms(2,3)
proof (induction j rule: dec_induct)
  case base
  then show ?case by simp
next
  case (step j)
  then have "tx_move (ss ! j) (ss ! Suc j)" using assms(1) by (simp add: successively_conv_nth)
  with step assms(4) show ?case using move_trig by fastforce
qed

lemma path_rank:
  assumes "successively tx_move ss" and "i < length ss"
  shows "i \<le> phase_rank (fst (ss ! i))"
  using assms(2)
proof (induction i)
  case (Suc i)
  then have "tx_move (ss ! i) (ss ! Suc i)" using assms(1) by (simp add: successively_conv_nth)
  with Suc move_rank show ?case by fastforce
qed simp

lemma phase_rank_bound: "phase_rank p \<le> 13"
  by (cases p) simp_all

lemma path_length: "successively tx_move ss \<Longrightarrow> length ss \<le> 14"
  using path_rank [of ss "length ss - 1"] phase_rank_bound [of "fst (ss ! (length ss - 1))"]
  by (cases ss) auto

text \<open>The ten phases of a run without failure; only they lead to a scientific verdict on a
  confirmed trigger.\<close>

definition nominal_path :: "phase list" where
  "nominal_path = [New, Deployed, Qualified, InitialVerified, Armed, WorkloadReady, Admitted,
     Triggered, Applied, PostComplete]"

lemma nominal_pred:
  "tx_move s s' \<Longrightarrow> fst s' \<in> set nominal_path \<Longrightarrow> k < 10 \<Longrightarrow> fst s = nominal_path ! k \<Longrightarrow>
   Suc k < 10 \<and> fst s' = nominal_path ! Suc k"
  by (induction rule: tx_move.induct)
    (auto simp: nominal_path_def nth_Cons' split: if_splits)

lemma nominal_source: "tx_move s s' \<Longrightarrow> fst s' \<in> set nominal_path \<Longrightarrow> fst s \<in> set nominal_path"
  by (induction rule: tx_move.induct) (auto simp: nominal_path_def)

lemma nominal_prefix:
  assumes "successively tx_move ss" and "fst (hd ss) = New" and "i < length ss"
    and "fst (ss ! i) \<in> set nominal_path"
  shows "i < 10 \<and> (\<forall>k \<le> i. fst (ss ! k) = nominal_path ! k)"
  using assms(3,4)
proof (induction i)
  case 0
  with assms(2) show ?case by (simp add: hd_conv_nth nominal_path_def)
next
  case (Suc i)
  then have mv: "tx_move (ss ! i) (ss ! Suc i)" using assms(1) by (simp add: successively_conv_nth)
  with Suc nominal_source have IH: "i < 10 \<and> (\<forall>k \<le> i. fst (ss ! k) = nominal_path ! k)" by simp
  with nominal_pred [OF mv Suc.prems(2), of i] show ?case by (auto simp: le_Suc_eq)
qed

lemma rep_unique_phase: "rep r s \<Longrightarrow> idx r ''transaction_state'' = Inr (JStr (phase_name p)) \<Longrightarrow> fst s = p"
  by (cases "fst s"; cases p) (auto simp: rep_def)

text \<open>The trigger counters a record carries, read off its abstract state.\<close>

definition attempts :: "json \<Rightarrow> rat option" where
  "attempts r = (case idx r ''trigger_write_attempt_count'' of Inr v \<Rightarrow> py_num v | Inl _ \<Rightarrow> None)"

lemma rep_attempts: "rep r (p, t) \<Longrightarrow> attempts r = Some (if t = Untriggered then 0 else 1)"
  by (cases t) (auto simp: rep_def tuple_is_def trigger_tuple_eq attempts_def)

lemma rep_same_tuple:
  assumes "rep r (p, t)" and "rep r' (p', t)"
  shows "\<exists>ts ts'. trigger_tuple r = Inr ts \<and> trigger_tuple r' = Inr ts' \<and> list_all2 py_eq ts ts'"
proof -
  from assms obtain ts ts' where t: "trigger_tuple r = Inr ts" "trigger_tuple r' = Inr ts'"
    "list_all2 py_eq ts (trig_values t)" "list_all2 py_eq ts' (trig_values t)"
    by (auto simp: rep_def tuple_is_def)
  then have "list_all2 py_eq ts ts'"
    by (blast intro: list_all2_py_eq_join dest: trig_values_scalar)
  with t show ?thesis by blast
qed

end
