(* ===== verification/Transaction_Properties.thy ===== *)
theory Transaction_Properties
  imports Transaction_Machine
begin

section \<open>Properties of accepted transaction histories\<close>

text \<open>
  What \<^verbatim>\<open>prompt12r-validate-transaction-transition.py\<close> guarantees of a whole chain of
  accepted records, proved from the simulation of \<open>Transaction_Machine\<close>, and the exit contract
  of the command.  The sample histories at the start are complete records for which the
  theorems are exercised.
\<close>

subsection \<open>Field continuity along a history\<close>

lemma identity_facts:
  "validate_identity_continuity p c = Inr () \<longleftrightarrow>
     (\<forall>f \<in> set IMMUTABLE_FIELDS. \<exists>a b. idx p f = Inr a \<and> idx c f = Inr b \<and> py_eq a b) \<and>
     (\<forall>f \<in> set WRITE_ONCE_FIELDS. \<exists>a b. idx p f = Inr a \<and> idx c f = Inr b \<and>
        (a \<noteq> JNull \<longrightarrow> py_eq b a))"
  by (simp only: validate_identity_continuity_def seqE_Inr_iff set_append set_map ball_Un
    ball_simps bindE_Inr_iff require_Inr_iff whenE_Inr_iff ex_simps)

lemma immutable_step:
  assumes "validate_transition p c = Inr ()" and "f \<in> set IMMUTABLE_FIELDS"
  shows "\<exists>a b. idx p f = Inr a \<and> idx c f = Inr b \<and> py_eq a b"
proof -
  from transition_facts [OF assms(1)] have "validate_identity_continuity p c = Inr ()" by blast
  with assms(2) show ?thesis by (simp only: identity_facts)
qed

lemma write_once_step:
  assumes "validate_transition p c = Inr ()" and "f \<in> set WRITE_ONCE_FIELDS"
  shows "\<exists>a b. idx p f = Inr a \<and> idx c f = Inr b \<and> (a \<noteq> JNull \<longrightarrow> py_eq b a)"
proof -
  from transition_facts [OF assms(1)] have "validate_identity_continuity p c = Inr ()" by blast
  with assms(2) show ?thesis by (simp only: identity_facts)
qed

lemma time_step:
  assumes "validate_transition p c = Inr ()"
  shows "\<exists>u v. idx p ''transition_decision_utc_ns'' = Inr u \<and>
    idx c ''transition_decision_utc_ns'' = Inr v \<and> py_less u v = Inr True"
  using transition_facts [OF assms] by blast

lemma py_eq_refl_scalar: "scalar a \<Longrightarrow> py_eq a a"
  by (simp add: py_eq_scalar_iff)

text \<open>A field that every step carries over is carried over by the whole history.\<close>

lemma carried_field:
  assumes "history rs" and "i \<le> j" and "j < length rs"
    and "idx (rs ! i) f = Inr a" and "scalar a" and "P a"
    and step: "\<And>p c x. validate_transition p c = Inr () \<Longrightarrow> idx p f = Inr x \<Longrightarrow> P x \<Longrightarrow>
        \<exists>y. idx c f = Inr y \<and> (py_eq x y \<or> py_eq y x)"
    and keep: "\<And>x y. P x \<Longrightarrow> scalar x \<Longrightarrow> py_eq y x \<Longrightarrow> P y"
  shows "\<exists>b. idx (rs ! j) f = Inr b \<and> py_eq b a \<and> scalar b \<and> P b"
  using assms(2,3)
proof (induction j rule: dec_induct)
  case base
  with assms(4-6) show ?case by (simp add: py_eq_refl_scalar)
next
  case (step j)
  then obtain b where b: "idx (rs ! j) f = Inr b" "py_eq b a" "scalar b" "P b" by auto
  from step.prems have "validate_transition (rs ! j) (rs ! Suc j) = Inr ()"
    by (rule history_step_transition [OF assms(1)])
  from assms(7) [OF this b(1) b(4)] obtain y where
    y: "idx (rs ! Suc j) f = Inr y" "py_eq b y \<or> py_eq y b" by blast
  with b(3) have sy: "scalar y" using py_eq_scalar_left py_eq_scalar_right by blast
  with y(2) b(3) have yb: "py_eq y b" using py_eq_scalar_sym by blast
  with y(1) sy b assms(5) keep show ?case by (blast intro: py_eq_trans_scalar)
qed

subsection \<open>Sample histories\<close>

definition sample_record ::
    "string \<Rightarrow> json \<Rightarrow> int \<Rightarrow> json list \<Rightarrow> string \<Rightarrow> string \<Rightarrow> json" where
  "sample_record state previous time tuple verdict failure = JObj (
     zip TRIGGER_FIELDS tuple @
     [(''transaction_state'', JStr state),
      (''previous_transaction_state'', previous),
      (''transition_decision_utc_ns'', JInt time),
      (''scientific_adjudication_result'', JStr verdict),
      (''failure_class'', JStr failure), (''failure_reason'', JStr failure),
      (''transaction_id'', JStr ''TX-1''), (''experiment_id'', JStr ''EXP-1''),
      (''run_id'', JStr ''R01''), (''transition_label'', JStr ''26TO39''),
      (''repository_head'', JStr ''abc''), (''protocol_identity'', JStr ''P''),
      (''initial_prb_required'', JInt 26), (''initial_prb_observed'', JInt 26),
      (''platform_qualification_identity'', JStr ''q''),
      (''runtime_incarnation_identity'', JStr ''i''),
      (''receiver_workload_identity'', JStr ''w''), (''actuator_identity'', JStr ''a''),
      (''applied_readback_identity'', JStr ''b''), (''closeout_checksum_identity'', JStr ''c''),
      (''precontrol_admission_result'', JStr ''PASS''),
      (''poststep_completion_result'', JStr ''PASS'')])"

definition sample_prefix :: "json list" where
  "sample_prefix = [
     sample_record ''NEW'' JNull 1 (trig_values Untriggered) ''PENDING'' ''NONE'',
     sample_record ''DEPLOYED'' (JStr ''NEW'') 2 (trig_values Untriggered) ''PENDING'' ''NONE'',
     sample_record ''PLATFORM_QUALIFIED'' (JStr ''DEPLOYED'') 3 (trig_values Untriggered)
       ''PENDING'' ''NONE'',
     sample_record ''INITIAL_STATE_VERIFIED'' (JStr ''PLATFORM_QUALIFIED'') 4
       (trig_values Untriggered) ''PENDING'' ''NONE'',
     sample_record ''ACTUATOR_ARMED'' (JStr ''INITIAL_STATE_VERIFIED'') 5
       (trig_values Untriggered) ''PENDING'' ''NONE'',
     sample_record ''WORKLOAD_READY'' (JStr ''ACTUATOR_ARMED'') 6 (trig_values Untriggered)
       ''PENDING'' ''NONE'',
     sample_record ''PRESTEP_ADMITTED'' (JStr ''WORKLOAD_READY'') 7 (trig_values Untriggered)
       ''PENDING'' ''NONE'',
     sample_record ''TRIGGERED_EXACTLY_ONCE'' (JStr ''PRESTEP_ADMITTED'') 8
       (trig_values Confirmed) ''PENDING'' ''NONE'']"

definition sample_valid :: "json list" where
  "sample_valid = sample_prefix @ [
     sample_record ''APPLIED_VERIFIED'' (JStr ''TRIGGERED_EXACTLY_ONCE'') 9
       (trig_values Confirmed) ''PENDING'' ''NONE'',
     sample_record ''POSTSTEP_COMPLETE'' (JStr ''APPLIED_VERIFIED'') 10
       (trig_values Confirmed) ''PENDING'' ''NONE'',
     sample_record ''SCIENTIFICALLY_ADJUDICATED'' (JStr ''POSTSTEP_COMPLETE'') 11
       (trig_values Confirmed) ''VALID'' ''NONE'']"

abbreviation accepts :: "json \<Rightarrow> json \<Rightarrow> bool" where
  "accepts p c \<equiv> semantic_gate (Some p) c = Inr ()"

lemma sample_first: "semantic_gate None (hd sample_prefix) = Inr ()"
  by code_simp

lemma sample_steps_a: "successively accepts (take 3 sample_prefix)"
  by code_simp

lemma sample_steps_b: "successively accepts (take 3 (drop 2 sample_prefix))"
  by code_simp

lemma sample_steps_c: "successively accepts (drop 4 sample_prefix)"
  by code_simp

lemma sample_steps_d: "successively accepts (drop 7 sample_valid)"
  by code_simp

text \<open>Overlapping pieces of an accepted chain make an accepted chain.\<close>

lemma successively_overlap:
  assumes "successively R (take (Suc n) xs)" and "successively R (drop n xs)" and "n < length xs"
  shows "successively R xs"
  unfolding successively_conv_nth
proof (intro allI impI)
  fix i
  assume i: "Suc i < length xs"
  show "R (xs ! i) (xs ! Suc i)"
  proof (cases "i < n")
    case True
    with assms(1) i show ?thesis by (auto simp: successively_conv_nth)
  next
    case False
    then obtain k where "i = n + k" by (metis le_iff_add not_less)
    with assms(2) i show ?thesis by (auto simp: successively_conv_nth dest!: spec [of _ k])
  qed
qed

lemma sample_prefix_steps: "successively accepts sample_prefix"
proof (rule successively_overlap [where n = 2])
  show "successively accepts (take (Suc 2) sample_prefix)" using sample_steps_a by simp
  show "successively accepts (drop 2 sample_prefix)"
    using sample_steps_b sample_steps_c
    by (intro successively_overlap [where n = 2 and xs = "drop 2 sample_prefix"])
      (simp_all add: sample_prefix_def)
qed (simp add: sample_prefix_def)

lemma sample_prefix_history: "history sample_prefix"
  using sample_first sample_prefix_steps by (cases sample_prefix) (simp_all add: sample_prefix_def)

lemma sample_valid_history: "history sample_valid"
proof -
  have "successively accepts sample_valid"
  proof (rule successively_overlap [where n = 7])
    show "successively accepts (take (Suc 7) sample_valid)"
      using sample_prefix_steps by (simp add: sample_valid_def sample_prefix_def)
    show "successively accepts (drop 7 sample_valid)" by (rule sample_steps_d)
  qed (simp add: sample_valid_def sample_prefix_def)
  then show ?thesis
    using sample_first by (simp add: sample_valid_def sample_prefix_def)
qed

subsection \<open>What an accepted history means\<close>

lemma history_nth:
  assumes "history rs"
  obtains ss where "length ss = length rs" "successively tx_move ss" "fst (hd ss) = New"
    "\<And>i. i < length rs \<Longrightarrow> rep (rs ! i) (ss ! i) \<and> tx_inv (ss ! i)"
proof -
  from history_abstract [OF assms] obtain ss where
    ss: "list_all2 rep rs ss" "successively tx_move ss" "hd ss = (New, Untriggered)"
    "\<forall>u \<in> set ss. tx_reach u" by blast
  from ss(1) have len: "length ss = length rs" by (simp add: list_all2_lengthD)
  have "rep (rs ! i) (ss ! i) \<and> tx_inv (ss ! i)" if "i < length rs" for i
    using that ss len by (simp add: list_all2_conv_all_nth tx_reach_inv)
  with len ss(2,3) show thesis by (intro that) auto
qed

text \<open>C1: a chain of transaction records accepted by the validator, the first alone and each
  later one against its predecessor, is a run of the abstract transaction machine: the recorded
  states and trigger tuples are those of a path of legal moves that starts in the untriggered
  phase \<open>New\<close>, and the chain has at most 14 records.\<close>

theorem accepted_history_is_run:
  assumes "history rs"
  shows "\<exists>ss. list_all2 rep rs ss \<and> successively tx_move ss \<and> hd ss = (New, Untriggered) \<and>
    length rs \<le> 14"
  using history_abstract [OF assms] path_length by (metis list_all2_lengthD)

theorem accepted_history_is_run_witness:
  "\<exists>ss. list_all2 rep sample_valid ss \<and> successively tx_move ss \<and> hd ss = (New, Untriggered) \<and>
    length sample_valid \<le> 14"
  by (rule accepted_history_is_run [OF sample_valid_history])

text \<open>C2: the scientific trigger is attempted at most once in an accepted history: the attempt
  counter of the records is 0 or 1 and never falls, and once it is 1 the whole trigger tuple
  (attempts, successes, consumption, replay decision) is frozen for the rest of the history.\<close>

theorem trigger_at_most_once:
  assumes "history rs" and "i \<le> j" and "j < length rs"
  shows "\<exists>a b. attempts (rs ! i) = Some a \<and> attempts (rs ! j) = Some b \<and> a \<le> b \<and>
    b \<in> {0, 1} \<and>
    (a = 1 \<longrightarrow> (\<exists>ts ts'. trigger_tuple (rs ! i) = Inr ts \<and> trigger_tuple (rs ! j) = Inr ts' \<and>
       list_all2 py_eq ts ts'))"
proof -
  obtain ss where ss: "length ss = length rs" "successively tx_move ss"
    "\<And>i. i < length rs \<Longrightarrow> rep (rs ! i) (ss ! i) \<and> tx_inv (ss ! i)"
    using history_nth [OF assms(1)] by blast
  obtain p t q u where st: "ss ! i = (p, t)" "ss ! j = (q, u)" by fastforce
  with ss(3) [of i] ss(3) [of j] assms(2,3) have r: "rep (rs ! i) (p, t)" "rep (rs ! j) (q, u)"
    by simp_all
  have "t \<noteq> Untriggered \<Longrightarrow> u = t"
    using path_trig [OF ss(2) assms(2)] assms(3) ss(1) st by simp
  with r rep_same_tuple show ?thesis
    by (cases "t = Untriggered") (auto simp: rep_attempts)
qed

theorem trigger_at_most_once_witness:
  "\<exists>ts ts'. trigger_tuple (sample_valid ! 7) = Inr ts \<and>
     trigger_tuple (sample_valid ! 10) = Inr ts' \<and> list_all2 py_eq ts ts'"
proof -
  have "attempts (sample_valid ! 7) = Some 1"
    by (simp add: sample_valid_def sample_prefix_def sample_record_def attempts_def idx_def
      obj_idx_def TRIGGER_FIELDS_def)
  moreover have "10 < length sample_valid" by (simp add: sample_valid_def sample_prefix_def)
  ultimately show ?thesis
    using trigger_at_most_once [OF sample_valid_history, of 7 10] by auto
qed

text \<open>C3: an accepted record with the verdict \<open>VALID\<close> in the adjudicated state can only be the
  eleventh record of its history, and the ten before it went through every phase in order, from
  \<open>NEW\<close> over the admitted control and the confirmed single trigger to the completed poststep;
  its trigger tuple is the confirmed one.\<close>

theorem valid_verdict_needs_full_run:
  assumes "history rs" and "j < length rs"
    and "idx (rs ! j) ''transaction_state'' = Inr (JStr ''SCIENTIFICALLY_ADJUDICATED'')"
    and "idx (rs ! j) ''scientific_adjudication_result'' = Inr (JStr ''VALID'')"
  shows "j = 10 \<and> tuple_is (rs ! j) Confirmed \<and>
    (\<forall>k < 10. idx (rs ! k) ''transaction_state'' = Inr (JStr (phase_name (nominal_path ! k))))"
proof -
  obtain ss where ss: "length ss = length rs" "successively tx_move ss" "fst (hd ss) = New"
    "\<And>i. i < length rs \<Longrightarrow> rep (rs ! i) (ss ! i) \<and> tx_inv (ss ! i)"
    using history_nth [OF assms(1)] by blast
  have fj: "fst (ss ! j) = Adjudicated"
    by (rule rep_unique_phase [of "rs ! j"]) (use ss(4) assms(2,3) in simp_all)
  have "j \<noteq> 0" using fj ss(3) assms(2) ss(1) by (cases ss; cases j) auto
  then obtain i where i: "j = Suc i" by (cases j) auto
  with assms(2) have tr: "validate_transition (rs ! i) (rs ! j) = Inr ()"
    using history_step_transition [OF assms(1)] by simp
  have mv: "tx_move (ss ! i) (ss ! j)" using i ss(1,2) assms(2) by (simp add: successively_conv_nth)
  from transition_facts [OF tr] have "validate_adjudication_transition (rs ! i) (rs ! j) = Inr ()"
    by blast
  with assms(3,4) have ni: "idx (rs ! i) ''transaction_state'' \<noteq> Inr (JStr (phase_name Invalid))"
    by (auto simp: validate_adjudication_transition_def field_in_def require_field_def)
  have ri: "rep (rs ! i) (ss ! i)" "tx_inv (ss ! i)" using ss(4) i assms(2) by auto
  with ni mv fj have post: "fst (ss ! i) = PostComplete"
    by (cases "ss ! i"; cases "ss ! j") (auto simp: move_iff rep_def)
  with nominal_prefix [OF ss(2,3), of i] i assms(2) ss(1)
  have nom: "i < 10" "\<forall>k \<le> i. fst (ss ! k) = nominal_path ! k"
    by (auto simp: nominal_path_def)
  with post have i9: "i = 9"
    by (auto simp: nominal_path_def nth_Cons' split: if_splits)
  have "snd (ss ! i) = Confirmed" using post ri by (cases "ss ! i") (auto simp: tx_inv_def)
  with path_trig [OF ss(2), of i j] i assms(2) ss(1) have "snd (ss ! j) = Confirmed" by simp
  moreover have "idx (rs ! k) ''transaction_state'' = Inr (JStr (phase_name (nominal_path ! k)))"
    if "k < 10" for k
    using ss(4) [of k] that nom(2) i9 i assms(2) by (auto simp: rep_def)
  ultimately show ?thesis using i i9 ss(4) [of j] assms(2) by (simp add: rep_def)
qed

theorem valid_verdict_needs_full_run_witness:
  "tuple_is (sample_valid ! 10) Confirmed \<and>
   idx (sample_valid ! 7) ''transaction_state'' = Inr (JStr ''TRIGGERED_EXACTLY_ONCE'')"
proof -
  have "10 = (10::nat) \<and> tuple_is (sample_valid ! 10) Confirmed \<and>
    (\<forall>k < 10. idx (sample_valid ! k) ''transaction_state'' =
       Inr (JStr (phase_name (nominal_path ! k))))"
    by (rule valid_verdict_needs_full_run [OF sample_valid_history])
      (simp_all add: sample_valid_def sample_prefix_def sample_record_def idx_def obj_idx_def
        TRIGGER_FIELDS_def)
  then show ?thesis by (auto simp: nominal_path_def dest: spec [of _ 7])
qed

text \<open>C4: decision times strictly increase along an accepted history, not only from one record
  to the next.\<close>

theorem decision_times_increase:
  assumes "history rs" and "i < j" and "j < length rs"
  shows "\<exists>u v. idx (rs ! i) ''transition_decision_utc_ns'' = Inr u \<and>
    idx (rs ! j) ''transition_decision_utc_ns'' = Inr v \<and> py_less u v = Inr True"
proof (rule history_pairs [OF assms(1-3)])
  fix p c
  assume "validate_transition p c = Inr ()"
  then show "\<exists>u v. idx p ''transition_decision_utc_ns'' = Inr u \<and>
    idx c ''transition_decision_utc_ns'' = Inr v \<and> py_less u v = Inr True" by (rule time_step)
qed (auto intro: py_less_trans)

theorem decision_times_increase_witness:
  "\<exists>u v. idx (sample_valid ! 2) ''transition_decision_utc_ns'' = Inr u \<and>
    idx (sample_valid ! 9) ''transition_decision_utc_ns'' = Inr v \<and> py_less u v = Inr True"
  by (rule decision_times_increase [OF sample_valid_history])
    (simp_all add: sample_valid_def sample_prefix_def)


text \<open>C5: the identities of a transaction are fixed by its first record: every immutable field
  keeps its value along an accepted history, and a write-once field keeps its value from the
  first record that sets it (for the scalar values the record schema allows).\<close>

theorem identities_never_change:
  assumes "history rs" and "i \<le> j" and "j < length rs"
    and "f \<in> set IMMUTABLE_FIELDS \<or> f \<in> set WRITE_ONCE_FIELDS \<and> a \<noteq> JNull"
    and "idx (rs ! i) f = Inr a" and "scalar a"
  shows "\<exists>b. idx (rs ! j) f = Inr b \<and> py_eq b a"
proof -
  have "\<exists>b. idx (rs ! j) f = Inr b \<and> py_eq b a \<and> scalar b \<and>
      (f \<in> set IMMUTABLE_FIELDS \<or> f \<in> set WRITE_ONCE_FIELDS \<and> b \<noteq> JNull)"
  proof (rule carried_field [OF assms(1-3,5,6), where P = "\<lambda>x. f \<in> set IMMUTABLE_FIELDS \<or>
      f \<in> set WRITE_ONCE_FIELDS \<and> x \<noteq> JNull"])
    fix p c x
    assume "validate_transition p c = Inr ()" "idx p f = Inr x"
      "f \<in> set IMMUTABLE_FIELDS \<or> f \<in> set WRITE_ONCE_FIELDS \<and> x \<noteq> JNull"
    then show "\<exists>y. idx c f = Inr y \<and> (py_eq x y \<or> py_eq y x)"
      using immutable_step [of p c f] write_once_step [of p c f] by auto
  qed (use assms(4) in auto)
  then show ?thesis by blast
qed

theorem identities_never_change_witness:
  "\<exists>b. idx (sample_valid ! 9) ''runtime_incarnation_identity'' = Inr b \<and> py_eq b (JStr ''i'')"
  by (rule identities_never_change [OF sample_valid_history, where i = 3])
    (simp_all add: sample_valid_def sample_prefix_def sample_record_def idx_def obj_idx_def
      TRIGGER_FIELDS_def WRITE_ONCE_FIELDS_def scalar_def is_list_def is_dict_def)

subsection \<open>The verdict after closing\<close>

definition sample_reversed :: "json list" where
  "sample_reversed = [
     sample_record ''INVALID_POSTTRIGGER'' (JStr ''TRIGGERED_EXACTLY_ONCE'') 9
       (trig_values Confirmed) ''PENDING'' ''TOOLING_FAILURE'',
     sample_record ''SCIENTIFICALLY_ADJUDICATED'' (JStr ''INVALID_POSTTRIGGER'') 10
       (trig_values Confirmed) ''INVALID'' ''TOOLING_FAILURE'',
     sample_record ''CLOSED'' (JStr ''SCIENTIFICALLY_ADJUDICATED'') 11
       (trig_values Confirmed) ''VALID'' ''TOOLING_FAILURE'']"

lemma sample_reversed_steps:
  "successively accepts (drop 7 sample_prefix @ sample_reversed)"
  by code_simp

text \<open>The validator does not protect the verdict of a closed run: a history whose run was
  spoiled after the trigger and adjudicated \<open>INVALID\<close> may be continued by a \<open>CLOSED\<close> record
  that says \<open>VALID\<close>; every gate accepts it.\<close>

theorem closed_record_may_reverse_verdict:
  "history (sample_prefix @ sample_reversed) \<and>
   idx (sample_reversed ! 1) ''transaction_state'' = Inr (JStr ''SCIENTIFICALLY_ADJUDICATED'') \<and>
   idx (sample_reversed ! 1) ''scientific_adjudication_result'' = Inr (JStr ''INVALID'') \<and>
   idx (sample_reversed ! 2) ''transaction_state'' = Inr (JStr ''CLOSED'') \<and>
   idx (sample_reversed ! 2) ''scientific_adjudication_result'' = Inr (JStr ''VALID'')"
proof -
  have "successively accepts (sample_prefix @ sample_reversed)"
  proof (rule successively_overlap [where n = 7])
    show "successively accepts (take (Suc 7) (sample_prefix @ sample_reversed))"
      using sample_prefix_steps by (simp add: sample_prefix_def)
    show "successively accepts (drop 7 (sample_prefix @ sample_reversed))"
      using sample_reversed_steps by (simp add: sample_prefix_def)
  qed (simp add: sample_prefix_def)
  then have "history (sample_prefix @ sample_reversed)"
    using sample_first by (simp add: sample_prefix_def)
  then show ?thesis
    by (simp add: sample_reversed_def sample_record_def idx_def obj_idx_def TRIGGER_FIELDS_def)
qed

subsection \<open>The command\<close>

definition printable :: "json \<Rightarrow> bool" where
  "printable r \<longleftrightarrow> (\<forall>k \<in> {''transaction_id'', ''transaction_state'',
      ''scientific_trigger_consumed'', ''replay_decision''}. \<exists>s. idx r k = Inr (JStr s)) \<and>
    (\<exists>v. idx r ''previous_transaction_state'' = Inr v)"

lemma concat_field_Inr: "concat_field r k = Inr () \<longleftrightarrow> (\<exists>s. idx r k = Inr (JStr s))"
  by (auto simp: concat_field_def is_str_iff split: if_splits)

lemma load_json_Inr: "load_json f label = Inr v \<longleftrightarrow> f = FileJson v"
  by (cases f) (simp_all add: load_json_def)

lemma record_schema_Inr:
  "validate_record_schema ie r label = Inr () \<longleftrightarrow> ie r = []"
proof -
  have "sort_key (\<lambda>e. e) (ie r) = [] \<longleftrightarrow> ie r = []"
    by (metis length_0_conv length_sort)
  then show ?thesis
    by (cases "sort_key (\<lambda>e. e) (ie r)")
      (auto simp: validate_record_schema_def schema_errors_def Let_def)
qed

text \<open>C6: the command fails closed: it exits 0 exactly when the schema is itself valid, the
  records load, satisfy the schema and the record invariants, pass the semantic gate and carry
  the fields it prints as strings; in every other case, whatever exception ended the run, the
  exit code is 65.\<close>

theorem transaction_command_fails_closed:
  "(fst (transaction_main check_schema iter_errors schema_file current_file previous_file) = 0
    \<longleftrightarrow> (\<exists>schema current. schema_file = FileJson schema \<and> check_schema schema = None \<and>
         current_file = FileJson current \<and> iter_errors schema current = [] \<and> printable current \<and>
         (case previous_file of None \<Rightarrow> semantic_gate None current = Inr ()
          | Some f \<Rightarrow> (\<exists>previous. f = FileJson previous \<and> iter_errors schema previous = [] \<and>
              validate_record_state_invariants previous = Inr () \<and>
              semantic_gate (Some previous) current = Inr ()))))
   \<and> fst (transaction_main check_schema iter_errors schema_file current_file previous_file) \<in> {0, 65}"
proof -
  have vs: "validate_schema check_schema s = Inr () \<longleftrightarrow> check_schema s = None" for s
    by (simp add: validate_schema_def split: option.splits)
  have rc: "fst (transaction_main check_schema iter_errors schema_file current_file previous_file) =
      (if transaction_check check_schema iter_errors schema_file current_file previous_file = Inr ()
       then 0 else 65)"
    by (auto simp: transaction_main_def EX_DATAERR_def split: sum.splits exn.splits)
  have "transaction_check check_schema iter_errors schema_file current_file previous_file = Inr ()
    \<longleftrightarrow> (\<exists>schema current. schema_file = FileJson schema \<and> check_schema schema = None \<and>
         current_file = FileJson current \<and> iter_errors schema current = [] \<and> printable current \<and>
         (case previous_file of None \<Rightarrow> semantic_gate None current = Inr ()
          | Some f \<Rightarrow> (\<exists>previous. f = FileJson previous \<and> iter_errors schema previous = [] \<and>
              validate_record_state_invariants previous = Inr () \<and>
              semantic_gate (Some previous) current = Inr ())))"
    by (cases previous_file)
      (auto simp: transaction_check_def load_json_Inr record_schema_Inr vs concat_field_Inr
        printable_def simp del: bindE_simps)
  with rc show ?thesis by simp
qed

end
