(* ===== verification/Py_Decimal.thy ===== *)
theory Py_Decimal
  imports Py_Json
begin

section \<open>Integers and decimals read from text\<close>

text \<open>
  What the scripts use of Python's \<open>int\<close>, \<open>float\<close> printing and \<open>decimal.Decimal\<close>: reading a
  number from text, its exact value, comparison, printing, and rounding to the precision of a
  context (\<open>ROUND_HALF_EVEN\<close>).  A decimal keeps its sign, coefficient and exponent, because
  \<open>str\<close> shows them; arithmetic goes through the value.
\<close>

named_theorems dec_simps \<open>reading, comparing and rounding decimals\<close>

subsection \<open>Powers of ten\<close>

definition pow10 :: "int \<Rightarrow> rat" where
  "pow10 k = (if 0 \<le> k then 10 ^ nat k else 1 / 10 ^ nat (- k))"

subsection \<open>\<open>int\<close>\<close>

text \<open>The digits of a numeral may be grouped by single underscores.\<close>

fun grouped_digits :: "string \<Rightarrow> string option" where
  "grouped_digits [] = None"
| "grouped_digits [c] = (if is_digit c then Some [c] else None)"
| "grouped_digits (c # d # s) = (if \<not> is_digit c then None
     else map_option (Cons c) (if d = CHR ''_'' then grouped_digits s else grouped_digits (d # s)))"

definition sign_of :: "string \<Rightarrow> bool \<times> string" where
  "sign_of s = (case s of [] \<Rightarrow> (False, [])
     | c # r \<Rightarrow> if c = CHR ''-'' then (True, r) else if c = CHR ''+'' then (False, r) else (False, s))"

text \<open>\<open>int(s)\<close> on a text: \<open>None\<close> is \<open>ValueError\<close>.\<close>

definition int_of_text :: "string \<Rightarrow> int option" where
  "int_of_text s = (case sign_of (strip s) of (neg, u) \<Rightarrow>
     map_option (\<lambda>ds. (if neg then - 1 else 1) * int (nat_of_digits ds)) (grouped_digits u))"

text \<open>\<open>int(v)\<close> on a JSON value; a float is truncated.\<close>

definition py_int :: "json \<Rightarrow> int result" where
  "py_int v = (case v of
       JInt i \<Rightarrow> Inr i
     | JBool b \<Rightarrow> Inr (of_bool b)
     | JFloat q \<Rightarrow> Inr (if q < 0 then - \<lfloor>- q\<rfloor> else \<lfloor>q\<rfloor>)
     | JStr s \<Rightarrow> (case int_of_text s of None \<Rightarrow> Inl (PyExn ''ValueError'') | Some i \<Rightarrow> Inr i)
     | JNaN \<Rightarrow> Inl (PyExn ''ValueError'')
     | JInf _ \<Rightarrow> Inl (PyExn ''OverflowError'')
     | _ \<Rightarrow> Inl (PyExn ''TypeError''))"

lemma py_int_JInt [simp, dec_simps]: "py_int (JInt i) = Inr i"
  by (simp add: py_int_def)

subsection \<open>\<open>Decimal\<close>\<close>

text \<open>\<open>Dec negative coefficient exponent\<close>, the infinities, the quiet and the signalling NaN.\<close>

datatype decimal = Dec bool nat int | DInf bool | DNaN | DSNaN

definition dec_value :: "decimal \<Rightarrow> rat option" where
  "dec_value d = (case d of
       Dec neg c e \<Rightarrow> Some ((if neg then - 1 else 1) * rat_of_nat c * pow10 e) | _ \<Rightarrow> None)"

definition take_digits :: "string \<Rightarrow> string \<times> string" where
  "take_digits s = (takeWhile is_digit s, dropWhile is_digit s)"

definition lower :: "char \<Rightarrow> char" where
  "lower c = (let n = (of_char c :: nat) in if 65 \<le> n \<and> n \<le> 90 then char_of (n + 32) else c)"

definition parse_exponent :: "string \<Rightarrow> int option" where
  "parse_exponent s = (case s of [] \<Rightarrow> Some 0
     | c # r \<Rightarrow> if lower c = CHR ''e'' then
         (case sign_of r of (neg, ds) \<Rightarrow>
            if ds \<noteq> [] \<and> list_all is_digit ds
            then Some ((if neg then - 1 else 1) * int (nat_of_digits ds)) else None)
       else None)"

text \<open>\<open>Decimal(s)\<close> on a text: \<open>None\<close> is \<open>InvalidOperation\<close>.\<close>

definition dec_of_text :: "string \<Rightarrow> decimal option" where
  "dec_of_text s = (case sign_of (filter (\<lambda>c. c \<noteq> CHR ''_'') (strip s)) of (neg, u) \<Rightarrow>
     (let w = map lower u in
      if w = ''inf'' \<or> w = ''infinity'' then Some (DInf neg)
      else if starts_with ''nan'' w \<and> list_all is_digit (drop 3 w) then Some DNaN
      else if starts_with ''snan'' w \<and> list_all is_digit (drop 4 w) then Some DSNaN
      else (case take_digits u of (ip, r) \<Rightarrow>
        (case (case r of c # r' \<Rightarrow> if c = CHR ''.'' then take_digits r' else ([], r) | [] \<Rightarrow> ([], [])) of
           (fp, r'') \<Rightarrow> if ip @ fp = [] then None
             else map_option (\<lambda>e. Dec neg (nat_of_digits (ip @ fp)) (e - int (length fp)))
                    (parse_exponent r'')))))"

text \<open>
  A JSON float is the decimal its \<open>repr\<close> shows: \<open>rat_digits\<close> finds the coefficient and
  exponent of a rational with a power of ten as denominator (no float needs more than 1,100
  places), \<open>float_decimal\<close> the exponent that \<open>repr\<close> prints.
\<close>

fun shift_out :: "nat \<Rightarrow> rat \<Rightarrow> int \<Rightarrow> rat \<times> int" where
  "shift_out 0 q e = (q, e)"
| "shift_out (Suc k) q e = (if snd (quotient_of q) = 1 then (q, e) else shift_out k (q * 10) (e - 1))"

fun strip_zeros :: "nat \<Rightarrow> nat \<Rightarrow> int \<Rightarrow> nat \<times> int" where
  "strip_zeros 0 c e = (c, e)"
| "strip_zeros (Suc k) c e =
     (if c \<noteq> 0 \<and> c mod 10 = 0 then strip_zeros k (c div 10) (e + 1) else (c, e))"

definition rat_digits :: "rat \<Rightarrow> bool \<times> nat \<times> int" where
  "rat_digits q = (case shift_out 1100 \<bar>q\<bar> 0 of (n, e) \<Rightarrow> (q < 0, nat \<lfloor>n\<rfloor>, e))"

definition float_decimal :: "rat \<Rightarrow> decimal" where
  "float_decimal q = (case rat_digits q of (neg, c, e) \<Rightarrow>
     if e < 0 then Dec neg c e
     else if c < 10 ^ 16 then Dec neg (c * 10) (- 1)
     else (case strip_zeros 400 c 0 of (c', e') \<Rightarrow> Dec neg c' e'))"

text \<open>\<open>Decimal(str(v))\<close>.\<close>

definition decimal_of :: "json \<Rightarrow> decimal option" where
  "decimal_of v = (case v of
       JInt i \<Rightarrow> Some (Dec (i < 0) (nat \<bar>i\<bar>) 0)
     | JFloat q \<Rightarrow> Some (float_decimal q)
     | JStr s \<Rightarrow> dec_of_text s
     | JNaN \<Rightarrow> Some DNaN
     | JInf neg \<Rightarrow> Some (DInf neg)
     | _ \<Rightarrow> None)"

text \<open>\<open>a == b\<close>: a quiet NaN equals nothing, a signalling one raises.\<close>

definition dec_eq :: "decimal \<Rightarrow> decimal \<Rightarrow> bool result" where
  "dec_eq a b = (if a = DSNaN \<or> b = DSNaN then Inl (PyExn ''InvalidOperation'')
     else case (a, b) of
       (DInf x, DInf y) \<Rightarrow> Inr (x = y)
     | _ \<Rightarrow> (case (dec_value a, dec_value b) of (Some x, Some y) \<Rightarrow> Inr (x = y) | _ \<Rightarrow> Inr False))"

lemma dec_eq_value:
  "dec_eq a b = Inr True \<Longrightarrow> dec_value b = Some v \<Longrightarrow> dec_value a = Some v"
  by (cases a; cases b) (auto simp: dec_eq_def dec_value_def split: if_splits)

text \<open>\<open>str(d)\<close>, with Python's choice between plain and scientific notation.\<close>

definition signed :: "int \<Rightarrow> string" where
  "signed i = (if i < 0 then show_int i else ''+'' @ show_int i)"

definition dec_text :: "decimal \<Rightarrow> string" where
  "dec_text d = (case d of
       DNaN \<Rightarrow> ''NaN'' | DSNaN \<Rightarrow> ''sNaN''
     | DInf neg \<Rightarrow> (if neg then ''-Infinity'' else ''Infinity'')
     | Dec neg c e \<Rightarrow>
        (let ds = show_nat c; left = e + int (length ds);
             dot = (if e \<le> 0 \<and> - 6 < left then left else 1);
             body = (if dot \<le> 0 then ''0.'' @ replicate (nat (- dot)) (CHR ''0'') @ ds
               else if int (length ds) \<le> dot
                    then ds @ replicate (nat dot - length ds) (CHR ''0'')
               else take (nat dot) ds @ ''.'' @ drop (nat dot) ds)
         in (if neg then ''-'' else []) @ body @
            (if left = dot then [] else ''E'' @ signed (left - dot))))"

text \<open>The quotient \<open>Decimal(n) / Decimal("1000000")\<close>, exact at every precision the scripts use
  for the integers they divide.\<close>

definition per_million :: "int \<Rightarrow> decimal" where
  "per_million n = (case strip_zeros 6 (nat \<bar>n\<bar>) (- 6) of (c, e) \<Rightarrow>
     Dec (n < 0) c (if c = 0 then 0 else e))"

lemma pow10_pos [simp, dec_simps]: "0 < pow10 k"
  by (simp add: pow10_def)

lemma pow10_Suc: "pow10 (k + 1) = 10 * pow10 k"
proof (cases "0 \<le> k")
  case True
  then have "nat (k + 1) = Suc (nat k)" by simp
  with True show ?thesis by (simp add: pow10_def)
next
  case False
  then obtain m where k: "k = - int (Suc m)" by (metis int_cases not_le of_nat_0_le_iff)
  have "nat (- k) = Suc m" "nat (- (k + 1)) = m" using k by simp_all
  with False k show ?thesis by (cases m) (simp_all add: pow10_def)
qed

lemma pow10_add: "pow10 (a + b) = pow10 a * pow10 b"
proof -
  have nat: "pow10 (a + int n) = pow10 a * pow10 (int n)" for a n
  proof (induction n)
    case 0
    show ?case by (simp add: pow10_def [of 0])
  next
    case (Suc n)
    have "pow10 (a + int (Suc n)) = pow10 ((a + int n) + 1)" by (simp add: algebra_simps)
    also have "\<dots> = pow10 a * (10 * pow10 (int n))" using Suc by (simp add: pow10_Suc)
    also have "10 * pow10 (int n) = pow10 (int n + 1)" by (simp add: pow10_Suc)
    finally show ?case by (simp add: algebra_simps)
  qed
  have "pow10 (a + - int n) = pow10 a * pow10 (- int n)" for n
  proof -
    have "pow10 (a + - int n) * pow10 (int n) = pow10 a"
      using nat [of "a + - int n" n] by simp
    moreover have "(pow10 a * pow10 (- int n)) * pow10 (int n) = pow10 a"
      using nat [of "- int n" n] by (simp add: pow10_def [of 0] mult.assoc)
    ultimately have "pow10 (a + - int n) * pow10 (int n) = (pow10 a * pow10 (- int n)) * pow10 (int n)"
      by simp
    then show ?thesis using pow10_pos [of "int n"] by (simp only: mult_cancel_right) simp
  qed
  with nat show ?thesis by (cases b rule: int_cases2) simp_all
qed

subsection \<open>A float is the decimal it prints\<close>

lemma shift_out_value: "shift_out k q e = (q', e') \<Longrightarrow> q' * pow10 e' = q * pow10 e"
proof (induction k arbitrary: q e)
  case (Suc k)
  have "pow10 e = 10 * pow10 (e - 1)" using pow10_Suc [of "e - 1"] by simp
  with Suc show ?case by (auto split: if_splits)
qed simp

lemma quotient_of_Ints: "snd (quotient_of q) = 1 \<longleftrightarrow> q \<in> \<int>"
proof
  assume "snd (quotient_of q) = 1"
  then have "quotient_of q = (fst (quotient_of q), 1)" by (metis prod.collapse)
  from quotient_of_div [OF this] have "q = of_int (fst (quotient_of q))" by simp
  then show "q \<in> \<int>" by (metis Ints_of_int)
next
  assume "q \<in> \<int>"
  then obtain n where "q = of_int n" by (rule Ints_cases)
  then show "snd (quotient_of q) = 1" by (simp add: quotient_of_int)
qed

lemma shift_out_Ints:
  "j \<le> k \<Longrightarrow> q * 10 ^ j \<in> \<int> \<Longrightarrow> fst (shift_out k q e) \<in> \<int> \<and> snd (shift_out k q e) \<le> e"
proof (induction k arbitrary: q e j)
  case 0
  then show ?case by simp
next
  case (Suc k)
  show ?case
  proof (cases "q \<in> \<int>")
    case True
    then show ?thesis by (simp add: quotient_of_Ints)
  next
    case False
    with Suc.prems obtain i where i: "j = Suc i" by (cases j) auto
    with Suc.IH [of i "q * 10" "e - 1"] Suc.prems False show ?thesis
      by (simp add: quotient_of_Ints mult.assoc)
  qed
qed

lemma strip_zeros_value:
  "strip_zeros k c e = (c', e') \<Longrightarrow> rat_of_nat c' * pow10 e' = rat_of_nat c * pow10 e"
proof (induction k arbitrary: c e)
  case (Suc k)
  show ?case
  proof (cases "c \<noteq> 0 \<and> c mod 10 = 0")
    case True
    then have "rat_of_nat c = 10 * rat_of_nat (c div 10)"
      by (metis mod_0_imp_dvd dvd_mult_div_cancel of_nat_mult of_nat_numeral)
    with Suc True show ?thesis by (simp add: pow10_Suc)
  next
    case False
    with Suc.prems show ?thesis by auto
  qed
qed simp

lemma float_decimal_value:
  assumes "q * 10 ^ j \<in> \<int>" and "j \<le> 1100"
  shows "dec_value (float_decimal q) = Some q"
proof -
  obtain n e where ne: "shift_out 1100 \<bar>q\<bar> 0 = (n, e)" by (cases "shift_out 1100 \<bar>q\<bar> 0")
  have "\<bar>q\<bar> * 10 ^ j \<in> \<int>" using assms(1) by (auto simp: abs_if)
  from shift_out_Ints [OF assms(2) this, of 0] ne have n: "n \<in> \<int>" "e \<le> 0" by simp_all
  from shift_out_value [OF ne] have v: "n * pow10 e = \<bar>q\<bar>" by (simp add: pow10_def [of 0])
  have "0 \<le> n"
  proof (rule ccontr)
    assume "\<not> 0 \<le> n"
    then have "n * pow10 e < 0" by (simp add: mult_neg_pos)
    with v show False by simp
  qed
  define c where "c = nat \<lfloor>n\<rfloor>"
  from n(1) \<open>0 \<le> n\<close> have c: "rat_of_nat c = n" by (auto simp: c_def elim: Ints_cases)
  have val: "rat_of_nat c * pow10 e = \<bar>q\<bar>" using v c by simp
  have rd: "rat_digits q = (q < 0, c, e)" by (simp add: rat_digits_def ne c_def)
  have sgn: "(if q < 0 then - 1 else 1) * \<bar>q\<bar> = q" by simp
  consider "e < 0" | "e = 0" "c < 10 ^ 16" | "e = 0" "\<not> c < 10 ^ 16" using n(2) by linarith
  then show ?thesis
  proof cases
    case 1
    then show ?thesis using val sgn by (simp add: float_decimal_def rd dec_value_def mult.assoc)
  next
    case 2
    then have "float_decimal q = Dec (q < 0) (c * 10) (- 1)" by (simp add: float_decimal_def rd)
    moreover have "rat_of_nat (c * 10) * pow10 (- 1) = \<bar>q\<bar>" using val 2 by (simp add: pow10_def)
    ultimately show ?thesis using sgn by (simp add: dec_value_def)
  next
    case 3
    obtain c' e' where s: "strip_zeros 400 c 0 = (c', e')" by (cases "strip_zeros 400 c 0")
    with 3 have "float_decimal q = Dec (q < 0) c' e'" by (simp add: float_decimal_def rd)
    moreover have "rat_of_nat c' * pow10 e' = \<bar>q\<bar>" using strip_zeros_value [OF s] val 3 by simp
    ultimately show ?thesis using sgn by (simp add: dec_value_def mult.assoc)
  qed
qed

end
