(* ===== verification/Trigger_Executor.thy ===== *)
theory Trigger_Executor
  imports Py_Decimal
begin

section \<open>The precontrol-to-trigger executor\<close>

text \<open>
  \<^verbatim>\<open>scripts/experiment-harness/prompt12-precontrol-trigger-executor.py\<close>: check that the
  precontrol document admits the step and is still fresh, then write the trigger token into the
  actuator's FIFO, once, and report what happened.  The arguments are a record; everything the
  process reads from the machine (the precontrol file, the kind of the FIFO node, the three
  clock readings, what \<open>os.open\<close>, \<open>os.write\<close> and \<open>os.close\<close> do, whether the report can be
  written) is the record \<open>exec_env\<close>.  A run ends with an exit code or an escaping exception,
  the report it wrote if any, and the payloads it passed to \<open>os.write\<close>.
\<close>

named_theorems exec_simps \<open>the executor's phases\<close>

subsection \<open>Arguments, environment and outcome\<close>

datatype exec_mode = NoControl | Fifo

record exec_args =
  mode :: exec_mode
  max_age_ms :: string
  executor_start_utc_ns :: "string option"
  fifo_path :: "string option"
  trigger_token :: string
  control_authorization_token :: "string option"

datatype fifo_node = NodeUnavailable | NodeOther | NodeFifo

datatype out_state = OutFree | OutExists | OutRaises string

record exec_env =
  precontrol_file :: loaded
  fifo_node :: fifo_node
  clock_start :: int
  clock_trigger :: int
  clock_end :: int
  open_error :: "string option"
  write_result_of :: "string + nat"
  close_error :: "string option"
  out_state :: out_state

record exec_run =
  exit_code :: "int result"
  written_report :: "obj option"
  os_writes :: "string list"

definition CONTROL_AUTHORIZATION_TOKEN :: string where
  "CONTROL_AUTHORIZATION_TOKEN = ''PROMPT12_T2_EXPLICIT_FIFO_CONTROL''"

subsection \<open>Reports\<close>

text \<open>How a check stops the run: \<open>Refuse\<close> is a call of \<open>fail_closed\<close>, \<open>Escape\<close> an exception
  that no handler catches.\<close>

datatype stop = Refuse obj string int | Escape string

text \<open>The run ends by writing the report and returning \<open>rc\<close>; an existing output raises.\<close>

definition write_result :: "exec_env \<Rightarrow> obj \<Rightarrow> int \<Rightarrow> string list \<Rightarrow> exec_run" where
  "write_result env result rc ws = (case out_state env of
       OutFree \<Rightarrow> \<lparr>exit_code = Inr rc, written_report = Some result, os_writes = ws\<rparr>
     | OutExists \<Rightarrow> \<lparr>exit_code = Inl (PyExn ''RuntimeError''), written_report = None, os_writes = ws\<rparr>
     | OutRaises t \<Rightarrow> \<lparr>exit_code = Inl (PyExn t), written_report = None, os_writes = ws\<rparr>)"

definition fail_closed :: "exec_env \<Rightarrow> obj \<Rightarrow> string \<Rightarrow> int \<Rightarrow> exec_run" where
  "fail_closed env result reason rc = write_result env (obj_update result [
       (''EXECUTOR_GATE'', JStr ''FAIL_CLOSED''),
       (''FAIL_CLOSED_REASON'', JStr reason),
       (''CONTROL_EXECUTED'', JStr ''NO''),
       (''TRIGGER_WRITE_ATTEMPT_COUNT'', JInt 0),
       (''TRIGGER_WRITE_SUCCESS_COUNT'', JInt 0),
       (''SCIENTIFIC_TRIGGER_CONSUMED'', JStr ''NO''),
       (''SCIENTIFIC_TRIGGER_REPLAY_DECISION'', JStr ''NOT_APPLICABLE_NO_WRITE_ATTEMPT'')]) rc []"

definition opt_str :: "string option \<Rightarrow> json" where
  "opt_str s = (case s of None \<Rightarrow> JStr ''NONE'' | Some t \<Rightarrow> JStr t)"

definition mode_name :: "exec_mode \<Rightarrow> string" where
  "mode_name m = (case m of NoControl \<Rightarrow> ''no-control'' | Fifo \<Rightarrow> ''fifo'')"

definition initial_result :: "exec_args \<Rightarrow> obj" where
  "initial_result args = [
     (''SCHEMA'', JStr ''sci_oran_prompt12_atomic_executor_v1''),
     (''MODE'', JStr (mode_name (mode args))),
     (''MAX_AGE_MS_ARGUMENT'', JStr (max_age_ms args)),
     (''EXECUTOR_START_UTC_NS_ARGUMENT'', opt_str (executor_start_utc_ns args)),
     (''FINAL_RUNTIME_PROBE_AFTER_AGE_GATE'', JStr ''NO''),
     (''DOCKER_EXECUTION_BY_EXECUTOR'', JStr ''NO''),
     (''GNB_LOG_SCAN_BY_EXECUTOR'', JStr ''NO'')]"

subsection \<open>Checks before the clock is read\<close>

definition read_source :: "exec_env \<Rightarrow> obj \<Rightarrow> stop + obj" where
  "read_source env result = (case precontrol_file env of
       FileMissing \<Rightarrow> Inl (Refuse result ''PRECONTROL_JSON_MISSING'' 20)
     | FileRaises _ \<Rightarrow> Inl (Refuse result ''PRECONTROL_JSON_INVALID'' 21)
     | FileJson v \<Rightarrow> (case v of JObj source \<Rightarrow> Inr source
         | _ \<Rightarrow> Inl (Escape ''AttributeError'')))"

definition required_source_pass :: "obj \<Rightarrow> bool" where
  "required_source_pass source \<longleftrightarrow>
     py_eq (obj_get source ''selection'') (JStr ''latest_50_complete_contiguous_samples'') \<and>
     py_eq (obj_get source ''selected_complete_count'') (JInt 50) \<and>
     py_eq (obj_get source ''stationarity_window_binding_gate'') (JStr ''PASS'') \<and>
     py_eq (obj_get source ''output_stationarity_gate'') (JStr ''PASS'') \<and>
     py_eq (obj_get source ''freshness_gate'') (JStr ''PASS'') \<and>
     py_eq (obj_get source ''precontrol_admission_gate'') (JStr ''PASS'')"

definition check_source :: "obj \<Rightarrow> obj \<Rightarrow> stop + obj" where
  "check_source source result =
     (let result = obj_update result [
        (''SOURCE_SELECTION'', obj_get source ''selection''),
        (''SOURCE_SELECTED_COMPLETE_COUNT'', obj_get source ''selected_complete_count''),
        (''SOURCE_WINDOW_BINDING_GATE'', obj_get source ''stationarity_window_binding_gate''),
        (''SOURCE_OUTPUT_STATIONARITY_GATE'', obj_get source ''output_stationarity_gate''),
        (''SOURCE_FRESHNESS_GATE'', obj_get source ''freshness_gate''),
        (''SOURCE_PRECONTROL_ADMISSION_GATE'', obj_get source ''precontrol_admission_gate'')]
      in if required_source_pass source then Inr result
         else Inl (Refuse result ''SOURCE_PRECONTROL_GATE_NOT_PASS'' 22))"

text \<open>The four numbers of the timing policy; whatever goes wrong, the refusal is the same.\<close>

definition timing_fields :: "obj \<Rightarrow> string \<Rightarrow> (int \<times> int \<times> decimal \<times> decimal) option" where
  "timing_fields source requested =
     (case bindE (obj_idx source ''latest_sample_timestamp_utc_ns'') py_int of Inl _ \<Rightarrow> None
      | Inr latest \<Rightarrow> (case bindE (obj_idx source ''decision_utc_ns'') py_int of Inl _ \<Rightarrow> None
      | Inr decision \<Rightarrow> (case map_of source ''maximum_allowed_age_ms'' of None \<Rightarrow> None
      | Some v \<Rightarrow> (case decimal_of v of None \<Rightarrow> None
      | Some source_max \<Rightarrow> (case dec_of_text requested of None \<Rightarrow> None
      | Some requested_max \<Rightarrow> Some (latest, decision, source_max, requested_max))))))"

definition must_equal :: "decimal \<Rightarrow> decimal \<Rightarrow> stop \<Rightarrow> stop + unit" where
  "must_equal a b refusal = (case dec_eq a b of
       Inl (PyExn t) \<Rightarrow> Inl (Escape t) | Inl _ \<Rightarrow> Inl (Escape ''Exception'')
     | Inr True \<Rightarrow> Inr () | Inr False \<Rightarrow> Inl refusal)"

definition check_policy :: "obj \<Rightarrow> decimal \<Rightarrow> decimal \<Rightarrow> stop + unit" where
  "check_policy result source_max requested_max = bindE
     (must_equal source_max requested_max (Refuse result ''MAX_AGE_POLICY_MISMATCH'' 24))
     (\<lambda>_. must_equal requested_max (Dec False 800 0)
            (Refuse result ''NON_FROZEN_MAX_AGE_NOT_ALLOWED'' 25))"

definition check_start_override :: "exec_args \<Rightarrow> obj \<Rightarrow> stop + int option" where
  "check_start_override args result = (case executor_start_utc_ns args of
       None \<Rightarrow> Inr None
     | Some s \<Rightarrow>
        if mode args \<noteq> NoControl
        then Inl (Refuse result ''EXECUTOR_START_OVERRIDE_FORBIDDEN_IN_FIFO_MODE'' 33)
        else (case int_of_text s of
            None \<Rightarrow> Inl (Refuse result ''EXECUTOR_START_UTC_NS_ARGUMENT_INVALID'' 34)
          | Some n \<Rightarrow> if n \<le> 0
              then Inl (Refuse result ''EXECUTOR_START_UTC_NS_ARGUMENT_INVALID'' 34)
              else Inr (Some n)))"

definition check_control :: "exec_args \<Rightarrow> exec_env \<Rightarrow> obj \<Rightarrow> stop + unit" where
  "check_control args env result =
     (if mode args = NoControl then
        (if fifo_path args \<noteq> None \<or> control_authorization_token args \<noteq> None
         then Inl (Refuse result ''NO_CONTROL_MODE_REJECTS_CONTROL_ARGUMENTS'' 26) else Inr ())
      else if control_authorization_token args \<noteq> Some CONTROL_AUTHORIZATION_TOKEN
      then Inl (Refuse result ''CONTROL_AUTHORIZATION_TOKEN_INVALID'' 27)
      else if fifo_path args = None \<or> fifo_path args = Some []
      then Inl (Refuse result ''FIFO_PATH_REQUIRED'' 28)
      else if fifo_node env = NodeUnavailable
      then Inl (Refuse result ''FIFO_PATH_UNAVAILABLE'' 29)
      else if fifo_node env = NodeOther
      then Inl (Refuse result ''CONTROL_PATH_IS_NOT_FIFO'' 30)
      else if CHR 0x0A \<in> set (trigger_token args)
      then Inl (Refuse result ''TRIGGER_TOKEN_CONTAINS_NEWLINE'' 31) else Inr ())"

text \<open>Everything up to the bounded control path: what the path needs, or why the run stops.\<close>

definition admit_request :: "exec_args \<Rightarrow> exec_env \<Rightarrow>
    stop + (obj \<times> int \<times> int \<times> decimal \<times> int option)" where
  "admit_request args env =
     bindE (read_source env (initial_result args)) (\<lambda>source.
     bindE (check_source source (initial_result args)) (\<lambda>result.
     case timing_fields source (max_age_ms args) of
       None \<Rightarrow> Inl (Refuse result ''SOURCE_TIMING_FIELDS_INVALID'' 23)
     | Some (latest, decision, source_max, requested_max) \<Rightarrow>
         bindE (check_policy result source_max requested_max) (\<lambda>_.
         bindE (check_start_override args result) (\<lambda>injected.
         bindE (check_control args env result) (\<lambda>_.
           Inr (obj_update result [
                  (''SOURCE_LATEST_SAMPLE_UTC_NS'', JInt latest),
                  (''SOURCE_DECISION_UTC_NS'', JInt decision),
                  (''SOURCE_MAXIMUM_ALLOWED_AGE_MS'', JStr (dec_text source_max))],
                latest, decision, requested_max, injected))))))"

subsection \<open>The age gate\<close>

definition max_age_ns :: "decimal \<Rightarrow> int" where
  "max_age_ns requested = (case dec_value requested of Some v \<Rightarrow> \<lfloor>v * 1000000\<rfloor> | None \<Rightarrow> 0)"

definition age_gate :: "exec_env \<Rightarrow> obj \<times> int \<times> int \<times> decimal \<times> int option \<Rightarrow> stop + obj" where
  "age_gate env adm = (case adm of (result, latest, decision, requested, injected) \<Rightarrow>
     (let start = (case injected of None \<Rightarrow> clock_start env | Some n \<Rightarrow> n);
          age = start - latest;
          result = obj_update result [
            (''EXECUTOR_START_UTC_NS'', JInt start),
            (''EXECUTOR_START_TIME_SOURCE'', JStr (if injected = None then ''SYSTEM_CLOCK''
               else ''EXPLICIT_NO_CONTROL_ARGUMENT'')),
            (''EXECUTOR_START_SAMPLE_AGE_MS'', JStr (dec_text (per_million age))),
            (''EXECUTOR_START_MAX_ALLOWED_AGE_MS'', JStr (dec_text requested))]
      in if start < decision
         then Inl (Refuse (obj_set ''EXECUTOR_START_AFTER_SOURCE_DECISION_GATE'' (JStr ''FAIL'') result)
                ''EXECUTOR_START_PRECEDES_SOURCE_DECISION'' 35)
         else (let result = obj_set ''EXECUTOR_START_AFTER_SOURCE_DECISION_GATE'' (JStr ''PASS'') result
               in if age < 0 \<or> max_age_ns requested < age
                  then Inl (Refuse (obj_set ''EXECUTOR_START_SAMPLE_AGE_GATE'' (JStr ''FAIL'') result)
                         ''EXECUTOR_START_SAMPLE_AGE_OUT_OF_BOUNDS'' 32)
                  else Inr (obj_set ''EXECUTOR_START_SAMPLE_AGE_GATE'' (JStr ''PASS'') result))))"

subsection \<open>The control path\<close>

text \<open>The length of a text in UTF-8.\<close>

definition utf8_len :: "string \<Rightarrow> nat" where
  "utf8_len s = sum_list (map (\<lambda>c. if (of_char c :: nat) < 128 then 1 else 2) s)"

definition fifo_failed :: "exec_env \<Rightarrow> obj \<Rightarrow> string \<Rightarrow> string list \<Rightarrow> exec_run" where
  "fifo_failed env result exc ws =
     (let attempted = (ws \<noteq> []) in
      write_result env (obj_update result [
        (''EXECUTOR_GATE'', JStr ''FAIL_AFTER_AGE_GATE''),
        (''FAIL_CLOSED_REASON'', JStr (''FIFO_EXECUTION_FAILED:'' @ exc)),
        (''CONTROL_EXECUTED'', JStr (if attempted then ''UNKNOWN_AFTER_WRITE_ATTEMPT'' else ''NO'')),
        (''TRIGGER_WRITE_ATTEMPT_COUNT'', JInt (if attempted then 1 else 0)),
        (''TRIGGER_WRITE_SUCCESS_COUNT'', JInt 0),
        (''SCIENTIFIC_TRIGGER_CONSUMED'', JStr (if attempted then ''UNKNOWN'' else ''NO'')),
        (''SCIENTIFIC_TRIGGER_REPLAY_DECISION'', JStr (if attempted then ''NEVER_AUTOMATICALLY_REPLAY''
           else ''NOT_APPLICABLE_NO_WRITE_ATTEMPT''))]) 40 ws)"

text \<open>The \<open>finally\<close> block: closing the descriptor may raise and then replaces the outcome.\<close>

definition close_after :: "exec_env \<Rightarrow> exec_run \<Rightarrow> exec_run" where
  "close_after env run = (case close_error env of None \<Rightarrow> run
     | Some t \<Rightarrow> run \<lparr>exit_code := Inl (PyExn t)\<rparr>)"

definition fire :: "exec_args \<Rightarrow> exec_env \<Rightarrow> obj \<Rightarrow> exec_run" where
  "fire args env result =
     (let result = obj_set ''TRIGGER_EXECUTOR_START_UTC_NS'' (JInt (clock_trigger env)) result;
          payload = trigger_token args @ [CHR 0x0A]
      in case open_error env of
           Some t \<Rightarrow> fifo_failed env result t []
         | None \<Rightarrow> (case write_result_of env of
             Inl t \<Rightarrow> close_after env (fifo_failed env result t [payload])
           | Inr n \<Rightarrow>
               if n \<noteq> utf8_len payload
               then close_after env (fifo_failed env result ''RuntimeError'' [payload])
               else (case close_error env of
                 Some t \<Rightarrow> \<lparr>exit_code = Inl (PyExn t), written_report = None, os_writes = [payload]\<rparr>
               | None \<Rightarrow> write_result env (obj_update result [
                   (''TRIGGER_EXECUTOR_END_UTC_NS'', JInt (clock_end env)),
                   (''EXECUTOR_GATE'', JStr ''PASS''),
                   (''CONTROL_EXECUTED'', JStr ''YES''),
                   (''TRIGGER_WRITE_ATTEMPT_COUNT'', JInt 1),
                   (''TRIGGER_WRITE_SUCCESS_COUNT'', JInt 1),
                   (''SCIENTIFIC_TRIGGER_CONSUMED'', JStr ''YES''),
                   (''SCIENTIFIC_TRIGGER_REPLAY_DECISION'', JStr ''NEVER_REPEAT'')]) 0 [payload])))"

definition no_control_pass :: "exec_env \<Rightarrow> obj \<Rightarrow> exec_run" where
  "no_control_pass env result = write_result env (obj_update result [
     (''EXECUTOR_GATE'', JStr ''PASS''),
     (''CONTROL_EXECUTED'', JStr ''NO''),
     (''TRIGGER_WRITE_ATTEMPT_COUNT'', JInt 0),
     (''TRIGGER_WRITE_SUCCESS_COUNT'', JInt 0),
     (''SCIENTIFIC_TRIGGER_CONSUMED'', JStr ''NO''),
     (''NO_CONTROL_DRY_RUN_GATE'', JStr ''PASS'')]) 0 []"

definition executor_main :: "exec_args \<Rightarrow> exec_env \<Rightarrow> exec_run" where
  "executor_main args env = (case bindE (admit_request args env) (age_gate env) of
       Inl (Refuse result reason rc) \<Rightarrow> fail_closed env result reason rc
     | Inl (Escape t) \<Rightarrow> \<lparr>exit_code = Inl (PyExn t), written_report = None, os_writes = []\<rparr>
     | Inr result \<Rightarrow> if mode args = NoControl then no_control_pass env result
         else fire args env result)"

subsection \<open>What the phases give\<close>

lemma must_equal_Inr [exec_simps]:
  "must_equal a b r = Inr u \<longleftrightarrow> dec_eq a b = Inr True"
  by (auto simp: must_equal_def split: sum.splits exn.splits bool.splits)

lemma read_source_Inr [exec_simps]:
  "read_source env r = Inr source \<longleftrightarrow> precontrol_file env = FileJson (JObj source)"
  by (auto simp: read_source_def split: loaded.splits json.splits)

lemma check_source_Inr [exec_simps]:
  "check_source source r = Inr r' \<Longrightarrow> required_source_pass source"
  by (auto simp: check_source_def Let_def split: if_splits)

lemma check_policy_Inr [exec_simps]:
  "check_policy r a b = Inr u \<longleftrightarrow> dec_eq a b = Inr True \<and> dec_eq b (Dec False 800 0) = Inr True"
  by (auto simp: check_policy_def must_equal_Inr)

lemma check_control_Fifo:
  "check_control args env r = Inr u \<Longrightarrow> mode args = Fifo \<Longrightarrow>
   control_authorization_token args = Some CONTROL_AUTHORIZATION_TOKEN \<and>
   (\<exists>c p. fifo_path args = Some (c # p)) \<and> fifo_node env = NodeFifo \<and>
   CHR 0x0A \<notin> set (trigger_token args)"
  by (cases "fifo_path args"; cases "fifo_node env")
    (auto simp: check_control_def neq_Nil_conv split: if_splits)

lemma check_start_override_Fifo:
  "check_start_override args r = Inr i \<Longrightarrow> mode args = Fifo \<Longrightarrow>
   i = None \<and> executor_start_utc_ns args = None"
  by (auto simp: check_start_override_def split: option.splits)

lemma dec_value_800: "dec_value (Dec False 800 0) = Some 800"
  by (simp add: dec_value_def pow10_def)

text \<open>What an admitted request in FIFO mode rests on.\<close>

lemma admit_request_Fifo:
  assumes "admit_request args env = Inr (r, latest, decision, req, start0)" and "mode args = Fifo"
  shows "\<exists>source source_max. precontrol_file env = FileJson (JObj source) \<and>
    required_source_pass source \<and>
    timing_fields source (max_age_ms args) = Some (latest, decision, source_max, req) \<and>
    dec_value source_max = Some 800 \<and> dec_value req = Some 800 \<and> start0 = None \<and>
    control_authorization_token args = Some CONTROL_AUTHORIZATION_TOKEN \<and>
    fifo_node env = NodeFifo \<and> CHR 0x0A \<notin> set (trigger_token args)"
proof -
  from assms(1) obtain source result where
    src: "read_source env (initial_result args) = Inr source"
      "check_source source (initial_result args) = Inr result" and
    rest: "(case timing_fields source (max_age_ms args) of
       None \<Rightarrow> Inl (Refuse result ''SOURCE_TIMING_FIELDS_INVALID'' 23)
     | Some (latest, decision, source_max, requested_max) \<Rightarrow>
         bindE (check_policy result source_max requested_max) (\<lambda>_.
         bindE (check_start_override args result) (\<lambda>injected.
         bindE (check_control args env result) (\<lambda>_.
           Inr (obj_update result [
                  (''SOURCE_LATEST_SAMPLE_UTC_NS'', JInt latest),
                  (''SOURCE_DECISION_UTC_NS'', JInt decision),
                  (''SOURCE_MAXIMUM_ALLOWED_AGE_MS'', JStr (dec_text source_max))],
                latest, decision, requested_max, injected))))) =
       Inr (r, latest, decision, req, start0)"
    unfolding admit_request_def bindE_Inr_iff by blast
  from rest obtain source_max where
    tf: "timing_fields source (max_age_ms args) = Some (latest, decision, source_max, req)"
    and pol: "check_policy result source_max req = Inr ()"
    and ov: "check_start_override args result = Inr start0"
    and ctl: "check_control args env result = Inr ()"
    by (cases "timing_fields source (max_age_ms args)") auto
  from pol have eq: "dec_eq source_max req = Inr True" "dec_eq req (Dec False 800 0) = Inr True"
    by (simp_all add: check_policy_Inr)
  have req: "dec_value req = Some 800" by (rule dec_eq_value [OF eq(2) dec_value_800])
  from dec_eq_value [OF eq(1) this] check_source_Inr [OF src(2)] src(1) [unfolded read_source_Inr] tf req
    check_start_override_Fifo [OF ov assms(2)] check_control_Fifo [OF ctl assms(2)]
  show ?thesis by blast
qed

lemma age_gate_Inr:
  assumes "age_gate env (r, latest, decision, req, start0) = Inr r'" and "dec_value req = Some 800"
  shows "let start = (case start0 of None \<Rightarrow> clock_start env | Some n \<Rightarrow> n)
    in decision \<le> start \<and> 0 \<le> start - latest \<and> start - latest \<le> 800000000"
  using assms by (auto simp: age_gate_def Let_def max_age_ns_def split: if_splits)

text \<open>The fields of a report that say what happened to the trigger.\<close>

definition trigger_report :: "obj \<Rightarrow> json list" where
  "trigger_report r = map (obj_get r) [''SCIENTIFIC_TRIGGER_CONSUMED'', ''CONTROL_EXECUTED'',
     ''TRIGGER_WRITE_ATTEMPT_COUNT'', ''TRIGGER_WRITE_SUCCESS_COUNT'', ''EXECUTOR_GATE'']"

lemma write_result_simps [simp, exec_simps]:
  "os_writes (write_result env r rc ws) = ws"
  "written_report (write_result env r rc ws) = (if out_state env = OutFree then Some r else None)"
  "exit_code (write_result env r rc ws) = (case out_state env of OutFree \<Rightarrow> Inr rc
     | OutExists \<Rightarrow> Inl (PyExn ''RuntimeError'') | OutRaises t \<Rightarrow> Inl (PyExn t))"
  by (simp_all add: write_result_def split: out_state.splits)

lemma close_after_simps [simp, exec_simps]:
  "os_writes (close_after env run) = os_writes run"
  "written_report (close_after env run) = written_report run"
  "exit_code (close_after env run) =
     (case close_error env of None \<Rightarrow> exit_code run | Some t \<Rightarrow> Inl (PyExn t))"
  by (simp_all add: close_after_def split: option.splits)

definition write_confirmed :: "exec_args \<Rightarrow> exec_env \<Rightarrow> bool" where
  "write_confirmed args env \<longleftrightarrow> open_error env = None \<and>
     write_result_of env = Inr (utf8_len (trigger_token args @ [CHR 0x0A]))"

lemma fire_writes:
  "os_writes (fire args env r) =
     (if open_error env = None then [trigger_token args @ [CHR 0x0A]] else [])"
  by (auto simp: fire_def Let_def fifo_failed_def split: option.splits sum.splits)

lemma executor_writes:
  assumes "os_writes (executor_main args env) \<noteq> []"
  shows "\<exists>r. bindE (admit_request args env) (age_gate env) = Inr r \<and> mode args = Fifo \<and>
    executor_main args env = fire args env r \<and> open_error env = None"
  using assms
  by (cases "mode args")
    (auto simp: executor_main_def fail_closed_def no_control_pass_def fire_writes
      split: sum.splits stop.splits if_splits simp del: bindE_simps bindE_Inr_iff)

text \<open>C7: the executor passes the trigger to the FIFO only as one write of the token, and only
  in FIFO mode with the control token, a FIFO node, a precontrol document all of whose gates
  passed, the frozen age limit of 800 ms on both sides, and a system-clock start that is not
  before the admission decision and at most 800,000,000 ns after the latest sample.\<close>

theorem trigger_write_is_guarded:
  assumes "os_writes (executor_main args env) \<noteq> []"
  shows "os_writes (executor_main args env) = [trigger_token args @ [CHR 0x0A]] \<and>
    CHR 0x0A \<notin> set (trigger_token args) \<and> mode args = Fifo \<and>
    control_authorization_token args = Some CONTROL_AUTHORIZATION_TOKEN \<and>
    fifo_node env = NodeFifo \<and>
    (\<exists>source latest decision source_max requested_max.
       precontrol_file env = FileJson (JObj source) \<and> required_source_pass source \<and>
       timing_fields source (max_age_ms args) = Some (latest, decision, source_max, requested_max) \<and>
       dec_value source_max = Some 800 \<and> dec_value requested_max = Some 800 \<and>
       decision \<le> clock_start env \<and> 0 \<le> clock_start env - latest \<and>
       clock_start env - latest \<le> 800000000)"
proof -
  from executor_writes [OF assms] obtain r where
    r: "bindE (admit_request args env) (age_gate env) = Inr r" "mode args = Fifo"
      "executor_main args env = fire args env r" "open_error env = None" by blast
  from r(1) obtain r0 latest decision req start0 where
    adm: "admit_request args env = Inr (r0, latest, decision, req, start0)"
      "age_gate env (r0, latest, decision, req, start0) = Inr r" by auto
  from admit_request_Fifo [OF adm(1) r(2)] obtain source source_max where
    a: "precontrol_file env = FileJson (JObj source)" "required_source_pass source"
      "timing_fields source (max_age_ms args) = Some (latest, decision, source_max, req)"
      "dec_value source_max = Some 800" "dec_value req = Some 800" "start0 = None"
      "control_authorization_token args = Some CONTROL_AUTHORIZATION_TOKEN"
      "fifo_node env = NodeFifo" "CHR 0x0A \<notin> set (trigger_token args)" by blast
  from age_gate_Inr [OF adm(2) a(5)] a(6)
  have "decision \<le> clock_start env" "0 \<le> clock_start env - latest"
    "clock_start env - latest \<le> 800000000" by (simp_all add: Let_def)
  with a r show ?thesis by (auto simp: fire_writes)
qed

subsection \<open>Reports and evidence\<close>

lemma executor_main_admitted:
  "bindE (admit_request args env) (age_gate env) = Inr r \<Longrightarrow> executor_main args env =
     (if mode args = NoControl then no_control_pass env r else fire args env r)"
  by (simp only: executor_main_def sum.case)

definition says :: "obj \<Rightarrow> string \<Rightarrow> int \<Rightarrow> int \<Rightarrow> bool" where
  "says r consumed attempts successes \<longleftrightarrow>
     obj_get r ''SCIENTIFIC_TRIGGER_CONSUMED'' = JStr consumed \<and>
     obj_get r ''TRIGGER_WRITE_ATTEMPT_COUNT'' = JInt attempts \<and>
     obj_get r ''TRIGGER_WRITE_SUCCESS_COUNT'' = JInt successes"

lemma says_unique: "says r c a s \<Longrightarrow> says r c' a' s' \<Longrightarrow> c = c' \<and> a = a' \<and> s = s'"
  by (simp add: says_def)

lemma fail_closed_says:
  "written_report (fail_closed env r reason rc) = Some q \<Longrightarrow> says q ''NO'' 0 0"
  by (auto simp: fail_closed_def says_def obj_get_update split: if_splits)

lemma no_control_says:
  "written_report (no_control_pass env r) = Some q \<Longrightarrow> says q ''NO'' 0 0"
  by (auto simp: no_control_pass_def says_def obj_get_update split: if_splits)

lemma fifo_failed_says:
  "written_report (fifo_failed env r t ws) = Some q \<Longrightarrow>
   says q (if ws = [] then ''NO'' else ''UNKNOWN'') (if ws = [] then 0 else 1) 0"
  by (auto simp: fifo_failed_def says_def obj_get_update Let_def split: if_splits)

lemma fire_says:
  assumes "written_report (fire args env r) = Some q"
  shows "if open_error env \<noteq> None then says q ''NO'' 0 0
    else if write_confirmed args env then says q ''YES'' 1 1 else says q ''UNKNOWN'' 1 0"
proof (cases "open_error env")
  case None
  show ?thesis
  proof (cases "write_confirmed args env")
    case True
    with None assms show ?thesis
      by (auto simp: fire_def Let_def write_confirmed_def says_def obj_get_update
        split: option.splits if_splits)
  next
    case False
    with None assms have
      "\<exists>t r'. written_report (fifo_failed env r' t [trigger_token args @ [CHR 0x0A]]) = Some q"
      by (auto simp: fire_def Let_def write_confirmed_def split: sum.splits if_splits)
    with None False show ?thesis using fifo_failed_says by fastforce
  qed
next
  case (Some t)
  with assms have
    "\<exists>r'. written_report (fifo_failed env r' t []) = Some q" by (auto simp: fire_def Let_def)
  with Some show ?thesis using fifo_failed_says by fastforce
qed

text \<open>C8: whatever happens, a report the executor writes tells the truth about the trigger: it
  says \<open>YES\<close> with counts 1/1 exactly when the whole token went through, \<open>NO\<close> with 0/0 exactly
  when nothing was passed to \<open>os.write\<close>, and \<open>UNKNOWN\<close> with 1/0 otherwise.\<close>

theorem report_is_truthful:
  assumes "written_report (executor_main args env) = Some q"
  shows "says q
    (if os_writes (executor_main args env) = [] then ''NO''
     else if write_confirmed args env then ''YES'' else ''UNKNOWN'')
    (int (length (os_writes (executor_main args env))))
    (if os_writes (executor_main args env) \<noteq> [] \<and> write_confirmed args env then 1 else 0)"
proof (cases "bindE (admit_request args env) (age_gate env)")
  case (Inl stop)
  with assms show ?thesis
    by (cases stop) (auto simp: executor_main_def fail_closed_def says_def obj_get_update
      simp del: bindE_simps bindE_Inr_iff split: if_splits)
next
  case (Inr r)
  show ?thesis
  proof (cases "mode args")
    case NoControl
    with executor_main_admitted [OF Inr] have "executor_main args env = no_control_pass env r" by simp
    with assms show ?thesis
      using no_control_says by (simp add: no_control_pass_def)
  next
    case Fifo
    with executor_main_admitted [OF Inr] have m: "executor_main args env = fire args env r" by simp
    with assms fire_says have
      f: "if open_error env \<noteq> None then says q ''NO'' 0 0
       else if write_confirmed args env then says q ''YES'' 1 1 else says q ''UNKNOWN'' 1 0"
      by metis
    show ?thesis
    proof (cases "open_error env = None")
      case True
      with f m show ?thesis by (simp add: fire_writes split: if_splits)
    next
      case False
      with f have "says q ''NO'' 0 0" by simp
      with False m show ?thesis by (auto simp: fire_writes)
    qed
  qed
qed

text \<open>An admitted request that nothing disturbs, for the witnesses and the converse.\<close>

definition fresh_request :: "exec_args \<Rightarrow> exec_env \<Rightarrow> obj \<Rightarrow> int \<Rightarrow> int \<Rightarrow> bool" where
  "fresh_request args env source latest decision \<longleftrightarrow>
     mode args = Fifo \<and> executor_start_utc_ns args = None \<and>
     control_authorization_token args = Some CONTROL_AUTHORIZATION_TOKEN \<and>
     (\<exists>c p. fifo_path args = Some (c # p)) \<and> fifo_node env = NodeFifo \<and>
     CHR 0x0A \<notin> set (trigger_token args) \<and>
     precontrol_file env = FileJson (JObj source) \<and> required_source_pass source \<and>
     timing_fields source (max_age_ms args) =
       Some (latest, decision, Dec False 800 0, Dec False 800 0) \<and>
     decision \<le> clock_start env \<and> latest \<le> clock_start env \<and>
     clock_start env \<le> latest + 800000000"

lemma dec_eq_800: "dec_eq (Dec False 800 0) (Dec False 800 0) = Inr True"
  by (simp add: dec_eq_def dec_value_800)

lemma fresh_request_admitted:
  assumes "fresh_request args env source latest decision"
  shows "\<exists>r. bindE (admit_request args env) (age_gate env) = Inr r"
proof -
  have mx: "max_age_ns (Dec False 800 0) = 800000000" by (simp add: max_age_ns_def dec_value_800)
  from assms obtain r0 where
    adm: "admit_request args env = Inr (r0, latest, decision, Dec False 800 0, None)"
    by (auto simp: fresh_request_def admit_request_def read_source_def check_source_def
      check_policy_def must_equal_def dec_eq_800 check_start_override_def check_control_def Let_def)
  from assms have "\<exists>r. age_gate env (r0, latest, decision, Dec False 800 0, None) = Inr r"
    by (auto simp: age_gate_def Let_def mx fresh_request_def)
  then show ?thesis by (simp add: adm del: bindE_Inr_iff)
qed

lemma fresh_request_fires:
  assumes "fresh_request args env source latest decision"
  shows "\<exists>r. executor_main args env = fire args env r"
proof -
  from fresh_request_admitted [OF assms] obtain r where
    r: "bindE (admit_request args env) (age_gate env) = Inr r" by blast
  have "mode args = Fifo" using assms by (simp add: fresh_request_def)
  with executor_main_admitted [OF r] show ?thesis by auto
qed

lemma fire_confirmed:
  assumes "write_confirmed args env" and "close_error env = None" and "out_state env = OutFree"
  shows "\<exists>q. fire args env r = \<lparr>exit_code = Inr 0, written_report = Some q,
      os_writes = [trigger_token args @ [CHR 0x0A]]\<rparr> \<and> says q ''YES'' 1 1"
  using assms
  by (auto simp: fire_def Let_def write_confirmed_def write_result_def says_def obj_get_update)

text \<open>C9: a fresh, authorised request is served: the token is written once, the run exits 0 and
  the report says so, when the FIFO takes the token and the output path is free.\<close>

theorem fresh_request_is_served:
  assumes "fresh_request args env source latest decision"
    and "write_confirmed args env" and "close_error env = None" and "out_state env = OutFree"
  shows "\<exists>q. executor_main args env = \<lparr>exit_code = Inr 0, written_report = Some q,
      os_writes = [trigger_token args @ [CHR 0x0A]]\<rparr> \<and> says q ''YES'' 1 1"
proof -
  from fresh_request_fires [OF assms(1)] obtain r where "executor_main args env = fire args env r"
    by blast
  with fire_confirmed [OF assms(2-4), of r] show ?thesis by simp
qed

text \<open>C10: the executor looks at its output path only when it writes the report, so a request
  that finds an old report there still fires: the token has been written, no evidence of it is
  left, and the process dies of \<open>RuntimeError\<close> instead of reporting a consumed trigger.\<close>

theorem stale_output_loses_trigger_evidence:
  assumes "fresh_request args env source latest decision"
    and "write_confirmed args env" and "close_error env = None" and "out_state env = OutExists"
  shows "executor_main args env = \<lparr>exit_code = Inl (PyExn ''RuntimeError''), written_report = None,
      os_writes = [trigger_token args @ [CHR 0x0A]]\<rparr>"
proof -
  from fresh_request_fires [OF assms(1)] obtain r where "executor_main args env = fire args env r"
    by blast
  with assms(2-4) show ?thesis
    by (auto simp: fire_def Let_def write_confirmed_def write_result_def)
qed

subsection \<open>A sample request\<close>

definition sample_source :: obj where
  "sample_source = [
     (''selection'', JStr ''latest_50_complete_contiguous_samples''),
     (''selected_complete_count'', JInt 50),
     (''stationarity_window_binding_gate'', JStr ''PASS''),
     (''output_stationarity_gate'', JStr ''PASS''), (''freshness_gate'', JStr ''PASS''),
     (''precontrol_admission_gate'', JStr ''PASS''),
     (''latest_sample_timestamp_utc_ns'', JInt 1000000000),
     (''decision_utc_ns'', JInt 1200000000),
     (''maximum_allowed_age_ms'', JStr ''800'')]"

definition sample_args :: exec_args where
  "sample_args = \<lparr>mode = Fifo, max_age_ms = ''800'', executor_start_utc_ns = None,
     fifo_path = Some ''/run/fifo'', trigger_token = ''TRIGGER'',
     control_authorization_token = Some CONTROL_AUTHORIZATION_TOKEN\<rparr>"

definition sample_env :: "out_state \<Rightarrow> exec_env" where
  "sample_env out = \<lparr>precontrol_file = FileJson (JObj sample_source), fifo_node = NodeFifo,
     clock_start = 1300000000, clock_trigger = 1300000100, clock_end = 1300000900,
     open_error = None, write_result_of = Inr 8, close_error = None, out_state = out\<rparr>"

lemma dec_of_text_800: "dec_of_text ''800'' = Some (Dec False 800 0)"
  by code_simp

lemma sample_fresh: "fresh_request sample_args (sample_env out) sample_source 1000000000 1200000000"
proof -
  have "timing_fields sample_source ''800'' =
      Some (1000000000, 1200000000, Dec False 800 0, Dec False 800 0)"
    by (simp add: timing_fields_def sample_source_def obj_idx_def decimal_of_def dec_of_text_800)
  moreover have "required_source_pass sample_source"
    by (simp add: required_source_pass_def sample_source_def)
  ultimately show ?thesis
    by (simp add: fresh_request_def sample_args_def sample_env_def)
qed

lemma sample_confirmed: "write_confirmed sample_args (sample_env out)"
  by (simp add: write_confirmed_def sample_args_def sample_env_def utf8_len_def)

theorem fresh_request_is_served_witness:
  "\<exists>q. executor_main sample_args (sample_env OutFree) = \<lparr>exit_code = Inr 0,
      written_report = Some q, os_writes = [''TRIGGER'' @ [CHR 0x0A]]\<rparr> \<and> says q ''YES'' 1 1"
  using fresh_request_is_served [OF sample_fresh sample_confirmed]
  by (simp add: sample_env_def sample_args_def)

theorem stale_output_loses_trigger_evidence_witness:
  "executor_main sample_args (sample_env OutExists) = \<lparr>exit_code = Inl (PyExn ''RuntimeError''),
      written_report = None, os_writes = [''TRIGGER'' @ [CHR 0x0A]]\<rparr>"
  using stale_output_loses_trigger_evidence [OF sample_fresh sample_confirmed]
  by (simp add: sample_env_def sample_args_def)

lemma sample_run:
  "\<exists>q. written_report (executor_main sample_args (sample_env OutFree)) = Some q \<and>
     os_writes (executor_main sample_args (sample_env OutFree)) = [''TRIGGER'' @ [CHR 0x0A]]"
proof -
  obtain r where r: "bindE (admit_request sample_args (sample_env OutFree))
      (age_gate (sample_env OutFree)) = Inr r"
    using fresh_request_admitted [OF sample_fresh] by blast
  from executor_main_admitted [OF this]
  have "executor_main sample_args (sample_env OutFree) = fire sample_args (sample_env OutFree) r"
    by (simp add: sample_args_def)
  then show ?thesis
    using sample_confirmed [of OutFree]
    by (auto simp: fire_def Let_def write_confirmed_def sample_env_def)
      (simp_all add: sample_args_def)
qed

theorem trigger_write_is_guarded_witness:
  "os_writes (executor_main sample_args (sample_env OutFree)) = [''TRIGGER'' @ [CHR 0x0A]] \<and>
   (\<exists>source latest decision source_max requested_max.
       precontrol_file (sample_env OutFree) = FileJson (JObj source) \<and> required_source_pass source \<and>
       timing_fields source ''800'' = Some (latest, decision, source_max, requested_max) \<and>
       0 \<le> 1300000000 - latest \<and> 1300000000 - latest \<le> 800000000)"
proof -
  have "os_writes (executor_main sample_args (sample_env OutFree)) \<noteq> []" using sample_run by auto
  from trigger_write_is_guarded [OF this] show ?thesis
    by (fastforce simp: sample_args_def sample_env_def)
qed

theorem report_is_truthful_witness:
  "\<exists>q. written_report (executor_main sample_args (sample_env OutFree)) = Some q \<and>
     says q ''YES'' 1 1"
proof -
  obtain q where q: "written_report (executor_main sample_args (sample_env OutFree)) = Some q"
      "os_writes (executor_main sample_args (sample_env OutFree)) = [''TRIGGER'' @ [CHR 0x0A]]"
    using sample_run by blast
  from report_is_truthful [OF q(1)] q sample_confirmed show ?thesis by simp
qed

end
