(* ===== verification/Py_Path.thy ===== *)
theory Py_Path
  imports Py_Text
begin

section \<open>Paths\<close>

text \<open>
  The pure path arithmetic of \<open>pathlib.PurePosixPath\<close>: a path is its root (empty, \<open>/\<close>, or \<open>//\<close>
  for exactly two leading slashes) and its components, without empty and \<open>.\<close> components.
\<close>

record path =
  root :: string
  parts :: "string list"

definition to_path :: "string \<Rightarrow> path" where
  "to_path s = \<lparr>
     root = (if starts_with ''///'' s then ''/'' else if starts_with ''//'' s then ''//''
       else if starts_with ''/'' s then ''/'' else []),
     parts = filter (\<lambda>c. c \<noteq> [] \<and> c \<noteq> ''.'') (split_on (CHR ''/'') s)\<rparr>"

definition is_absolute :: "path \<Rightarrow> bool" where
  "is_absolute p \<longleftrightarrow> root p \<noteq> []"

definition parent :: "path \<Rightarrow> path" where
  "parent p = p \<lparr>parts := butlast (parts p)\<rparr>"

definition child_path :: "path \<Rightarrow> string list \<Rightarrow> path" where
  "child_path p names = p \<lparr>parts := parts p @ names\<rparr>"

definition base_name :: "path \<Rightarrow> string" where
  "base_name p = (if parts p = [] then [] else last (parts p))"

text \<open>\<open>str(p)\<close>; the empty path prints as the current directory.\<close>

definition path_str :: "path \<Rightarrow> string" where
  "path_str p = (if root p = [] \<and> parts p = [] then ''.'' else root p @ join_with (CHR ''/'') (parts p))"

text \<open>\<open>p.with_name(n)\<close> of a path that has a name.\<close>

definition with_name :: "path \<Rightarrow> string \<Rightarrow> path" where
  "with_name p n = child_path (parent p) [n]"

lemma parent_child [simp]: "parent (child_path p [n]) = p"
  by (simp add: parent_def child_path_def)

lemma parent_child2 [simp]: "parent (child_path p [m, n]) = child_path p [m]"
  by (simp add: parent_def child_path_def butlast_append)

lemma child_path_inject [simp]: "child_path p xs = child_path p ys \<longleftrightarrow> xs = ys"
  by (cases p) (simp add: child_path_def)

lemma base_name_child [simp]: "base_name (child_path p [n]) = n"
  by (simp add: base_name_def child_path_def)

lemma with_name_inject: "with_name p m = with_name q n \<Longrightarrow> m = n \<and> parent p = parent q"
  by (metis base_name_child parent_child with_name_def)

lemma with_name_child [simp]: "with_name (child_path p [a, b]) c = child_path p [a, c]"
  by (simp add: with_name_def child_path_def parent_def butlast_append)

lemma child_path_neq: "a \<noteq> c \<Longrightarrow> child_path p [a, b] \<noteq> child_path q [c, d]"
  by (cases p; cases q) (auto simp: child_path_def)

end
