(* ===== verification/Interleaving.thy ===== *)
theory Interleaving
  imports Harness_Prelude
begin

section \<open>Interleaved and interrupted processes over one store\<close>

text \<open>
  The harness protects a run with files that are created exclusively and never removed, because
  the same command may be started twice, at the same time or after a crash.  A system is a list
  of processes over one store; a step of the system is one step of any process, or the crash of
  any process, which loses its place but not what it stored.  \<open>one_shot\<close> is the contract of a
  process whose effect is paid for by an exclusive creation: from it follows, for every
  interleaving and every crash, that the effect happens at most once.
\<close>

type_synonym ('p, 's, 'e) stepper = "'p \<Rightarrow> 's \<Rightarrow> 'p \<times> 's \<times> 'e list"

inductive interleaved ::
    "('p, 's, 'e) stepper \<Rightarrow> ('p \<Rightarrow> 'p) \<Rightarrow> 'p list \<times> 's \<times> 'e list \<Rightarrow> 'p list \<times> 's \<times> 'e list \<Rightarrow> bool"
  for step :: "('p, 's, 'e) stepper" and crash :: "'p \<Rightarrow> 'p" where
  start: "interleaved step crash c c"
| move: "interleaved step crash c (ps, s, es) \<Longrightarrow> i < length ps \<Longrightarrow>
    step (ps ! i) s = (p', s', es') \<Longrightarrow>
    interleaved step crash c (ps[i := p'], s', es @ es')"
| die: "interleaved step crash c (ps, s, es) \<Longrightarrow> i < length ps \<Longrightarrow>
    interleaved step crash c (ps[i := crash (ps ! i)], s, es)"

inductive_cases interleaved_cases [elim]: "interleaved step crash c c'"

text \<open>A single process run to a bounded number of steps.\<close>

fun iterate :: "('p, 's, 'e) stepper \<Rightarrow> nat \<Rightarrow> 'p \<Rightarrow> 's \<Rightarrow> 'p \<times> 's \<times> 'e list" where
  "iterate step 0 p s = (p, s, [])"
| "iterate step (Suc n) p s = (case step p s of (p', s', es) \<Rightarrow>
     (case iterate step n p' s' of (p'', s'', es') \<Rightarrow> (p'', s'', es @ es')))"

lemma iterate_invariant:
  assumes "iterate step n p s = (p', s', es)" and "I p"
    and "\<And>p s p' s' es. step p s = (p', s', es) \<Longrightarrow> I p \<Longrightarrow> I p' \<and> (\<forall>e \<in> set es. Q e)"
  shows "I p' \<and> (\<forall>e \<in> set es. Q e)"
  using assms(1,2)
proof (induction n arbitrary: p s es)
  case 0
  then show ?case by simp
next
  case (Suc n)
  obtain q t e1 where st: "step p s = (q, t, e1)" by (cases "step p s")
  obtain e2 where it: "iterate step n q t = (p', s', e2)" "es = e1 @ e2"
    using Suc.prems st by (auto split: prod.splits)
  with assms(3) [OF st Suc.prems(2)] Suc.IH [OF it(1)] show ?case by auto
qed

text \<open>A process that runs alone is one of the interleavings.\<close>

lemma iterate_system:
  assumes "interleaved step crash c (ps, s, es)" and "i < length ps"
    and "iterate step n (ps ! i) s = (p', s', es')"
  shows "interleaved step crash c (ps[i := p'], s', es @ es')"
  using assms
proof (induction n arbitrary: ps s es es')
  case 0
  then show ?case by auto
next
  case (Suc n)
  obtain q t e1 where st: "step (ps ! i) s = (q, t, e1)" by (cases "step (ps ! i) s")
  obtain e2 where it: "iterate step n q t = (p', s', e2)" "es' = e1 @ e2"
    using Suc.prems(3) st by (auto split: prod.splits)
  from Suc.IH [OF interleaved.move [OF Suc.prems(1,2) st]] Suc.prems(2) it show ?case by simp
qed

lemma interleaved_iterate:
  assumes "interleaved step crash c (ps, s, es)" and "i < length ps"
    and "iterate step n (ps ! i) s = (p', s', es')"
  shows "\<exists>ps'. interleaved step crash c (ps', s', es @ es')"
  using iterate_system [OF assms] by blast

text \<open>
  What one process did in an interleaving: when every event carries the name of the process that
  caused it, a relation between a process and its own history that its steps and its crash keep
  holds of every process of every interleaving.
\<close>

lemma update_kept:
  assumes "i < length ps" and "\<forall>j<length ps. P j (ps ! j)" and "P i q"
  shows "\<forall>j<length ps. P j (ps[i := q] ! j)"
  using assms by (auto simp: nth_list_update)

lemma interleaved_history:
  assumes "interleaved step crash (ps0, s0, []) (ps, s, es)" and "distinct (map name ps0)"
    and name: "\<And>p s p' s' es. step p s = (p', s', es) \<Longrightarrow>
      name p' = name p \<and> (\<forall>e \<in> set es. tag e = name p)" "\<And>p. name (crash p) = name p"
    and H: "\<And>p. p \<in> set ps0 \<Longrightarrow> H p p []"
      "\<And>p0 p s p' s' h es. step p s = (p', s', es) \<Longrightarrow> H p0 p h \<Longrightarrow> H p0 p' (h @ es)"
      "\<And>p0 p h. H p0 p h \<Longrightarrow> H p0 (crash p) h"
  shows "length ps = length ps0 \<and> map name ps = map name ps0 \<and>
    (\<forall>i<length ps. H (ps0 ! i) (ps ! i) (filter (\<lambda>e. tag e = name (ps ! i)) es))"
  using assms(1)
proof (induction "(ps0, s0, [] :: 'c list)" "(ps, s, es)" arbitrary: ps s es rule: interleaved.induct)
  case start
  then show ?case using H(1) by simp
next
  case (move ps s es i p' s' es')
  from name(1) [OF move.hyps(4)] have n: "name p' = name (ps ! i)" "\<forall>e \<in> set es'. tag e = name (ps ! i)"
    by auto
  have maps: "map name (ps[i := p']) = map name ps0"
    using move.hyps(2) n(1) by (metis list_update_id map_update)
  moreover have "\<forall>j<length ps. H (ps0 ! j) (ps[i := p'] ! j)
      (filter (\<lambda>e. tag e = name (ps[i := p'] ! j)) (es @ es'))"
  proof (intro allI impI)
    fix j assume j: "j < length ps"
    show "H (ps0 ! j) (ps[i := p'] ! j) (filter (\<lambda>e. tag e = name (ps[i := p'] ! j)) (es @ es'))"
    proof (cases "j = i")
      case True
      have "H (ps0 ! i) (ps ! i) (filter (\<lambda>e. tag e = name (ps ! i)) es)"
        using move.hyps(2,3) by blast
      from H(2) [OF move.hyps(4) this] True move.hyps(3) n show ?thesis by simp
    next
      case False
      have "map name ps ! j \<noteq> map name ps ! i"
        using move.hyps(2,3) assms(2) j False by (metis length_map nth_eq_iff_index_eq)
      with n(2) j move.hyps(3) have "filter (\<lambda>e. tag e = name (ps ! j)) es' = []"
        by (auto simp: filter_empty_conv)
      with move.hyps(2) j False show ?thesis by simp
    qed
  qed
  ultimately show ?case using move.hyps(2) by simp
next
  case (die ps s es i)
  have "map name (ps[i := crash (ps ! i)]) = map name ps0"
    using die.hyps(2) name(2) by (metis list_update_id map_update)
  moreover have "\<forall>j<length ps. H (ps0 ! j) (ps[i := crash (ps ! i)] ! j)
      (filter (\<lambda>e. tag e = name (ps[i := crash (ps ! i)] ! j)) es)"
    by (rule update_kept [OF die.hyps(3)]) (use die.hyps(2,3) H(3) name(2) in auto)
  ultimately show ?case using die.hyps(2) by simp
qed

text \<open>How many processes satisfy a predicate, and what one update does to the count.\<close>

definition tally :: "('p \<Rightarrow> bool) \<Rightarrow> 'p list \<Rightarrow> nat" where
  "tally P ps = length (filter P ps)"

lemma tally_update:
  "i < length ps \<Longrightarrow> tally P (ps[i := q]) + of_bool (P (ps ! i)) = tally P ps + of_bool (P q)"
proof (induction ps arbitrary: i)
  case Nil
  then show ?case by simp
next
  case (Cons p ps)
  show ?case
  proof (cases i)
    case 0
    then show ?thesis by (simp add: tally_def)
  next
    case (Suc j)
    with Cons.prems Cons.IH [of j] show ?thesis by (simp add: tally_def)
  qed
qed

lemma tally_none: "(\<And>p. p \<in> set ps \<Longrightarrow> \<not> P p) \<Longrightarrow> tally P ps = 0"
  by (simp add: tally_def)

text \<open>
  The general contract holds of the processes that satisfy an invariant of their own (\<open>fit\<close>),
  which no step and no crash breaks.
\<close>

locale guarded_one_shot =
  fixes step :: "('p, 's, 'e) stepper"
    and crash :: "'p \<Rightarrow> 'p"
    and fit :: "'p \<Rightarrow> bool"
    and armed :: "'p \<Rightarrow> bool"
    and free :: "'s \<Rightarrow> bool"
    and hit :: "'e \<Rightarrow> bool"
  assumes guarded_budget: "step p s = (p', s', es) \<Longrightarrow> fit p \<Longrightarrow>
      of_bool (armed p') + of_bool (free s') + tally hit es \<le> of_bool (armed p) + of_bool (free s)"
    and fit_step: "step p s = (p', s', es) \<Longrightarrow> fit p \<Longrightarrow> fit p'"
    and fit_crash: "fit p \<Longrightarrow> fit (crash p)"
    and crash_disarms: "\<not> armed (crash p)"
begin

lemma fit_kept:
  "interleaved step crash (ps0, s0, es0) (ps, s, es) \<Longrightarrow> \<forall>p \<in> set ps0. fit p \<Longrightarrow>
   \<forall>p \<in> set ps. fit p"
proof (induction "(ps0, s0, es0)" "(ps, s, es)" arbitrary: ps s es rule: interleaved.induct)
  case start
  then show ?case by simp
next
  case (move ps s es i p' s' es')
  then show ?case using fit_step [OF move.hyps(4)]
    by (metis in_set_conv_nth length_list_update nth_list_update_eq nth_list_update_neq)
next
  case (die ps s es i)
  then show ?case using fit_crash
    by (metis in_set_conv_nth length_list_update nth_list_update_eq nth_list_update_neq)
qed

lemma budget_kept:
  "interleaved step crash (ps0, s0, []) (ps, s, es) \<Longrightarrow> \<forall>p \<in> set ps0. fit p \<Longrightarrow>
   tally armed ps + of_bool (free s) + tally hit es \<le> tally armed ps0 + of_bool (free s0)"
proof (induction "(ps0, s0, [] :: 'e list)" "(ps, s, es)" arbitrary: ps s es rule: interleaved.induct)
  case start
  show ?case by (simp add: tally_def)
next
  case (move ps s es i p' s' es')
  have "tally hit (es @ es') = tally hit es + tally hit es'" by (simp add: tally_def)
  moreover have "fit (ps ! i)"
    using fit_kept [OF move.hyps(1) move.prems] move.hyps(3) by simp
  ultimately show ?case
    using move.hyps(2) [OF move.prems] tally_update [OF move.hyps(3), of armed p']
      guarded_budget [OF move.hyps(4)] by linarith
next
  case (die ps s es i)
  with tally_update [OF die.hyps(3), of armed "crash (ps ! i)"] crash_disarms show ?case
    by simp
qed

text \<open>No process armed at the start: the effect happens at most once, and not at all when the
  file was already there.\<close>

lemma at_most_once:
  assumes "interleaved step crash (ps0, s0, []) (ps, s, es)" and "\<forall>p \<in> set ps0. fit p"
    and "\<forall>p \<in> set ps0. \<not> armed p"
  shows "tally hit es \<le> (if free s0 then 1 else 0)"
  using budget_kept [OF assms(1,2)] tally_none [of ps0 armed] assms(3)
  by (cases "free s0") simp_all

lemma iterate_budget: "iterate step n p s = (p', s', es) \<Longrightarrow> fit p \<Longrightarrow>
    of_bool (armed p') + of_bool (free s') + tally hit es \<le> of_bool (armed p) + (of_bool (free s) :: nat)"
proof (induction n arbitrary: p s es)
  case 0
  then show ?case by (simp add: tally_def)
next
  case (Suc n)
  obtain q t e1 where st: "step p s = (q, t, e1)" by (cases "step p s")
  obtain e2 where it: "iterate step n q t = (p', s', e2)" "es = e1 @ e2"
    using Suc.prems st by (auto split: prod.splits)
  have "tally hit es = tally hit e1 + tally hit e2" using it(2) by (simp add: tally_def)
  with guarded_budget [OF st] Suc.IH [OF it(1)] fit_step [OF st] Suc.prems(2)
  show ?case by fastforce
qed

lemma iterate_once: "\<not> armed p \<Longrightarrow> fit p \<Longrightarrow> iterate step n p s = (p', s', es) \<Longrightarrow>
    of_bool (armed p') + of_bool (free s') + tally hit es \<le> (of_bool (free s) :: nat)"
  using iterate_budget [of n p s p' s' es] by simp

end

text \<open>The simple contract, for processes whose steps need no invariant.\<close>

locale one_shot =
  fixes step :: "('p, 's, 'e) stepper"
    and crash :: "'p \<Rightarrow> 'p"
    and armed :: "'p \<Rightarrow> bool"
    and free :: "'s \<Rightarrow> bool"
    and hit :: "'e \<Rightarrow> bool"
  assumes budget: "step p s = (p', s', es) \<Longrightarrow>
      of_bool (armed p') + of_bool (free s') + tally hit es \<le> of_bool (armed p) + of_bool (free s)"
    and crash_disarms: "\<not> armed (crash p)"

sublocale one_shot \<subseteq> guarded: guarded_one_shot step crash "\<lambda>_. True" armed free hit
  by unfold_locales (use budget crash_disarms in auto)

end
