(* ===== verification/Critical_Section.thy ===== *)
theory Critical_Section
  imports Py_Json Py_Path Interleaving
begin

section \<open>The T2 critical section\<close>

text \<open>
  \<^verbatim>\<open>scripts/experiment-harness/prompt12-t2-critical-section.py\<close>: precontrol, ratio binding and
  trigger as one local invocation, protected by files that are created exclusively and never
  removed.  \<open>load_t2_plan\<close> is the check of the materialisation; \<open>run_live\<close> is cut at every call
  that touches the machine into the steps of \<open>cs_step\<close>, over a store of files that all
  invocations share, so that interleaved and interrupted invocations can be reasoned about.
\<close>

named_theorems cs_simps \<open>the steps of the critical section\<close>

definition SCHEMA :: string where
  "SCHEMA = ''sci_oran_prompt12_resume_single_transition_materialization_v1''"

definition LIVE_TOKEN :: string where
  "LIVE_TOKEN = ''AUTHORISE_PROMPT12_RESUMED_T2_26_TO_39_LIVE''"

definition CONTROL_TOKEN :: string where
  "CONTROL_TOKEN = ''PROMPT12_T2_EXPLICIT_FIFO_CONTROL''"

definition CONTROL_PLACEHOLDER :: string where
  "CONTROL_PLACEHOLDER = ''@PROMPT12_CONTROL_AUTHORIZATION_TOKEN@''"

subsection \<open>The materialised plan\<close>

definition option_value :: "string list \<Rightarrow> string \<Rightarrow> string result" where
  "option_value argv name =
     (if count_list argv name \<noteq> 1 then Inl (Domain (''OPTION_CARDINALITY_INVALID:'' @ name))
      else (case drop 1 (dropWhile (\<lambda>x. x \<noteq> name) argv) of
              [] \<Rightarrow> Inl (Domain (''OPTION_VALUE_MISSING:'' @ name)) | v # _ \<Rightarrow> Inr v))"

definition strings_of :: "json \<Rightarrow> string list option" where
  "strings_of v = (case v of
       JArr xs \<Rightarrow> if list_all is_str xs
         then Some (map (\<lambda>x. case x of JStr s \<Rightarrow> s | _ \<Rightarrow> []) xs) else None
     | _ \<Rightarrow> None)"

text \<open>
  What the check asks the file system: where this checkout holds a script, and what a path
  resolves to (\<open>None\<close> is \<open>OSError\<close>).
\<close>

record checkout =
  script_path :: "string \<Rightarrow> path"
  resolve :: "string \<Rightarrow> path option"

definition trusted_command :: "checkout \<Rightarrow> obj \<Rightarrow> string \<Rightarrow> string \<Rightarrow> string list result" where
  "trusted_command co report key script = (case strings_of (obj_get report key) of
       None \<Rightarrow> Inl (Domain (''UNTRUSTED_COMMAND:'' @ key))
     | Some argv \<Rightarrow>
        if length argv < 2 \<or> \<not> list_all (\<lambda>x. x \<noteq> [] \<and> CHR 0x00 \<notin> set x) argv \<or>
           base_name (to_path (argv ! 0)) \<notin> {''python3'', ''python'', ''python3.9'',
             ''python3.10'', ''python3.11'', ''python3.12'', ''python3.13''}
        then Inl (Domain (''UNTRUSTED_COMMAND:'' @ key))
        else (case resolve co (argv ! 1) of
            None \<Rightarrow> Inl (Domain (''COMMAND_SOURCE_UNAVAILABLE:'' @ key))
          | Some actual \<Rightarrow>
              if actual \<noteq> script_path co script
              then Inl (Domain (''COMMAND_SOURCE_IDENTITY_MISMATCH:'' @ key)) else Inr argv))"

record t2_plan =
  pre_cmd :: "string list"
  ratio_cmd :: "string list"
  trigger_cmd :: "string list"
  executor_output :: path

definition FALSE_FLAGS :: "string list" where
  "FALSE_FLAGS = [''synthetic_prior_transition_events'', ''skipped_transition_bindings_consumed'',
     ''t3_handoff_present'', ''t3_trigger_present'', ''command_executed'', ''control_executed'',
     ''traffic_executed'']"

definition t2_frozen :: "obj \<Rightarrow> bool" where
  "t2_frozen raw \<longleftrightarrow>
     py_eq (obj_get raw ''transition_label'') (JStr ''T2'') \<and>
     py_eq (obj_get raw ''transition_index'') (JInt 2) \<and>
     py_eq (obj_get raw ''executed_transition_ordinal'') (JInt 1) \<and>
     py_eq (obj_get raw ''expected_actuator_transaction_count'') (JInt 1) \<and>
     py_eq (obj_get raw ''expected_timeline_event_count'') (JInt 3) \<and>
     list_all (\<lambda>k. obj_get raw k = JBool False) FALSE_FLAGS"

definition contract_options :: "string list \<Rightarrow> string list \<Rightarrow> unit result" where
  "contract_options ratio trigger =
     (let expect = (\<lambda>argv name v m. bindE (option_value argv name) (\<lambda>x.
            if x \<noteq> v then Inl (Domain ''T2_COMMAND_CONTRACT_INVALID'') else m))
      in expect ratio ''--transition-label'' ''T2''
        (expect ratio ''--transition-index'' ''2''
        (expect ratio ''--requested-ratio-pct'' ''75''
        (expect trigger ''--mode'' ''fifo''
        (expect trigger ''--max-age-ms'' ''800''
        (expect trigger ''--control-authorization-token'' CONTROL_PLACEHOLDER
          (require (count_list trigger CONTROL_PLACEHOLDER = 1) ''T2_COMMAND_CONTRACT_INVALID'')))))))"

definition load_t2_plan :: "checkout \<Rightarrow> loaded \<Rightarrow> t2_plan result" where
  "load_t2_plan co file = (case file of
       FileMissing \<Rightarrow> Inl (Domain ''MATERIALIZATION_UNAVAILABLE:FileNotFoundError'')
     | FileRaises t \<Rightarrow> if t = ''UnicodeDecodeError'' then Inl (PyExn t)
         else Inl (Domain (''MATERIALIZATION_UNAVAILABLE:'' @ t))
     | FileJson v \<Rightarrow> (case v of
         JObj raw \<Rightarrow>
          bindE (require (py_eq (obj_get raw ''schema'') (JStr SCHEMA))
                   ''MATERIALIZATION_SCHEMA_INVALID'') (\<lambda>_.
          bindE (require (t2_frozen raw) ''T2_FROZEN_INVARIANT_FAILED'') (\<lambda>_.
          bindE (trusted_command co raw ''initial_precontrol_command''
                   ''prompt12-bounded-precontrol-handoff.py'') (\<lambda>pre.
          bindE (trusted_command co raw ''ratio_bind_command''
                   ''prompt12-pretrigger-ratio-binding-writer.py'') (\<lambda>ratio.
          bindE (trusted_command co raw ''trigger_command''
                   ''prompt12-precontrol-trigger-executor.py'') (\<lambda>trigger.
          bindE (require (count_list pre ''--stationarity-command'' = 1 \<and>
                   count_list pre ''--freshness-command'' = 1) ''PRECONTROL_HANDOFF_CONTRACT_INVALID'') (\<lambda>_.
          bindE (contract_options ratio trigger) (\<lambda>_.
          bindE (option_value pre ''--precontrol-output'') (\<lambda>src.
          bindE (option_value trigger ''--precontrol-json'') (\<lambda>trg.
          bindE (option_value ratio ''--output'') (\<lambda>rout.
          bindE (option_value trigger ''--output'') (\<lambda>eout.
            (let source = to_path src; trigger_source = to_path trg; ratio_output = to_path rout;
                 executor_output = to_path eout; run = parent (parent executor_output)
             in bindE (require (list_all is_absolute
                       [source, trigger_source, ratio_output, executor_output])
                     ''T2_OUTPUT_PATH_NOT_ABSOLUTE'') (\<lambda>_.
                bindE (require (source = trigger_source \<and>
                       source = child_path run [''precontrol'', ''T2.json''] \<and>
                       executor_output = child_path run [''control'', ''T2.executor.json''] \<and>
                       ratio_output =
                         child_path run [''runtime'', ''ratio-bindings'', ''T2.binding.json''])
                     ''T2_RUN_SCOPE_MISMATCH'') (\<lambda>_.
                Inr \<lparr>pre_cmd = pre, ratio_cmd = ratio, trigger_cmd = trigger,
                     executor_output = executor_output\<rparr>))))))))))))))
       | _ \<Rightarrow> Inl (Domain ''MATERIALIZATION_SCHEMA_INVALID'')))"

subsection \<open>Files and children\<close>

type_synonym store = "path \<rightharpoonup> json"

text \<open>
  \<open>write_exclusive\<close>: \<open>O_CREAT|O_EXCL\<close>.  A failure after the creation (the \<open>string option\<close> is
  the exception) leaves the file behind.
\<close>

definition write_exclusive :: "path \<Rightarrow> json \<Rightarrow> string option \<Rightarrow> store \<Rightarrow> store \<times> unit result" where
  "write_exclusive p v err s =
     (if s p \<noteq> None then (s, Inl (PyExn ''FileExistsError''))
      else (s(p \<mapsto> v), case err of None \<Rightarrow> Inr () | Some t \<Rightarrow> Inl (PyExn t)))"

text \<open>A child process: it could not be run or timed out, running it raised something else, or it
  ended with a code, its standard output and that output read as JSON.\<close>

datatype child = ChildUnknown string | ChildEscapes string | ChildExit int string "json option"

definition run_child :: "child \<Rightarrow> string \<Rightarrow> (string \<times> json option) result" where
  "run_child c label = (case c of
       ChildUnknown t \<Rightarrow> Inl (Domain (label @ ''_EXECUTION_UNKNOWN:'' @ t))
     | ChildEscapes t \<Rightarrow> Inl (PyExn t)
     | ChildExit rc out js \<Rightarrow>
         if rc \<noteq> 0 then Inl (Domain (label @ ''_FAILED:RC_'' @ show_int rc)) else Inr (out, js))"

record cs_env =
  control_dir_ok :: bool
  started_utc :: string
  intent_error :: "string option"
  claims_symlink :: bool
  claims_error :: "string option"
  claims_dir_ok :: bool
  claim_error :: "string option"
  precontrol_child :: child
  ratio_child :: child
  readback_start :: string
  trigger_child :: child
  executor_report :: loaded
  outcome_error :: "string option"

subsection \<open>The steps of \<open>run_live\<close>\<close>

datatype stage = Begin | Checked | IntentHeld | ClaimHeld | PreDone | RatioDone | Fired | Closing
  | Ended

record proc =
  cs_plan :: t2_plan
  cs_env :: cs_env
  operation_id :: string
  stage :: stage
  cs_result :: obj
  stationarity :: obj
  verdict :: "obj result"

datatype cs_event = RanPrecontrol | RanRatio | RanTrigger path path "string list"

definition intent_path :: "proc \<Rightarrow> path" where
  "intent_path p = with_name (executor_output (cs_plan p)) ''T2.trigger-intent.json''"

definition outcome_path :: "proc \<Rightarrow> path" where
  "outcome_path p = with_name (executor_output (cs_plan p)) ''T2.critical-outcome.json''"

definition claim_path :: "proc \<Rightarrow> path" where
  "claim_path p = child_path (parent (parent (parent (parent (executor_output (cs_plan p))))))
     [''.t2-operation-claims'', operation_id p @ ''.json'']"

type_synonym cs_move = "proc \<times> store \<times> cs_event list"

definition stop_with :: "proc \<Rightarrow> exn \<Rightarrow> proc" where
  "stop_with p e = p \<lparr>stage := Ended, verdict := Inl e\<rparr>"

text \<open>A failure inside the \<open>try\<close>: a \<open>CriticalError\<close> is recorded, every exception goes on to the
  \<open>finally\<close>.\<close>

definition fail_with :: "proc \<Rightarrow> exn \<Rightarrow> proc" where
  "fail_with p e = p \<lparr>stage := Closing, verdict := Inl e,
     cs_result := (case e of Domain m \<Rightarrow> obj_set ''failure_reason'' (JStr m) (cs_result p)
       | _ \<Rightarrow> cs_result p)\<rparr>"

definition step_check :: "proc \<Rightarrow> store \<Rightarrow> cs_move" where
  "step_check p s =
     (if \<not> control_dir_ok (cs_env p)
      then (stop_with p (Domain ''CONTROL_EVIDENCE_DIRECTORY_MISSING''), s, [])
      else if s (intent_path p) \<noteq> None \<or> s (outcome_path p) \<noteq> None \<or>
              s (executor_output (cs_plan p)) \<noteq> None
      then (stop_with p (Domain ''T2_OPERATION_ALREADY_CONSUMED_NO_REPLAY''), s, [])
      else (p \<lparr>stage := Checked\<rparr>, s, []))"

definition path_json :: "path \<Rightarrow> json" where
  "path_json p = JStr (root p @ join_with (CHR ''/'') (parts p))"

definition intent_record :: "proc \<Rightarrow> json" where
  "intent_record p = JObj [
     (''schema'', JStr ''sci_oran_prompt12_t2_irrevocable_intent_v1''),
     (''operation_id'', JStr (operation_id p)),
     (''transition'', JStr ''T2''),
     (''state'', JStr ''CONSUMED_BEFORE_PRECONTROL_NO_AUTOMATIC_REPLAY''),
     (''scientific_trigger_replay_decision'', JStr ''NEVER_AUTOMATICALLY_REPLAY''),
     (''executor_output'', path_json (executor_output (cs_plan p))),
     (''started_utc'', JStr (started_utc (cs_env p)))]"

definition step_intent :: "proc \<Rightarrow> store \<Rightarrow> cs_move" where
  "step_intent p s = (case write_exclusive (intent_path p) (intent_record p)
                            (intent_error (cs_env p)) s of
       (s', Inl e) \<Rightarrow> (stop_with p e, s', [])
     | (s', Inr _) \<Rightarrow> (p \<lparr>stage := IntentHeld\<rparr>, s', []))"

definition claim_record :: "proc \<Rightarrow> json" where
  "claim_record p = JObj [
     (''schema'', JStr ''sci_oran_prompt12_t2_operation_claim_v1''),
     (''operation_id'', JStr (operation_id p)),
     (''run_root'', path_json (parent (parent (executor_output (cs_plan p))))),
     (''scientific_trigger_replay_decision'', JStr ''NEVER_AUTOMATICALLY_REPLAY'')]"

definition first_result :: "proc \<Rightarrow> obj" where
  "first_result p = [
     (''schema'', JStr ''sci_oran_prompt12_t2_critical_outcome_v1''),
     (''operation_id'', JStr (operation_id p)),
     (''state'', JStr ''FAIL_CLOSED''),
     (''scientific_trigger_replay_decision'', JStr ''NEVER_AUTOMATICALLY_REPLAY''),
     (''trigger_dispatch_attempted'', JBool False),
     (''trigger_execution_confirmed'', JBool False),
     (''intent'', path_json (intent_path p)),
     (''global_operation_claim'', path_json (claim_path p))]"

definition step_claim :: "proc \<Rightarrow> store \<Rightarrow> cs_move" where
  "step_claim p s =
     (if claims_symlink (cs_env p)
      then (stop_with p (Domain ''GLOBAL_OPERATION_CLAIMS_SYMLINK_FORBIDDEN''), s, [])
      else case claims_error (cs_env p) of
        Some t \<Rightarrow> (stop_with p (PyExn t), s, [])
      | None \<Rightarrow>
         if \<not> claims_dir_ok (cs_env p)
         then (stop_with p (Domain ''GLOBAL_OPERATION_CLAIMS_DIRECTORY_INVALID''), s, [])
         else (case write_exclusive (claim_path p) (claim_record p) (claim_error (cs_env p)) s of
             (s', Inl e) \<Rightarrow> (stop_with p (if e = PyExn ''FileExistsError''
                 then Domain ''T2_OPERATION_ID_ALREADY_CONSUMED'' else e), s', [])
           | (s', Inr _) \<Rightarrow> (p \<lparr>stage := ClaimHeld, cs_result := first_result p\<rparr>, s', [])))"

definition STATIONARITY_GATES :: "string list" where
  "STATIONARITY_GATES = [''output_stationarity_gate'', ''minimum_phase_duration_gate'',
     ''statistical_phase_candidate'']"

definition stationarity_pass :: "json option \<Rightarrow> obj result" where
  "stationarity_pass js = (case js of
       None \<Rightarrow> Inl (Domain ''STATIONARITY_STDOUT_INVALID'')
     | Some (JObj ob) \<Rightarrow>
         if list_all (\<lambda>k. py_eq (obj_get ob k) (JStr ''PASS'')) STATIONARITY_GATES then Inr ob
         else Inl (Domain ''T2_PRECONTROL_STATIONARITY_NOT_PASS'')
     | Some _ \<Rightarrow> Inl (Domain ''T2_PRECONTROL_STATIONARITY_NOT_PASS''))"

definition step_precontrol :: "proc \<Rightarrow> store \<Rightarrow> cs_move" where
  "step_precontrol p s =
     (case bindE (run_child (precontrol_child (cs_env p)) ''PRECONTROL'')
             (\<lambda>(_, js). stationarity_pass js) of
        Inl e \<Rightarrow> (fail_with p e, s, [RanPrecontrol])
      | Inr ob \<Rightarrow> (p \<lparr>stage := PreDone, stationarity := ob\<rparr>, s, [RanPrecontrol]))"

definition step_ratio :: "proc \<Rightarrow> store \<Rightarrow> cs_move" where
  "step_ratio p s =
     (case bindE (run_child (ratio_child (cs_env p)) ''RATIO_BIND'')
             (\<lambda>(out, _). require (''RATIO_BOUND=PASS'' \<in> set (splitlines out))
                ''T2_RATIO_BIND_MARKER_MISSING'') of
        Inl e \<Rightarrow> (fail_with p e, s, [RanRatio])
      | Inr _ \<Rightarrow> (p \<lparr>stage := RatioDone\<rparr>, s, [RanRatio]))"

definition resolved_trigger :: "proc \<Rightarrow> string list" where
  "resolved_trigger p = map (\<lambda>x. if x = CONTROL_PLACEHOLDER then CONTROL_TOKEN else x)
     (trigger_cmd (cs_plan p))"

text \<open>The trigger is dispatched; the executor leaves its report at the executor output.\<close>

definition step_trigger :: "proc \<Rightarrow> store \<Rightarrow> cs_move" where
  "step_trigger p s =
     (p \<lparr>stage := Fired,
         cs_result := obj_set ''trigger_dispatch_attempted'' (JBool True) (cs_result p)\<rparr>,
      (case executor_report (cs_env p) of
         FileJson v \<Rightarrow> if s (executor_output (cs_plan p)) = None
           then s(executor_output (cs_plan p) \<mapsto> v) else s
       | _ \<Rightarrow> s),
      [RanTrigger (intent_path p) (claim_path p) (resolved_trigger p)])"

definition executor_contract :: "json \<Rightarrow> bool" where
  "executor_contract v \<longleftrightarrow> (case v of
       JObj r \<Rightarrow>
         py_eq (obj_get r ''EXECUTOR_GATE'') (JStr ''PASS'') \<and>
         py_eq (obj_get r ''CONTROL_EXECUTED'') (JStr ''YES'') \<and>
         py_eq (obj_get r ''SCIENTIFIC_TRIGGER_CONSUMED'') (JStr ''YES'') \<and>
         py_eq (obj_get r ''TRIGGER_WRITE_ATTEMPT_COUNT'') (JInt 1) \<and>
         py_eq (obj_get r ''TRIGGER_WRITE_SUCCESS_COUNT'') (JInt 1) \<and>
         py_eq (obj_get r ''EXECUTOR_START_SAMPLE_AGE_GATE'') (JStr ''PASS'')
     | _ \<Rightarrow> False)"

definition read_executor_report :: "loaded \<Rightarrow> unit result" where
  "read_executor_report f = (case f of
       FileJson v \<Rightarrow> require (executor_contract v) ''TRIGGER_EXECUTOR_CONTRACT_NOT_PASS''
     | FileRaises t \<Rightarrow> if t = ''UnicodeDecodeError'' then Inl (PyExn t)
         else Inl (Domain ''TRIGGER_OUTCOME_MISSING_OR_INVALID'')
     | FileMissing \<Rightarrow> Inl (Domain ''TRIGGER_OUTCOME_MISSING_OR_INVALID''))"

definition step_confirm :: "proc \<Rightarrow> store \<Rightarrow> cs_move" where
  "step_confirm p s =
     (case bindE (run_child (trigger_child (cs_env p)) ''TRIGGER'')
             (\<lambda>_. read_executor_report (executor_report (cs_env p))) of
        Inl e \<Rightarrow> (fail_with p e, s, [])
      | Inr _ \<Rightarrow> (p \<lparr>stage := Closing,
          cs_result := obj_update (cs_result p) [
            (''state'', JStr ''TRIGGER_CONFIRMED_AWAITING_READBACK''),
            (''trigger_execution_confirmed'', JBool True),
            (''readback_window_start_utc'', JStr (readback_start (cs_env p)))],
          verdict := Inr (obj_set ''readback_window_start_utc''
            (JStr (readback_start (cs_env p))) (stationarity p))\<rparr>, s, []))"

text \<open>The \<open>finally\<close>: the outcome is written exclusively; a failure replaces the verdict.\<close>

definition step_close :: "proc \<Rightarrow> store \<Rightarrow> cs_move" where
  "step_close p s = (case write_exclusive (outcome_path p) (JObj (cs_result p))
                           (outcome_error (cs_env p)) s of
       (s', Inl e) \<Rightarrow> (stop_with p e, s', [])
     | (s', Inr _) \<Rightarrow> (p \<lparr>stage := Ended\<rparr>, s', []))"

definition cs_step :: "proc \<Rightarrow> store \<Rightarrow> cs_move" where
  "cs_step p s = (case stage p of
       Begin \<Rightarrow> step_check p s
     | Checked \<Rightarrow> step_intent p s
     | IntentHeld \<Rightarrow> step_claim p s
     | ClaimHeld \<Rightarrow> step_precontrol p s
     | PreDone \<Rightarrow> step_ratio p s
     | RatioDone \<Rightarrow> step_trigger p s
     | Fired \<Rightarrow> step_confirm p s
     | Closing \<Rightarrow> step_close p s
     | Ended \<Rightarrow> (p, s, []))"

text \<open>A crash loses the process, not the files.\<close>

definition cs_crash :: "proc \<Rightarrow> proc" where
  "cs_crash p = stop_with p (PyExn ''crash'')"

definition new_proc :: "t2_plan \<Rightarrow> cs_env \<Rightarrow> string \<Rightarrow> proc" where
  "new_proc plan env op = \<lparr>cs_plan = plan, cs_env = env, operation_id = op, stage = Begin,
     cs_result = [], stationarity = [], verdict = Inl (PyExn ''running'')\<rparr>"

text \<open>Eight steps lead from the beginning to the end on every path.\<close>

definition run_live :: "t2_plan \<Rightarrow> cs_env \<Rightarrow> string \<Rightarrow> store \<Rightarrow> obj result \<times> store \<times> cs_event list" where
  "run_live plan env op s = (case iterate cs_step 8 (new_proc plan env op) s of
     (p, s', es) \<Rightarrow> (verdict p, s', es))"

subsection \<open>The command\<close>

definition id_char :: "char \<Rightarrow> bool" where
  "id_char c \<longleftrightarrow> (let n = (of_char c :: nat) in
     is_digit c \<or> (65 \<le> n \<and> n \<le> 90) \<or> (97 \<le> n \<and> n \<le> 122))"

text \<open>\<open>re.fullmatch(r"[A-Za-z0-9][A-Za-z0-9._:-]{7,127}", s)\<close>.\<close>

definition operation_id_ok :: "string \<Rightarrow> bool" where
  "operation_id_ok s \<longleftrightarrow> 8 \<le> length s \<and> length s \<le> 128 \<and> id_char (hd s) \<and>
     list_all (\<lambda>c. id_char c \<or> c \<in> set ''._:-'') (tl s)"

record cs_args =
  live_mode :: bool
  op_id :: "string option"
  live_token :: "string option"
  control_token :: "string option"
  interlock :: "string option"

definition live_authorised :: "cs_args \<Rightarrow> bool" where
  "live_authorised a \<longleftrightarrow> live_token a = Some LIVE_TOKEN \<and> control_token a = Some CONTROL_TOKEN \<and>
     interlock a = Some ''YES'' \<and>
     (case op_id a of None \<Rightarrow> True | Some s \<Rightarrow> operation_id_ok s)"

definition given :: "string option \<Rightarrow> bool" where
  "given s \<longleftrightarrow> s \<noteq> None \<and> s \<noteq> Some []"

definition os_error :: "string \<Rightarrow> bool" where
  "os_error t \<longleftrightarrow> t \<in> {''OSError'', ''FileExistsError'', ''FileNotFoundError'',
     ''PermissionError'', ''NotADirectoryError'', ''IsADirectoryError'', ''BlockingIOError'',
     ''InterruptedError'', ''TimeoutError''}"

definition cs_exit :: "'a result \<Rightarrow> int result" where
  "cs_exit v = (case v of
       Inr _ \<Rightarrow> Inr 0
     | Inl (PyExn t) \<Rightarrow> if os_error t then Inr 70 else Inl (PyExn t)
     | Inl _ \<Rightarrow> Inr 70)"

definition cs_main :: "checkout \<Rightarrow> loaded \<Rightarrow> cs_args \<Rightarrow> string \<Rightarrow> cs_env \<Rightarrow> store \<Rightarrow>
    int result \<times> store \<times> cs_event list" where
  "cs_main co file a fresh_id env s = (case load_t2_plan co file of
       Inl e \<Rightarrow> (cs_exit (Inl e), s, [])
     | Inr plan \<Rightarrow>
         if \<not> live_mode a
         then (cs_exit (require (\<not> (given (live_token a) \<or> given (control_token a)))
                 ''INSPECT_REJECTS_LIVE_AUTHORIZATION''), s, [])
         else if \<not> live_authorised a
         then (cs_exit (Inl (Domain ''T2_LIVE_AUTHORIZATION_INVALID'')), s, [])
         else (case run_live plan env (case op_id a of None \<Rightarrow> ''prompt12-t2-'' @ fresh_id
                   | Some i \<Rightarrow> i) s of
            (v, s', es) \<Rightarrow> (cs_exit v, s', es)))"

subsection \<open>Both exclusive files make the trigger a one-shot effect\<close>

definition holds_intent :: "path \<Rightarrow> proc \<Rightarrow> bool" where
  "holds_intent q p \<longleftrightarrow> stage p \<in> {IntentHeld, ClaimHeld, PreDone, RatioDone} \<and> intent_path p = q"

definition holds_claim :: "path \<Rightarrow> proc \<Rightarrow> bool" where
  "holds_claim q p \<longleftrightarrow> stage p \<in> {ClaimHeld, PreDone, RatioDone} \<and> claim_path p = q"

definition triggers_run :: "path \<Rightarrow> cs_event \<Rightarrow> bool" where
  "triggers_run q e \<longleftrightarrow> (case e of RanTrigger i c argv \<Rightarrow> i = q | _ \<Rightarrow> False)"

definition triggers_operation :: "path \<Rightarrow> cs_event \<Rightarrow> bool" where
  "triggers_operation q e \<longleftrightarrow> (case e of RanTrigger i c argv \<Rightarrow> c = q | _ \<Rightarrow> False)"

lemma intent_path_simps [simp]:
  "intent_path (p \<lparr>stage := x\<rparr>) = intent_path p"
  "intent_path (p \<lparr>stage := x, cs_result := r\<rparr>) = intent_path p"
  "intent_path (p \<lparr>stage := x, stationarity := r\<rparr>) = intent_path p"
  "intent_path (p \<lparr>stage := x, verdict := v\<rparr>) = intent_path p"
  "intent_path (p \<lparr>stage := x, verdict := v, cs_result := r\<rparr>) = intent_path p"
  "claim_path (p \<lparr>stage := x\<rparr>) = claim_path p"
  "claim_path (p \<lparr>stage := x, cs_result := r\<rparr>) = claim_path p"
  "claim_path (p \<lparr>stage := x, stationarity := r\<rparr>) = claim_path p"
  "claim_path (p \<lparr>stage := x, verdict := v\<rparr>) = claim_path p"
  "claim_path (p \<lparr>stage := x, verdict := v, cs_result := r\<rparr>) = claim_path p"
  by (simp_all add: intent_path_def claim_path_def)

lemma write_exclusive_cases:
  assumes "write_exclusive q v err s = (s', r)"
  shows "s' = s \<and> s q \<noteq> None \<and> r = Inl (PyExn ''FileExistsError'') \<or>
    s' = s(q \<mapsto> v) \<and> s q = None"
  using assms by (auto simp: write_exclusive_def split: if_splits)

text \<open>What a step may do, as far as the two files and the trigger are concerned.\<close>

definition no_trigger :: "cs_event list \<Rightarrow> bool" where
  "no_trigger es \<longleftrightarrow> list_all (\<lambda>e. case e of RanTrigger i c argv \<Rightarrow> False | _ \<Rightarrow> True) es"

definition cs_shape :: "proc \<Rightarrow> store \<Rightarrow> proc \<Rightarrow> store \<Rightarrow> cs_event list \<Rightarrow> bool" where
  "cs_shape p s p' s' es \<longleftrightarrow>
     intent_path p' = intent_path p \<and> claim_path p' = claim_path p \<and>
     (\<forall>q. s q \<noteq> None \<longrightarrow> s' q \<noteq> None) \<and>
     (stage p' = IntentHeld \<longrightarrow> s (intent_path p) = None \<and> s' (intent_path p) \<noteq> None) \<and>
     (stage p' = ClaimHeld \<longrightarrow>
        stage p = IntentHeld \<and> s (claim_path p) = None \<and> s' (claim_path p) \<noteq> None) \<and>
     (stage p' = PreDone \<longrightarrow> stage p = ClaimHeld) \<and>
     (stage p' = RatioDone \<longrightarrow> stage p = PreDone) \<and>
     (no_trigger es \<or> stage p = RatioDone \<and> stage p' = Fired \<and>
        es = [RanTrigger (intent_path p) (claim_path p) (resolved_trigger p)])"

lemma shape_check: "step_check p s = (p', s', es) \<Longrightarrow> stage p = Begin \<Longrightarrow> cs_shape p s p' s' es"
  by (auto simp: step_check_def stop_with_def cs_shape_def no_trigger_def split: if_splits)

lemma shape_intent: "step_intent p s = (p', s', es) \<Longrightarrow> stage p = Checked \<Longrightarrow> cs_shape p s p' s' es"
  using write_exclusive_cases [of "intent_path p" "intent_record p" "intent_error (cs_env p)" s]
  by (fastforce simp: step_intent_def stop_with_def cs_shape_def no_trigger_def
    split: prod.splits sum.splits)

lemma shape_claim: "step_claim p s = (p', s', es) \<Longrightarrow> stage p = IntentHeld \<Longrightarrow> cs_shape p s p' s' es"
  using write_exclusive_cases [of "claim_path p" "claim_record p" "claim_error (cs_env p)" s]
  by (fastforce simp: step_claim_def stop_with_def cs_shape_def no_trigger_def
    split: prod.splits sum.splits option.splits if_splits)

lemma shape_precontrol:
  "step_precontrol p s = (p', s', es) \<Longrightarrow> stage p = ClaimHeld \<Longrightarrow> cs_shape p s p' s' es"
  by (auto simp: step_precontrol_def fail_with_def cs_shape_def no_trigger_def
    split: sum.splits simp del: bindE_Inr_iff)

lemma shape_ratio: "step_ratio p s = (p', s', es) \<Longrightarrow> stage p = PreDone \<Longrightarrow> cs_shape p s p' s' es"
  by (auto simp: step_ratio_def fail_with_def cs_shape_def no_trigger_def
    split: sum.splits simp del: bindE_Inr_iff)

lemma shape_trigger: "step_trigger p s = (p', s', es) \<Longrightarrow> stage p = RatioDone \<Longrightarrow> cs_shape p s p' s' es"
  by (auto simp: step_trigger_def cs_shape_def no_trigger_def split: loaded.splits)

lemma shape_confirm: "step_confirm p s = (p', s', es) \<Longrightarrow> stage p = Fired \<Longrightarrow> cs_shape p s p' s' es"
  by (auto simp: step_confirm_def fail_with_def cs_shape_def no_trigger_def intent_path_def
    claim_path_def
    split: sum.splits simp del: bindE_Inr_iff)

lemma shape_close: "step_close p s = (p', s', es) \<Longrightarrow> stage p = Closing \<Longrightarrow> cs_shape p s p' s' es"
  using write_exclusive_cases [of "outcome_path p" "JObj (cs_result p)" "outcome_error (cs_env p)" s]
  by (fastforce simp: step_close_def stop_with_def cs_shape_def no_trigger_def
    split: prod.splits sum.splits)

lemmas step_shapes = shape_check shape_intent shape_claim shape_precontrol shape_ratio
  shape_trigger shape_confirm shape_close

lemma cs_step_shape: "cs_step p s = (p', s', es) \<Longrightarrow> cs_shape p s p' s' es"
  by (cases "stage p") (auto simp: cs_step_def cs_shape_def [of p' s' p' s' "[]"] no_trigger_def
    intro: step_shapes)

lemma intent_budget:
  assumes "cs_step p s = (p', s', es)"
  shows "of_bool (holds_intent q p') + of_bool (s' q = None) + tally (triggers_run q) es
    \<le> of_bool (holds_intent q p) + (of_bool (s q = None) :: nat)"
proof -
  have sh: "cs_shape p s p' s' es" by (rule cs_step_shape [OF assms])
  show ?thesis
  proof (cases "no_trigger es")
    case True
    then have "tally (triggers_run q) es = 0"
      by (auto simp: tally_def no_trigger_def list_all_iff triggers_run_def filter_empty_conv
        split: cs_event.splits)
    with sh show ?thesis by (auto simp: cs_shape_def holds_intent_def)
  next
    case False
    with sh show ?thesis
      by (auto simp: cs_shape_def holds_intent_def tally_def triggers_run_def)
  qed
qed

lemma claim_budget:
  assumes "cs_step p s = (p', s', es)"
  shows "of_bool (holds_claim q p') + of_bool (s' q = None) + tally (triggers_operation q) es
    \<le> of_bool (holds_claim q p) + (of_bool (s q = None) :: nat)"
proof -
  have sh: "cs_shape p s p' s' es" by (rule cs_step_shape [OF assms])
  show ?thesis
  proof (cases "no_trigger es")
    case True
    then have "tally (triggers_operation q) es = 0"
      by (auto simp: tally_def no_trigger_def list_all_iff triggers_operation_def filter_empty_conv
        split: cs_event.splits)
    with sh show ?thesis by (auto simp: cs_shape_def holds_claim_def)
  next
    case False
    with sh show ?thesis
      by (auto simp: cs_shape_def holds_claim_def tally_def triggers_operation_def)
  qed
qed

interpretation run_scope: one_shot cs_step cs_crash "holds_intent q" "\<lambda>s. s q = None"
  "triggers_run q" for q
  by (unfold_locales, erule intent_budget, simp add: holds_intent_def cs_crash_def stop_with_def)

interpretation operation_scope: one_shot cs_step cs_crash "holds_claim q" "\<lambda>s. s q = None"
  "triggers_operation q" for q
  by (unfold_locales, erule claim_budget, simp add: holds_claim_def cs_crash_def stop_with_def)

subsection \<open>Properties\<close>

lemmas cs_unfold = cs_step_def step_check_def step_intent_def step_claim_def step_precontrol_def
  step_ratio_def step_trigger_def step_confirm_def step_close_def stop_with_def fail_with_def

text \<open>C11: however many invocations of the critical section run at the same time, in whatever
  interleaving, and however many of them crash at whatever point, the trigger of one run (the
  processes with the same intent file) is dispatched at most once, and never when the run's
  intent file existed before; and the same holds of one operation id and its claim file.\<close>

theorem trigger_dispatched_at_most_once:
  assumes "interleaved cs_step cs_crash (ps0, s0, []) (ps, s, es)"
    and "\<forall>p \<in> set ps0. stage p = Begin"
  shows "tally (triggers_run q) es \<le> (if s0 q = None then 1 else 0) \<and>
    tally (triggers_operation c) es \<le> (if s0 c = None then 1 else 0)"
proof
  show "tally (triggers_run q) es \<le> (if s0 q = None then 1 else 0)"
    by (rule run_scope.guarded.at_most_once [OF assms(1)]) (use assms(2) in \<open>auto simp: holds_intent_def\<close>)
  show "tally (triggers_operation c) es \<le> (if s0 c = None then 1 else 0)"
    by (rule operation_scope.guarded.at_most_once [OF assms(1)])
      (use assms(2) in \<open>auto simp: holds_claim_def\<close>)
qed

text \<open>A single run, step by step: the stages a run has gone through when it is at a stage, and
  what they left behind.\<close>

definition stage_rank :: "stage \<Rightarrow> nat" where
  "stage_rank x = (case x of Begin \<Rightarrow> 0 | Checked \<Rightarrow> 1 | IntentHeld \<Rightarrow> 2 | ClaimHeld \<Rightarrow> 3
     | PreDone \<Rightarrow> 4 | RatioDone \<Rightarrow> 5 | Fired \<Rightarrow> 6 | Closing \<Rightarrow> 7 | Ended \<Rightarrow> 8)"

lemma cs_step_rank:
  "cs_step p s = (p', s', es) \<Longrightarrow> stage p \<noteq> Ended \<Longrightarrow> stage_rank (stage p) < stage_rank (stage p')"
  by (cases "stage p")
    (auto simp: cs_unfold
      stage_rank_def simp del: bindE_Inr_iff
      split: if_splits prod.splits sum.splits option.splits)

lemma cs_step_Ended: "stage p = Ended \<Longrightarrow> cs_step p s = (p, s, [])"
  by (simp add: cs_step_def)

lemma stage_rank_le: "stage_rank x \<le> 8"
  by (cases x) (simp_all add: stage_rank_def)

lemma stage_rank_8: "8 \<le> stage_rank x \<Longrightarrow> x = Ended"
  by (cases x) (simp_all add: stage_rank_def)

lemma iterate_cs_rank:
  "iterate cs_step n p s = (p', s', es) \<Longrightarrow>
   min 8 (stage_rank (stage p) + n) \<le> stage_rank (stage p')"
proof (induction n arbitrary: p s es)
  case 0
  then show ?case by simp
next
  case (Suc n)
  obtain q t e1 where st: "cs_step p s = (q, t, e1)" by (cases "cs_step p s")
  obtain e2 where it: "iterate cs_step n q t = (p', s', e2)"
    using Suc.prems st by (auto split: prod.splits)
  show ?case
  proof (cases "stage p = Ended")
    case True
    with st have "stage q = Ended" by (simp add: cs_step_Ended)
    with Suc.IH [OF it] True show ?thesis by (simp add: stage_rank_def)
  next
    case False
    with cs_step_rank [OF st] Suc.IH [OF it] show ?thesis by simp
  qed
qed


text \<open>The gates a trigger rests on.\<close>

definition precontrol_passed :: "cs_env \<Rightarrow> bool" where
  "precontrol_passed env \<longleftrightarrow> (\<exists>out ob. precontrol_child env = ChildExit 0 out (Some (JObj ob)) \<and>
     list_all (\<lambda>k. py_eq (obj_get ob k) (JStr ''PASS'')) STATIONARITY_GATES)"

definition ratio_passed :: "cs_env \<Rightarrow> bool" where
  "ratio_passed env \<longleftrightarrow> (\<exists>out js. ratio_child env = ChildExit 0 out js \<and>
     ''RATIO_BOUND=PASS'' \<in> set (splitlines out))"

lemma run_child_Inr: "run_child c l = Inr (out, js) \<longleftrightarrow> c = ChildExit 0 out js"
  by (auto simp: run_child_def split: child.splits if_splits)

lemma stationarity_pass_Inr:
  "stationarity_pass js = Inr ob \<longleftrightarrow> js = Some (JObj ob) \<and>
     list_all (\<lambda>k. py_eq (obj_get ob k) (JStr ''PASS'')) STATIONARITY_GATES"
  by (auto simp: stationarity_pass_def split: option.splits json.splits if_splits)

definition gates_so_far :: "proc \<Rightarrow> bool" where
  "gates_so_far p \<longleftrightarrow>
     (stage p \<in> {PreDone, RatioDone} \<longrightarrow> precontrol_passed (cs_env p)) \<and>
     (stage p = RatioDone \<longrightarrow> ratio_passed (cs_env p))"

lemma cs_step_gates:
  assumes "cs_step p s = (p', s', es)" and "gates_so_far p"
  shows "gates_so_far p' \<and> cs_env p' = cs_env p \<and>
    (\<not> no_trigger es \<longrightarrow> precontrol_passed (cs_env p) \<and> ratio_passed (cs_env p))"
proof -
  have "cs_env p' = cs_env p"
    using assms(1) by (cases "stage p")
      (auto simp: cs_unfold
        simp del: bindE_Inr_iff split: if_splits prod.splits sum.splits option.splits)
  moreover have "stage p' = PreDone \<Longrightarrow> precontrol_passed (cs_env p)"
    using assms(1) by (cases "stage p")
      (auto simp: cs_unfold
        precontrol_passed_def run_child_Inr stationarity_pass_Inr
        split: if_splits prod.splits sum.splits option.splits)
  moreover have "stage p' = RatioDone \<Longrightarrow> stage p = PreDone \<and> ratio_passed (cs_env p)"
    using assms(1) by (cases "stage p")
      (auto simp: cs_unfold
        ratio_passed_def run_child_Inr
        split: if_splits prod.splits sum.splits option.splits)
  moreover have "\<not> no_trigger es \<Longrightarrow> stage p = RatioDone"
    using cs_step_shape [OF assms(1)] by (auto simp: cs_shape_def)
  ultimately show ?thesis using assms(2) by (auto simp: gates_so_far_def)
qed

text \<open>C13: a live run dispatches the trigger only after the precontrol child ended with code 0
  and a report whose three stationarity gates are \<open>PASS\<close>, and the ratio child ended with code 0
  and printed its \<open>RATIO_BOUND=PASS\<close> line.\<close>

theorem trigger_needs_passed_gates:
  assumes "run_live plan env op s = (v, s', es)" and "RanTrigger i c argv \<in> set es"
  shows "precontrol_passed env \<and> ratio_passed env"
proof -
  obtain p where it: "iterate cs_step 8 (new_proc plan env op) s = (p, s', es)"
    using assms(1) by (auto simp: run_live_def split: prod.splits)
  have "\<forall>e \<in> set es. (case e of RanTrigger i c argv \<Rightarrow> precontrol_passed env \<and> ratio_passed env
      | _ \<Rightarrow> True)"
  proof (rule conjunct2 [OF iterate_invariant [OF it, where
        I = "\<lambda>p. gates_so_far p \<and> cs_env p = env"]])
    show "gates_so_far (new_proc plan env op) \<and> cs_env (new_proc plan env op) = env"
      by (simp add: gates_so_far_def new_proc_def)
  next
    fix p s p' s' es
    assume st: "cs_step p s = (p', s', es)" and inv: "gates_so_far p \<and> cs_env p = env"
    from cs_step_gates [OF st] inv have g: "gates_so_far p' \<and> cs_env p' = cs_env p \<and>
      (\<not> no_trigger es \<longrightarrow> precontrol_passed (cs_env p) \<and> ratio_passed (cs_env p))" by blast
    have "\<forall>e \<in> set es. (case e of RanTrigger i c argv \<Rightarrow> precontrol_passed env \<and> ratio_passed env
      | _ \<Rightarrow> True)"
    proof (cases "no_trigger es")
      case True
      then show ?thesis by (auto simp: no_trigger_def list_all_iff split: cs_event.splits)
    next
      case False
      with g inv show ?thesis by (auto split: cs_event.splits)
    qed
    with g inv show "(gates_so_far p' \<and> cs_env p' = env) \<and> (\<forall>e \<in> set es.
      (case e of RanTrigger i c argv \<Rightarrow> precontrol_passed env \<and> ratio_passed env | _ \<Rightarrow> True))"
      by simp
  qed
  with assms(2) show ?thesis by fastforce
qed

text \<open>What an undisturbed run needs from the machine.\<close>

definition undisturbed :: "cs_env \<Rightarrow> bool" where
  "undisturbed env \<longleftrightarrow> control_dir_ok env \<and> intent_error env = None \<and> \<not> claims_symlink env \<and>
     claims_error env = None \<and> claims_dir_ok env \<and> claim_error env = None \<and>
     outcome_error env = None \<and> (\<exists>out js. trigger_child env = ChildExit 0 out js) \<and>
     (\<exists>v. executor_report env = FileJson v \<and> executor_contract v)"

definition run_files :: "path \<Rightarrow> string \<Rightarrow> path list" where
  "run_files run op = [child_path run [''control'', ''T2.trigger-intent.json''],
     child_path run [''control'', ''T2.critical-outcome.json''],
     child_path run [''control'', ''T2.executor.json''],
     child_path (parent (parent run)) [''.t2-operation-claims'', op @ ''.json'']]"

lemma child_path_neqs [simp]:
  "child_path p [''.t2-operation-claims'', b] \<noteq> child_path q [''control'', d]"
  "child_path q [''control'', d] \<noteq> child_path p [''.t2-operation-claims'', b]"
  by (simp_all add: child_path_neq)


lemma undisturbed_iterate:
  assumes "executor_output plan = child_path run [''control'', ''T2.executor.json'']"
    and "undisturbed env" and "precontrol_passed env" and "ratio_passed env"
    and "\<forall>q \<in> set (run_files run op). s q = None"
  shows "\<exists>ob s' r p. iterate cs_step 8 (new_proc plan env op) s = (p, s',
       [RanPrecontrol, RanRatio, RanTrigger
          (child_path run [''control'', ''T2.trigger-intent.json''])
          (child_path (parent (parent run)) [''.t2-operation-claims'', op @ ''.json''])
          (map (\<lambda>x. if x = CONTROL_PLACEHOLDER then CONTROL_TOKEN else x) (trigger_cmd plan))]) \<and>
    verdict p = Inr (obj_set ''readback_window_start_utc'' (JStr (readback_start env)) ob) \<and>
    (\<forall>q \<in> set (run_files run op). s' q \<noteq> None) \<and>
    s' (child_path run [''control'', ''T2.critical-outcome.json'']) = Some (JObj r) \<and>
    obj_get r ''trigger_execution_confirmed'' = JBool True"
proof -
  from assms(3) obtain out ob where pre: "precontrol_child env = ChildExit 0 out (Some (JObj ob))"
    "list_all (\<lambda>k. py_eq (obj_get ob k) (JStr ''PASS'')) STATIONARITY_GATES"
    by (auto simp: precontrol_passed_def)
  from assms(4) obtain rout rjs where ratio: "ratio_child env = ChildExit 0 rout rjs"
    "''RATIO_BOUND=PASS'' \<in> set (splitlines rout)" by (auto simp: ratio_passed_def)
  from assms(2) obtain tout tjs v where trig: "trigger_child env = ChildExit 0 tout tjs"
    "executor_report env = FileJson v" "executor_contract v" by (auto simp: undisturbed_def)
  note files = assms(5) [unfolded run_files_def, simplified]
  have e8: "8 = Suc (Suc (Suc (Suc (Suc (Suc (Suc (Suc 0)))))))" by simp
  show ?thesis
    using assms(1,2) pre ratio trig files
    by (simp add: new_proc_def resolved_trigger_def e8 cs_unfold write_exclusive_def intent_path_def
      outcome_path_def claim_path_def undisturbed_def run_child_def stationarity_pass_def
      read_executor_report_def run_files_def obj_get_update del: One_nat_def) blast
qed



subsection \<open>A sample run\<close>

definition sample_run_root :: path where
  "sample_run_root = \<lparr>root = ''/'', parts = [''e'', ''x'', ''r'']\<rparr>"

definition sample_plan :: t2_plan where
  "sample_plan = \<lparr>pre_cmd = [], ratio_cmd = [], trigger_cmd = [CONTROL_PLACEHOLDER],
     executor_output = child_path sample_run_root [''control'', ''T2.executor.json'']\<rparr>"

definition sample_executor_report :: json where
  "sample_executor_report = JObj [
     (''EXECUTOR_GATE'', JStr ''PASS''), (''CONTROL_EXECUTED'', JStr ''YES''),
     (''SCIENTIFIC_TRIGGER_CONSUMED'', JStr ''YES''), (''TRIGGER_WRITE_ATTEMPT_COUNT'', JInt 1),
     (''TRIGGER_WRITE_SUCCESS_COUNT'', JInt 1), (''EXECUTOR_START_SAMPLE_AGE_GATE'', JStr ''PASS'')]"

definition sample_cs_env :: cs_env where
  "sample_cs_env = \<lparr>control_dir_ok = True, started_utc = ''t'', intent_error = None,
     claims_symlink = False, claims_error = None, claims_dir_ok = True, claim_error = None,
     precontrol_child = ChildExit 0 [] (Some (JObj (map (\<lambda>k. (k, JStr ''PASS'')) STATIONARITY_GATES))),
     ratio_child = ChildExit 0 ''RATIO_BOUND=PASS'' None, readback_start = ''r'',
     trigger_child = ChildExit 0 [] None, executor_report = FileJson sample_executor_report,
     outcome_error = None\<rparr>"

lemma sample_gates: "undisturbed sample_cs_env" "precontrol_passed sample_cs_env"
  "ratio_passed sample_cs_env"
  by (simp_all add: undisturbed_def precontrol_passed_def ratio_passed_def sample_cs_env_def
    executor_contract_def sample_executor_report_def STATIONARITY_GATES_def splitlines_def
    is_eol_def)

lemma sample_output:
  "executor_output sample_plan = child_path sample_run_root [''control'', ''T2.executor.json'']"
  by (simp add: sample_plan_def)

abbreviation sample_intent :: path where
  "sample_intent \<equiv> child_path sample_run_root [''control'', ''T2.trigger-intent.json'']"


lemma sample_trace:
  "\<exists>p s' c argv. iterate cs_step 8 (new_proc sample_plan sample_cs_env ''op-00001'') Map.empty =
     (p, s', [RanPrecontrol, RanRatio, RanTrigger sample_intent c argv])"
  using undisturbed_iterate [OF sample_output sample_gates, of "''op-00001''" Map.empty] by auto

text \<open>Two invocations of the same plan: one of the interleavings triggers, and the bound is met.\<close>

theorem trigger_dispatched_at_most_once_witness:
  "\<exists>ps s es. interleaved cs_step cs_crash
      (replicate 2 (new_proc sample_plan sample_cs_env ''op-00001''), Map.empty, []) (ps, s, es) \<and>
     tally (triggers_run sample_intent) es = 1 \<and> tally (triggers_run sample_intent) es \<le> 1"
proof -
  let ?ps = "replicate 2 (new_proc sample_plan sample_cs_env ''op-00001'')"
  obtain p s' c argv where
    "iterate cs_step 8 (?ps ! 0) Map.empty =
       (p, s', [RanPrecontrol, RanRatio, RanTrigger sample_intent c argv])"
    using sample_trace by auto
  from interleaved_iterate [OF interleaved.start _ this, where crash = cs_crash and es = "[]"]
  obtain ps' where
    i: "interleaved cs_step cs_crash (?ps, Map.empty, [])
      (ps', s', [RanPrecontrol, RanRatio, RanTrigger sample_intent c argv])"
    by (metis append_Nil length_replicate zero_less_numeral)
  have "\<forall>p \<in> set ?ps. stage p = Begin" by (simp add: new_proc_def)
  from trigger_dispatched_at_most_once [OF i this, of sample_intent] i show ?thesis
    by (intro exI conjI) (auto simp: tally_def triggers_run_def)
qed

theorem trigger_needs_passed_gates_witness:
  "precontrol_passed sample_cs_env \<and> ratio_passed sample_cs_env"
proof -
  obtain p s' c argv where it:
    "iterate cs_step 8 (new_proc sample_plan sample_cs_env ''op-00001'') Map.empty =
     (p, s', [RanPrecontrol, RanRatio, RanTrigger sample_intent c argv])"
    using sample_trace by blast
  then have "run_live sample_plan sample_cs_env ''op-00001'' Map.empty =
    (verdict p, s', [RanPrecontrol, RanRatio, RanTrigger sample_intent c argv])"
    by (simp add: run_live_def)
  from trigger_needs_passed_gates [OF this] show ?thesis by simp
qed

end
