(* ===== verification/Actuator_Timeline.thy ===== *)
theory Actuator_Timeline
  imports Py_Json
begin

section \<open>The actuator timeline builder\<close>

text \<open>
  \<^verbatim>\<open>scripts/experiment-harness/build-actuator-timeline.py\<close>: from the log lines of the RIC
  command, of the gNB's applied readback and of the acknowledgement, build one triplet of
  events per requested ratio, with exact integer timestamps.  A row of a timeline is the record
  \<open>actuator_event\<close>, a field that is null or missing being \<open>None\<close>; what the JSON schema accepts
  is a parameter.
\<close>

named_theorems timeline_simps \<open>building and reading timelines\<close>

subsection \<open>Events\<close>

record actuator_event =
  ev_experiment :: string
  ev_run :: string
  ev_record :: string
  ev_ts :: int
  ev_type :: string
  ev_ratio :: "int option"
  ev_min :: "int option"
  ev_max :: "int option"
  ev_ack :: "string option"

definition PROMPT12_RATIO_TO_PRBS :: "(int \<times> int) list" where
  "PROMPT12_RATIO_TO_PRBS = [(25, 13), (50, 26), (75, 39), (100, 52)]"

definition COMMAND_MARKER :: string where "COMMAND_MARKER = ''E42_RIC_CONTROL_REQUEST rx''"

definition APPLIED_MARKER :: string where "APPLIED_MARKER = ''PRB_ACTUATOR_APPLIED''"

definition ACK_MARKER :: string where "ACK_MARKER = ''CONTROL ACKNOWLEDGE rx''"

subsection \<open>Input files\<close>

datatype text_file = TextMissing | TextRaises string | TextFile string

definition read_lines :: "text_file \<Rightarrow> string list result" where
  "read_lines f = (case f of
       TextMissing \<Rightarrow> Inl (Domain ''input file missing'')
     | TextRaises t \<Rightarrow> Inl (PyExn t)
     | TextFile s \<Rightarrow> Inr (splitlines s))"

definition matching_lines :: "text_file \<Rightarrow> string \<Rightarrow> string list result" where
  "matching_lines f marker = bindE (read_lines f) (\<lambda>ls. Inr (filter (contains marker) ls))"

subsection \<open>Timestamps\<close>

record stamp =
  year :: nat
  month :: nat
  day :: nat
  hour :: nat
  minute :: nat
  second :: nat
  fraction :: string

definition digits_at :: "nat \<Rightarrow> string \<Rightarrow> (nat \<times> string) option" where
  "digits_at n s = (if length (take n s) = n \<and> list_all is_digit (take n s)
     then Some (nat_of_digits (take n s), drop n s) else None)"

definition char_at :: "char \<Rightarrow> string \<Rightarrow> string option" where
  "char_at c s = (case s of d # r \<Rightarrow> if d = c then Some r else None | [] \<Rightarrow> None)"

text \<open>\<open>TIMESTAMP_RE.match\<close>: the fraction is optional and takes every digit after the point; the
  trailing \<open>Z\<close> is optional and nothing depends on it.\<close>

definition match_timestamp :: "string \<Rightarrow> stamp option" where
  "match_timestamp s =
     Option.bind (digits_at 4 s) (\<lambda>(y, s). Option.bind (char_at (CHR ''-'') s) (\<lambda>s.
     Option.bind (digits_at 2 s) (\<lambda>(mo, s). Option.bind (char_at (CHR ''-'') s) (\<lambda>s.
     Option.bind (digits_at 2 s) (\<lambda>(d, s). Option.bind (char_at (CHR ''T'') s) (\<lambda>s.
     Option.bind (digits_at 2 s) (\<lambda>(h, s). Option.bind (char_at (CHR '':'') s) (\<lambda>s.
     Option.bind (digits_at 2 s) (\<lambda>(mi, s). Option.bind (char_at (CHR '':'') s) (\<lambda>s.
     Option.bind (digits_at 2 s) (\<lambda>(sec, s).
       Some \<lparr>year = y, month = mo, day = d, hour = h, minute = mi, second = sec,
         fraction = (case char_at (CHR ''.'') s of None \<Rightarrow> [] | Some r \<Rightarrow> takeWhile is_digit r)\<rparr>)))))))))))"

definition leap :: "nat \<Rightarrow> bool" where
  "leap y \<longleftrightarrow> 4 dvd y \<and> (\<not> 100 dvd y \<or> 400 dvd y)"

definition days_in_month :: "nat \<Rightarrow> nat \<Rightarrow> nat" where
  "days_in_month y m = (if m = 2 then (if leap y then 29 else 28)
     else if m \<in> {4, 6, 9, 11} then 30 else 31)"

definition days_before_year :: "nat \<Rightarrow> int" where
  "days_before_year y = (let k = int y - 1 in k * 365 + k div 4 - k div 100 + k div 400)"

definition days_before_month :: "nat \<Rightarrow> nat \<Rightarrow> nat" where
  "days_before_month y m = sum_list (map (days_in_month y) [1..<m])"

text \<open>What \<open>datetime\<close> accepts.\<close>

definition valid_stamp :: "stamp \<Rightarrow> bool" where
  "valid_stamp t \<longleftrightarrow> 1 \<le> year t \<and> year t \<le> 9999 \<and> 1 \<le> month t \<and> month t \<le> 12 \<and>
     1 \<le> day t \<and> day t \<le> days_in_month (year t) (month t) \<and>
     hour t \<le> 23 \<and> minute t \<le> 59 \<and> second t \<le> 59"

text \<open>\<open>calendar.timegm\<close>: seconds since 1970-01-01, whose ordinal is 719163.\<close>

definition ordinal :: "stamp \<Rightarrow> int" where
  "ordinal t = days_before_year (year t) + int (days_before_month (year t) (month t)) + int (day t)"

definition timegm :: "stamp \<Rightarrow> int" where
  "timegm t = ((ordinal t - 719163) * 24 + int (hour t)) * 3600 + int (minute t) * 60 + int (second t)"

definition fraction_ns :: "string \<Rightarrow> int" where
  "fraction_ns f = (if f = [] then 0
     else int (nat_of_digits (f @ replicate (9 - length f) (CHR ''0''))))"

definition stamp_ns :: "stamp \<Rightarrow> int" where
  "stamp_ns t = timegm t * 1000000000 + fraction_ns (fraction t)"

definition exact_timestamp_utc_ns :: "string \<Rightarrow> int result" where
  "exact_timestamp_utc_ns line = (case match_timestamp line of
       None \<Rightarrow> Inl (Domain (''cannot parse leading UTC timestamp: '' @ line))
     | Some t \<Rightarrow>
         if 9 < length (fraction t) then Inl (Domain ''timestamp precision exceeds nanoseconds'')
         else if \<not> valid_stamp t then Inl (Domain ''invalid UTC timestamp'')
         else Inr (stamp_ns t))"

subsection \<open>Requested ratios\<close>

definition parse_ratio :: "string \<Rightarrow> int result" where
  "parse_ratio item =
     (if \<not> list_all is_digit item then Inl (Domain (''invalid requested ratio token: '' @ item))
      else (let value = int (nat_of_digits item)
            in if map_of PROMPT12_RATIO_TO_PRBS value = None
               then Inl (Domain (''ratio outside Prompt-12 identification domain: '' @ show_int value))
               else Inr value))"

definition parse_requested_ratios :: "string \<Rightarrow> int list result" where
  "parse_requested_ratios text =
     (let pieces = split_on (CHR '','') text
      in if [] \<in> set pieces
         then Inl (Domain ''requested-ratios must be a non-empty comma-separated list'')
         else bindE (mapE parse_ratio pieces) (\<lambda>values.
           if 6 < length values
           then Inl (Domain ''more than six Prompt-12 controls in one run are not allowed'')
           else Inr values))"

subsection \<open>The applied readback line\<close>

text \<open>The text after the first occurrence of a marker.\<close>

fun after_first :: "string \<Rightarrow> string \<Rightarrow> string option" where
  "after_first p [] = (if p = [] then Some [] else None)"
| "after_first p (c # cs) = (if starts_with p (c # cs) then Some (drop (length p) (c # cs))
     else after_first p cs)"

text \<open>
  A greedy \<open>.*\<close> followed by a key, a run of digits and a continuation: the last place where the
  key stands before a digit and the continuation matches.  The run is the whole run of digits:
  a shorter one leaves digits in front, which no continuation begins with.
\<close>

fun last_field :: "string \<Rightarrow> (string \<Rightarrow> bool) \<Rightarrow> string \<Rightarrow> (string \<times> string) option" where
  "last_field key cont [] = None"
| "last_field key cont (c # cs) = (case last_field key cont cs of
       Some r \<Rightarrow> Some r
     | None \<Rightarrow>
        (let r = drop (length key) (c # cs);
             ds = takeWhile is_digit r; rest = dropWhile is_digit r
         in if starts_with key (c # cs) \<and> ds \<noteq> [] \<and> cont rest then Some (ds, rest) else None))"

text \<open>\<open>APPLIED_RE.search\<close>: the two captured numerals.\<close>

definition match_applied :: "string \<Rightarrow> (string \<times> string) option" where
  "match_applied line = Option.bind (after_first ''PRB_ACTUATOR_APPLIED'' line) (\<lambda>s.
     Option.bind (last_field ''applied_min_prbs=''
         (\<lambda>rest. last_field ''applied_max_prbs='' (\<lambda>_. True) rest \<noteq> None) s) (\<lambda>(mn, rest).
     Option.bind (last_field ''applied_max_prbs='' (\<lambda>_. True) rest) (\<lambda>(mx, _). Some (mn, mx))))"

subsection \<open>Building the events\<close>

definition control_error :: "nat \<Rightarrow> string \<Rightarrow> exn" where
  "control_error index msg = Domain (''control '' @ show_nat index @ '': '' @ msg)"

definition event_prefix :: "nat \<Rightarrow> string" where
  "event_prefix index = ''ACTUATOR-'' @ zero_pad 3 index"

definition command_event :: "string \<Rightarrow> string \<Rightarrow> nat \<Rightarrow> int \<Rightarrow> int \<Rightarrow> actuator_event" where
  "command_event ex run index ts ratio = \<lparr>ev_experiment = ex, ev_run = run,
     ev_record = event_prefix index @ ''-COMMAND'', ev_ts = ts, ev_type = ''command'',
     ev_ratio = Some ratio, ev_min = None, ev_max = None, ev_ack = None\<rparr>"

definition applied_event :: "string \<Rightarrow> string \<Rightarrow> nat \<Rightarrow> int \<Rightarrow> int \<Rightarrow> int \<Rightarrow> actuator_event" where
  "applied_event ex run index ts mn mx = \<lparr>ev_experiment = ex, ev_run = run,
     ev_record = event_prefix index @ ''-APPLIED-READBACK'', ev_ts = ts,
     ev_type = ''applied_readback'', ev_ratio = None, ev_min = Some mn, ev_max = Some mx,
     ev_ack = None\<rparr>"

definition ack_event :: "string \<Rightarrow> string \<Rightarrow> nat \<Rightarrow> int \<Rightarrow> actuator_event" where
  "ack_event ex run index ts = \<lparr>ev_experiment = ex, ev_run = run,
     ev_record = event_prefix index @ ''-ACKNOWLEDGEMENT'', ev_ts = ts,
     ev_type = ''acknowledgement'', ev_ratio = None, ev_min = None, ev_max = None,
     ev_ack = Some ''PASS''\<rparr>"

text \<open>One control: its three lines, checked against the ratio and the control before.\<close>

type_synonym control = "nat \<times> int \<times> string \<times> string \<times> string"

definition control_events ::
    "string \<Rightarrow> string \<Rightarrow> int option \<Rightarrow> control \<Rightarrow> (actuator_event list \<times> int) result" where
  "control_events ex run previous_ack c = (case c of (index, ratio, command, applied, ack) \<Rightarrow>
     bindE (exact_timestamp_utc_ns command) (\<lambda>command_ns.
     bindE (exact_timestamp_utc_ns applied) (\<lambda>applied_ns.
     bindE (exact_timestamp_utc_ns ack) (\<lambda>ack_ns.
     case match_applied applied of
       None \<Rightarrow> Inl (control_error index ''malformed PRB_ACTUATOR_APPLIED line'')
     | Some (mn, mx) \<Rightarrow>
        (let applied_min = int (nat_of_digits mn); applied_max = int (nat_of_digits mx)
         in case map_of PROMPT12_RATIO_TO_PRBS ratio of
              None \<Rightarrow> Inl (PyExn ''KeyError'')
            | Some expected_max \<Rightarrow>
               if applied_min \<noteq> 0
               then Inl (control_error index (''applied_min_prbs '' @ show_int applied_min @ '' != 0''))
               else if applied_max \<noteq> expected_max
               then Inl (control_error index (''requested ratio '' @ show_int ratio @ ''% requires '' @
                      show_int expected_max @ '' PRB but readback reports '' @ show_int applied_max))
               else if \<not> (command_ns < applied_ns \<and> applied_ns < ack_ns)
               then Inl (control_error index
                      ''event order must be command < applied_readback < acknowledgement'')
               else if (case previous_ack of None \<Rightarrow> False | Some t \<Rightarrow> command_ns \<le> t)
               then Inl (control_error index ''command is not later than previous acknowledgement'')
               else Inr ([command_event ex run index command_ns ratio,
                          applied_event ex run index applied_ns applied_min applied_max,
                          ack_event ex run index ack_ns], ack_ns))))))"

definition add_control :: "string \<Rightarrow> string \<Rightarrow> actuator_event list \<times> int option \<Rightarrow> control \<Rightarrow>
    (actuator_event list \<times> int option) result" where
  "add_control ex run s c = bindE (control_events ex run (snd s) c)
     (\<lambda>(es, ack). Inr (fst s @ es, Some ack))"

definition check_count :: "string \<Rightarrow> string list \<Rightarrow> int list \<Rightarrow> unit result" where
  "check_count event_type ls ratios = (if length ls \<noteq> length ratios
     then Inl (Domain (event_type @ '' event count '' @ show_nat (length ls) @
       '' does not match requested ratio count '' @ show_nat (length ratios))) else Inr ())"

definition build_events :: "string \<Rightarrow> string \<Rightarrow> int list \<Rightarrow> string list \<Rightarrow> string list \<Rightarrow>
    string list \<Rightarrow> actuator_event list result" where
  "build_events ex run ratios command_lines applied_lines ack_lines =
     bindE (seqE [check_count ''command'' command_lines ratios,
                  check_count ''applied_readback'' applied_lines ratios,
                  check_count ''acknowledgement'' ack_lines ratios]) (\<lambda>_.
     bindE (foldE (add_control ex run) ([], None)
              (zip [1..<Suc (length ratios)]
                 (zip ratios (zip command_lines (zip applied_lines ack_lines)))))
       (\<lambda>(events, _). Inr events))"

subsection \<open>The command\<close>

record timeline_schema =
  schema_problem :: "exn option"
  experiment_ok :: "string \<Rightarrow> bool"
  run_ok :: "string \<Rightarrow> bool"
  event_ok :: "actuator_event \<Rightarrow> bool"

definition timeline_identity :: "timeline_schema \<Rightarrow> string \<Rightarrow> string \<Rightarrow> unit result" where
  "timeline_identity sch ex run = seqE [
     require (experiment_ok sch ex) ''invalid Prompt-12 experiment_id'',
     require (run_ok sch run) ''invalid Prompt-12 run_id'']"

definition timeline_main :: "bool \<Rightarrow> timeline_schema \<Rightarrow> string \<Rightarrow> string \<Rightarrow> string \<Rightarrow> text_file \<Rightarrow>
    text_file \<Rightarrow> text_file \<Rightarrow> actuator_event list result" where
  "timeline_main output_exists sch ex run ratios_text command_input applied_input ack_input =
     bindE (require (\<not> output_exists) ''output already exists'') (\<lambda>_.
     bindE (case schema_problem sch of None \<Rightarrow> Inr () | Some e \<Rightarrow> Inl e) (\<lambda>_.
     bindE (timeline_identity sch ex run) (\<lambda>_.
     bindE (parse_requested_ratios ratios_text) (\<lambda>ratios.
     bindE (matching_lines command_input COMMAND_MARKER) (\<lambda>command_lines.
     bindE (matching_lines applied_input APPLIED_MARKER) (\<lambda>applied_lines.
     bindE (matching_lines ack_input ACK_MARKER) (\<lambda>ack_lines.
     bindE (build_events ex run ratios command_lines applied_lines ack_lines) (\<lambda>events. bindE (seqE [
       require (distinct (map ev_record events)) ''duplicate actuatorEvent record_id'',
       require (sorted (map ev_ts events)) ''global actuator timeline ordering violation'',
       whenE (\<exists>e \<in> set events. \<not> event_ok sch e) (Inl SchemaInvalid)])
       (\<lambda>_. Inr events)))))))))"

subsection \<open>Timestamps follow the calendar\<close>

lemma div_pred: "0 < y \<Longrightarrow> 0 < n \<Longrightarrow> int y div int n = (int y - 1) div int n + of_bool (n dvd y)"
proof -
  assume "0 < y" "0 < n"
  then obtain m where y: "y = Suc m" by (cases y) auto
  have "Suc m div n = m div n + of_bool (n dvd Suc m)"
    using \<open>0 < n\<close> by (simp add: div_Suc dvd_eq_mod_eq_0)
  then have "int (Suc m div n) = int (m div n) + of_bool (n dvd Suc m)" by simp
  then show ?thesis by (simp add: y zdiv_int)
qed

lemma leap_count: "of_bool (leap y) = of_bool (4 dvd y) - of_bool (100 dvd y) + (of_bool (400 dvd y) :: int)"
proof -
  have "100 dvd y \<Longrightarrow> 4 dvd y" "400 dvd y \<Longrightarrow> 100 dvd y"
    by (rule dvd_trans [of 4 100 y], simp_all) (rule dvd_trans [of 100 400 y], simp_all)
  then show ?thesis
    by (cases "4 dvd y"; cases "100 dvd y"; cases "400 dvd y") (simp_all add: leap_def)
qed

lemma days_before_year_Suc:
  "1 \<le> y \<Longrightarrow> days_before_year (Suc y) = days_before_year y + 365 + of_bool (leap y)"
  using div_pred [of y 4] div_pred [of y 100] div_pred [of y 400]
  by (simp add: days_before_year_def Let_def leap_count algebra_simps)

lemma days_before_year_mono: "1 \<le> y \<Longrightarrow> y \<le> z \<Longrightarrow> days_before_year y \<le> days_before_year z"
proof (induction z)
  case (Suc z)
  then show ?case
    using days_before_year_Suc [of z] by (cases "y = Suc z") auto
qed simp

lemma days_before_month_Suc:
  "1 \<le> m \<Longrightarrow> days_before_month y (Suc m) = days_before_month y m + days_in_month y m"
  by (simp add: days_before_month_def)

lemma days_before_month_mono: "1 \<le> m \<Longrightarrow> m \<le> k \<Longrightarrow> days_before_month y m \<le> days_before_month y k"
proof (induction k)
  case (Suc k)
  then show ?case using days_before_month_Suc [of k y] by (cases "m = Suc k") auto
qed simp

lemma year_length: "days_before_month y 13 = 365 + of_bool (leap y)"
  by (simp add: days_before_month_def days_in_month_def upt_conv_Cons)

lemma ordinal_less_month:
  assumes "valid_stamp s" "valid_stamp t" "year s = year t" "month s < month t"
  shows "ordinal s < ordinal t"
proof -
  have "days_before_month (year s) (month s) + day s \<le> days_before_month (year s) (Suc (month s))"
    using assms(1) by (simp add: days_before_month_Suc valid_stamp_def)
  also have "\<dots> \<le> days_before_month (year s) (month t)"
    using assms(4) by (intro days_before_month_mono) auto
  finally show ?thesis using assms(2,3) by (simp add: ordinal_def valid_stamp_def)
qed

lemma ordinal_less_year:
  assumes "valid_stamp s" "valid_stamp t" "year s < year t"
  shows "ordinal s < ordinal t"
proof -
  have m: "1 \<le> month s" "month s \<le> 12" "day s \<le> days_in_month (year s) (month s)" "1 \<le> year s"
    using assms(1) by (simp_all add: valid_stamp_def)
  have "days_before_month (year s) (month s) + day s \<le> days_before_month (year s) (Suc (month s))"
    using m by (simp add: days_before_month_Suc)
  also have "\<dots> \<le> days_before_month (year s) 13" using m by (intro days_before_month_mono) auto
  finally have "int (days_before_month (year s) (month s) + day s) \<le> int (days_before_month (year s) 13)"
    by (simp only: of_nat_le_iff)
  then have "ordinal s \<le> days_before_year (Suc (year s))"
    using m(4) by (simp add: ordinal_def year_length days_before_year_Suc)
  also have "\<dots> \<le> days_before_year (year t)"
    using assms(3) by (intro days_before_year_mono) auto
  finally show ?thesis using assms(2) by (simp add: ordinal_def valid_stamp_def)
qed

lemma ordinal_mono:
  assumes "valid_stamp s" "valid_stamp t"
    and "(year s, month s, day s) < (year t, month t, day t)"
  shows "ordinal s < ordinal t"
  using assms(3) ordinal_less_year [OF assms(1,2)] ordinal_less_month [OF assms(1,2)]
  by (auto simp: less_prod_def' ordinal_def)

lemma timegm_mono:
  assumes "valid_stamp s" "valid_stamp t"
    and "((year s, month s, day s), hour s, minute s, second s)
       < ((year t, month t, day t), hour t, minute t, second t)"
  shows "timegm s < timegm t"
proof (cases "(year s, month s, day s) < (year t, month t, day t)")
  case True
  from ordinal_mono [OF assms(1,2) this] assms(1,2) show ?thesis
    by (simp add: timegm_def valid_stamp_def)
next
  case False
  with assms(3) have d: "year s = year t" "month s = month t" "day s = day t"
    and h: "(hour s, minute s, second s) < (hour t, minute t, second t)"
    by (auto simp: less_prod_def')
  from d have "ordinal s = ordinal t" by (simp add: ordinal_def)
  with h assms(1,2) show ?thesis
    by (auto simp: timegm_def valid_stamp_def less_prod_def')
qed

lemma nat_of_digits_bound: "list_all is_digit s \<Longrightarrow> nat_of_digits s < 10 ^ length s"
proof (induction s rule: rev_induct)
  case Nil
  then show ?case by (simp add: nat_of_digits_def)
next
  case (snoc c s)
  then have "digit_val c < 10" by (auto simp: is_digit_def digit_val_def)
  with snoc show ?case by (simp add: nat_of_digits_append)
qed

lemma fraction_ns_bound:
  assumes "list_all is_digit f" "length f \<le> 9"
  shows "0 \<le> fraction_ns f \<and> fraction_ns f < 1000000000"
proof -
  have "list_all is_digit (f @ replicate (9 - length f) (CHR ''0''))"
    using assms(1) by (auto simp: list_all_iff is_digit_def)
  from nat_of_digits_bound [OF this] assms(2) have
    "nat_of_digits (f @ replicate (9 - length f) (CHR ''0'')) < 1000000000" by simp
  then show ?thesis by (simp add: fraction_ns_def)
qed

lemma match_timestamp_fraction: "match_timestamp s = Some t \<Longrightarrow> list_all is_digit (fraction t)"
  by (auto simp: match_timestamp_def bind_eq_Some_conv list_all_iff split: option.splits)
    (blast dest: set_takeWhileD)



subsection \<open>What a built timeline looks like\<close>

lemma control_events_Inr:
  assumes "control_events ex run prev (i, ratio, cl, al, kl) = Inr (es, k)"
  shows "\<exists>c a mx. es = [command_event ex run i c ratio, applied_event ex run i a 0 mx,
      ack_event ex run i k] \<and> map_of PROMPT12_RATIO_TO_PRBS ratio = Some mx \<and> c < a \<and> a < k \<and>
    (\<forall>t. prev = Some t \<longrightarrow> t < c) \<and>
    exact_timestamp_utc_ns cl = Inr c \<and> exact_timestamp_utc_ns al = Inr a \<and>
    exact_timestamp_utc_ns kl = Inr k"
proof -
  from assms obtain c a where ts: "exact_timestamp_utc_ns cl = Inr c"
    "exact_timestamp_utc_ns al = Inr a"
    by (auto simp: control_events_def)
  from assms obtain k' where kl: "exact_timestamp_utc_ns kl = Inr k'"
    by (auto simp: control_events_def)
  from assms ts kl obtain mn mx where m: "match_applied al = Some (mn, mx)"
    by (auto simp: control_events_def split: option.splits)
  from assms ts kl m obtain e where "map_of PROMPT12_RATIO_TO_PRBS ratio = Some e"
    by (auto simp: control_events_def Let_def split: option.splits)
  with assms ts kl m show ?thesis
    by (auto simp: control_events_def Let_def not_le split: if_splits option.splits)
qed

fun well_timed :: "string \<Rightarrow> string \<Rightarrow> int option \<Rightarrow> nat \<Rightarrow> int list \<Rightarrow> actuator_event list \<Rightarrow> bool" where
  "well_timed ex run prev i [] es = (es = [])"
| "well_timed ex run prev i (ratio # rs) es = (\<exists>c a k mx rest.
     es = command_event ex run i c ratio # applied_event ex run i a 0 mx #
       ack_event ex run i k # rest \<and>
     map_of PROMPT12_RATIO_TO_PRBS ratio = Some mx \<and> (\<forall>t. prev = Some t \<longrightarrow> t < c) \<and>
     c < a \<and> a < k \<and> well_timed ex run (Some k) (Suc i) rs rest)"

lemma fold_controls:
  assumes "foldE (add_control ex run) (es, prev)
      (zip [i..<i + length ratios] (zip ratios (zip cls (zip als kls)))) = Inr (es', prev')"
    and "length cls = length ratios" "length als = length ratios" "length kls = length ratios"
  shows "\<exists>new. es' = es @ new \<and> well_timed ex run prev i ratios new"
  using assms
proof (induction ratios arbitrary: es prev i cls als kls)
  case Nil
  then show ?case by simp
next
  case (Cons r rs)
  obtain cl cls' al als' kl kls' where ls: "cls = cl # cls'" "als = al # als'" "kls = kl # kls'"
    using Cons.prems(2-4) by (auto simp: length_Suc_conv)
  have up: "[i..<i + length (r # rs)] = i # [Suc i..<Suc i + length rs]"
    by (subst upt_conv_Cons) simp_all
  from Cons.prems(1) obtain t where
    st: "add_control ex run (es, prev) (i, r, cl, al, kl) = Inr t" and
    rest: "foldE (add_control ex run) t (zip [Suc i..<Suc i + length rs]
       (zip rs (zip cls' (zip als' kls')))) = Inr (es', prev')"
    unfolding up ls by auto
  from st obtain new1 k where ce: "control_events ex run prev (i, r, cl, al, kl) = Inr (new1, k)"
    and t: "t = (es @ new1, Some k)"
    by (auto simp: add_control_def)
  from Cons.IH [OF rest [unfolded t]] Cons.prems(2-4) ls obtain new2 where
    "es' = (es @ new1) @ new2" "well_timed ex run (Some k) (Suc i) rs new2" by auto
  with control_events_Inr [OF ce] show ?case by fastforce
qed

lemma build_events_well_timed:
  assumes "build_events ex run ratios cls als kls = Inr es"
  shows "well_timed ex run None 1 ratios es"
proof -
  from assms have len: "length cls = length ratios" "length als = length ratios"
      "length kls = length ratios"
    by (auto simp: build_events_def check_count_def split: if_splits)
  from assms obtain p where
    "foldE (add_control ex run) ([], None)
       (zip [1..<1 + length ratios] (zip ratios (zip cls (zip als kls)))) = Inr (es, p)"
    by (auto simp: build_events_def)
  from fold_controls [OF this len] show ?thesis by simp
qed

lemma well_timed_sorted:
  "well_timed ex run prev i ratios es \<Longrightarrow>
   sorted_wrt (<) (map ev_ts es) \<and> (\<forall>t. prev = Some t \<longrightarrow> (\<forall>e \<in> set es. t < ev_ts e))"
proof (induction ratios arbitrary: prev i es)
  case Nil
  then show ?case by simp
next
  case (Cons r rs)
  then obtain c a k mx rest where es: "es = command_event ex run i c r #
      applied_event ex run i a 0 mx # ack_event ex run i k # rest"
    and p: "\<forall>t. prev = Some t \<longrightarrow> t < c" and ts: "c < a" "a < k"
    and wt: "well_timed ex run (Some k) (Suc i) rs rest" by auto
  from Cons.IH [OF wt] have "sorted_wrt (<) (map ev_ts rest)" "\<forall>e \<in> set rest. k < ev_ts e" by auto
  with es p ts show ?case
    by (fastforce simp: command_event_def applied_event_def ack_event_def)
qed

lemma zero_pad_digits: "c \<in> set (zero_pad w n) \<Longrightarrow> is_digit c"
  by (auto simp: zero_pad_def is_digit_def dest: show_nat_digits)

lemma record_id_inject:
  "event_prefix i @ CHR ''-'' # s = event_prefix j @ CHR ''-'' # t \<longleftrightarrow> i = j \<and> s = t"
proof
  assume eq: "event_prefix i @ CHR ''-'' # s = event_prefix j @ CHR ''-'' # t"
  have tw: "takeWhile is_digit (zero_pad 3 n @ CHR ''-'' # r) = zero_pad 3 n" for n r
    by (subst takeWhile_append2) (auto simp: is_digit_def dest: zero_pad_digits)
  from eq have "zero_pad 3 i @ CHR ''-'' # s = zero_pad 3 j @ CHR ''-'' # t"
    by (simp add: event_prefix_def)
  with tw [of i s] tw [of j t] have "zero_pad 3 i = zero_pad 3 j" by simp
  with eq show "i = j \<and> s = t" by simp
qed simp

lemma well_timed_record:
  "well_timed ex run prev i ratios es \<Longrightarrow> e \<in> set es \<Longrightarrow>
   \<exists>n \<ge> i. \<exists>s. ev_record e = event_prefix n @ CHR ''-'' # s"
proof (induction ratios arbitrary: prev i es)
  case Nil
  then show ?case by simp
next
  case (Cons r rs)
  then show ?case
    by (fastforce simp: command_event_def applied_event_def ack_event_def dest: Suc_leD)
qed

lemma well_timed_distinct: "well_timed ex run prev i ratios es \<Longrightarrow> distinct (map ev_record es)"
proof (induction ratios arbitrary: prev i es)
  case Nil
  then show ?case by simp
next
  case (Cons r rs)
  then obtain c a k mx rest where es: "es = command_event ex run i c r #
      applied_event ex run i a 0 mx # ack_event ex run i k # rest"
    and wt: "well_timed ex run (Some k) (Suc i) rs rest" by auto
  have new: "event_prefix i @ CHR ''-'' # s \<notin> ev_record ` set rest" for s
    using well_timed_record [OF wt] by (fastforce simp: record_id_inject)
  from Cons.IH [OF wt] show ?case
    by (simp add: es command_event_def applied_event_def ack_event_def record_id_inject new)
qed

lemma well_timed_length: "well_timed ex run prev i ratios es \<Longrightarrow> length es = 3 * length ratios"
  by (induction ratios arbitrary: prev i es) auto

lemma well_timed_identity:
  "well_timed ex run prev i ratios es \<Longrightarrow> e \<in> set es \<Longrightarrow> ev_experiment e = ex \<and> ev_run e = run"
  by (induction ratios arbitrary: prev i es)
    (auto simp: command_event_def applied_event_def ack_event_def)

text \<open>The triplet of a control.\<close>

lemma well_timed_triplet:
  "well_timed ex run prev i ratios es \<Longrightarrow> n < length ratios \<Longrightarrow>
   \<exists>c a k mx. take 3 (drop (3 * n) es) = [command_event ex run (i + n) c (ratios ! n),
       applied_event ex run (i + n) a 0 mx, ack_event ex run (i + n) k] \<and>
     map_of PROMPT12_RATIO_TO_PRBS (ratios ! n) = Some mx \<and> c < a \<and> a < k"
proof (induction ratios arbitrary: prev i es n)
  case Nil
  then show ?case by simp
next
  case (Cons r rs)
  then obtain c a k mx rest where es: "es = command_event ex run i c r #
      applied_event ex run i a 0 mx # ack_event ex run i k # rest"
    and mx: "map_of PROMPT12_RATIO_TO_PRBS r = Some mx" and ts: "c < a" "a < k"
    and wt: "well_timed ex run (Some k) (Suc i) rs rest" by auto
  show ?case
  proof (cases n)
    case 0
    with es mx ts show ?thesis by (auto simp: eval_nat_numeral)
  next
    case (Suc m)
    with Cons.prems(2) Cons.IH [OF wt, of m] es show ?thesis by (simp add: eval_nat_numeral)
  qed
qed

text \<open>C15: a timeline that was built has one triplet per requested ratio, in order: the command
  with the ratio, the applied readback with 0 and the PRB count the ratio stands for, and a
  \<open>PASS\<close> acknowledgement, all of the given experiment and run; its timestamps are strictly
  increasing over the whole file and its record ids distinct, so the two final checks of the
  command cannot fail.\<close>

theorem built_timeline_is_sound:
  assumes "build_events ex run ratios cls als kls = Inr es"
  shows "length es = 3 * length ratios \<and> sorted_wrt (<) (map ev_ts es) \<and>
    distinct (map ev_record es) \<and>
    (\<forall>e \<in> set es. ev_experiment e = ex \<and> ev_run e = run) \<and>
    (\<forall>n < length ratios. \<exists>c a k mx. take 3 (drop (3 * n) es) =
       [command_event ex run (n + 1) c (ratios ! n), applied_event ex run (n + 1) a 0 mx,
        ack_event ex run (n + 1) k] \<and>
       map_of PROMPT12_RATIO_TO_PRBS (ratios ! n) = Some mx \<and> c < a \<and> a < k)"
proof -
  have wt: "well_timed ex run None 1 ratios es" by (rule build_events_well_timed [OF assms])
  show ?thesis
    using well_timed_length [OF wt] well_timed_sorted [OF wt] well_timed_distinct [OF wt]
      well_timed_identity [OF wt] well_timed_triplet [OF wt]
    by (simp add: add.commute)
qed

definition sample_command_line :: string where
  "sample_command_line = ''2026-01-01T00:00:01Z E42_RIC_CONTROL_REQUEST rx''"

definition sample_applied_line :: string where
  "sample_applied_line =
     ''2026-01-01T00:00:02.500000000 PRB_ACTUATOR_APPLIED applied_min_prbs=0 applied_max_prbs=39''"

definition sample_ack_line :: string where
  "sample_ack_line = ''2026-01-01T00:00:03Z CONTROL ACKNOWLEDGE rx''"

lemmas stamp_eval = exact_timestamp_utc_ns_def match_timestamp_def digits_at_def char_at_def
  is_digit_def nat_of_digits_def digit_val_def valid_stamp_def days_in_month_def leap_def
  stamp_ns_def timegm_def ordinal_def days_before_year_def days_before_month_def
  fraction_ns_def

lemma sample_matches:
  "match_timestamp sample_command_line = Some \<lparr>year = 2026, month = 1, day = 1, hour = 0,
     minute = 0, second = 1, fraction = []\<rparr>"
  "match_timestamp sample_applied_line = Some \<lparr>year = 2026, month = 1, day = 1, hour = 0,
     minute = 0, second = 2, fraction = ''500000000''\<rparr>"
  "match_timestamp sample_ack_line = Some \<lparr>year = 2026, month = 1, day = 1, hour = 0,
     minute = 0, second = 3, fraction = []\<rparr>"
  by (simp_all add: stamp_eval sample_command_line_def sample_applied_line_def sample_ack_line_def)

lemma sample_stamps:
  "exact_timestamp_utc_ns sample_command_line = Inr 1767225601000000000"
  "exact_timestamp_utc_ns sample_applied_line = Inr 1767225602500000000"
  "exact_timestamp_utc_ns sample_ack_line = Inr 1767225603000000000"
  by (simp_all add: exact_timestamp_utc_ns_def sample_matches valid_stamp_def days_in_month_def
    stamp_ns_def timegm_def ordinal_def days_before_year_def days_before_month_def
    fraction_ns_def nat_of_digits_def digit_val_def)

lemma sample_applied: "match_applied sample_applied_line = Some (''0'', ''39'')"
  by (simp add: match_applied_def sample_applied_line_def starts_with_def is_digit_def Let_def)

definition sample_ex :: string where "sample_ex = ''EXP-20260101-DL-18000K-R01''"

definition sample_run :: string where "sample_run = ''RUN-20260101T000000Z-001''"

definition sample_events :: "actuator_event list" where
  "sample_events = [command_event sample_ex sample_run 1 1767225601000000000 75,
     applied_event sample_ex sample_run 1 1767225602500000000 0 39,
     ack_event sample_ex sample_run 1 1767225603000000000]"

lemma sample_build:
  "build_events sample_ex sample_run [75] [sample_command_line] [sample_applied_line] [sample_ack_line] =
     Inr sample_events"
  by (simp add: build_events_def check_count_def add_control_def control_events_def sample_stamps
    sample_applied PROMPT12_RATIO_TO_PRBS_def nat_of_digits_def digit_val_def sample_events_def)


theorem built_timeline_is_sound_witness:
  "length sample_events = 3 \<and> sorted_wrt (<) (map ev_ts sample_events) \<and>
   distinct (map ev_record sample_events)"
  using built_timeline_is_sound [OF sample_build] by simp

end
