(* ===== verification/Dec_Context.thy ===== *)
theory Dec_Context
  imports Py_Decimal
begin

section \<open>Arithmetic in a decimal context\<close>

text \<open>
  Every arithmetic operation of \<open>decimal\<close> gives the exact result rounded half-even to the
  precision of the context.  \<open>dec_round p\<close> is that rounding on exact rationals, \<open>dec_sqrt p\<close>
  the correctly rounded square root; both compute.  The laws the components use (rounding keeps
  the sign and the order and leaves a number of at most \<open>p\<close> digits alone) are the locale
  \<open>rounding\<close>, interpreted for every positive precision.
\<close>

named_theorems round_simps \<open>rounding to a precision\<close>

subsection \<open>Rounding to an integer\<close>

definition round_half_even :: "rat \<Rightarrow> int" where
  "round_half_even q = (let f = \<lfloor>q\<rfloor>; r = q - of_int f in
     if r < 1 / 2 then f else if 1 / 2 < r then f + 1 else if even f then f else f + 1)"

lemma round_half_even_int [simp, round_simps]: "round_half_even (of_int n) = n"
  by (simp add: round_half_even_def)

lemma round_half_even_bounds: "\<lfloor>q\<rfloor> \<le> round_half_even q" "round_half_even q \<le> \<lfloor>q\<rfloor> + 1"
  by (simp_all add: round_half_even_def Let_def)

lemma round_half_even_mono: "x \<le> y \<Longrightarrow> round_half_even x \<le> round_half_even y"
proof (cases "\<lfloor>x\<rfloor> = \<lfloor>y\<rfloor>")
  case True
  moreover assume "x \<le> y"
  ultimately show ?thesis by (auto simp: round_half_even_def Let_def)
next
  case False
  moreover assume "x \<le> y"
  ultimately have "\<lfloor>x\<rfloor> + 1 \<le> \<lfloor>y\<rfloor>" using floor_mono [of x y] by linarith
  then show ?thesis using round_half_even_bounds [of x] round_half_even_bounds [of y] by linarith
qed

lemma round_half_even_le: "q \<le> of_int n \<Longrightarrow> round_half_even q \<le> n"
  using round_half_even_mono [of q "of_int n"] by simp

lemma round_half_even_ge: "of_int n \<le> q \<Longrightarrow> n \<le> round_half_even q"
  using round_half_even_mono [of "of_int n" q] by simp

subsection \<open>The decimal exponent\<close>

definition num_digits :: "nat \<Rightarrow> nat" where
  "num_digits n = length (show_nat n)"

lemma num_digits_bounds: "n < 10 ^ num_digits n \<and> (0 < n \<longrightarrow> 10 ^ (num_digits n - 1) \<le> n)"
proof (induction n rule: show_nat.induct)
  case (1 n)
  show ?case
  proof (cases "n < 10")
    case True
    then show ?thesis by (simp add: num_digits_def show_nat.simps [of n])
  next
    case False
    then have d: "num_digits n = Suc (num_digits (n div 10))"
      by (simp add: num_digits_def show_nat.simps [of n])
    have pos: "0 < num_digits (n div 10)"
      by (cases "num_digits (n div 10)") (use 1 False in auto)
    from 1 False have IH: "n div 10 < 10 ^ num_digits (n div 10)"
      "10 ^ (num_digits (n div 10) - 1) \<le> n div 10" by auto
    from IH(2) have "10 * 10 ^ (num_digits (n div 10) - 1) \<le> n" by linarith
    with pos have "10 ^ num_digits (n div 10) \<le> n" by (cases "num_digits (n div 10)") auto
    moreover from IH(1) have "n < 10 ^ num_digits n" by (simp add: d)
    ultimately show ?thesis by (simp add: d)
  qed
qed

text \<open>The position of the leading digit of a positive number.\<close>

definition dec_exponent :: "rat \<Rightarrow> int" where
  "dec_exponent q = (case quotient_of q of (n, d) \<Rightarrow>
     (let k = int (num_digits (nat n)) - int (num_digits (nat d))
      in if pow10 k \<le> q then k else k - 1))"

lemma pow10_nat: "pow10 (int n) = 10 ^ n"
  by (simp add: pow10_def)

lemma pow10_diff: "pow10 (a - b) = pow10 a / pow10 b"
proof -
  have "pow10 (a - b) * pow10 b = pow10 a" using pow10_add [of "a - b" b] by simp
  moreover have "pow10 b \<noteq> 0" by (metis less_irrefl pow10_pos)
  ultimately show ?thesis by (simp add: nonzero_eq_divide_eq)
qed

lemma pow10_mono: "a \<le> b \<Longrightarrow> pow10 a \<le> pow10 b"
proof -
  assume "a \<le> b"
  then obtain n where "b = a + int n" by (metis zle_iff_zadd)
  moreover have "(1::rat) \<le> 10 ^ n" by (simp add: one_le_power)
  ultimately show ?thesis by (simp add: pow10_add pow10_nat)
qed

lemma pow10_less_iff: "pow10 a < pow10 b \<longleftrightarrow> a < b"
proof -
  have "a < b \<Longrightarrow> pow10 a < pow10 b"
    using pow10_mono [of "a + 1" b] pow10_Suc [of a] pow10_pos [of a] by linarith
  then show ?thesis using pow10_mono [of b a] by linarith
qed

lemma dec_exponent_bounds:
  assumes "0 < q"
  shows "pow10 (dec_exponent q) \<le> q \<and> q < pow10 (dec_exponent q + 1)"
proof -
  obtain n d where nd: "quotient_of q = (n, d)" by (cases "quotient_of q")
  have d: "0 < d" and q: "q = of_int n / of_int d"
    using quotient_of_denom_pos [OF nd] quotient_of_div [OF nd] by simp_all
  with assms have n: "0 < n" by (simp add: zero_less_divide_iff)
  define a b where "a = num_digits (nat n)" and "b = num_digits (nat d)"
  have rn: "rat_of_int n = of_nat (nat n)" "rat_of_int d = of_nat (nat d)" using n d by simp_all
  have an: "rat_of_int n < 10 ^ a" "10 ^ (a - 1) \<le> rat_of_int n"
    using num_digits_bounds [of "nat n"] n unfolding rn a_def
    by (metis of_nat_less_iff of_nat_power of_nat_numeral,
        metis of_nat_le_iff of_nat_power of_nat_numeral zero_less_nat_eq)
  have bd: "rat_of_int d < 10 ^ b" "10 ^ (b - 1) \<le> rat_of_int d"
    using num_digits_bounds [of "nat d"] d unfolding rn b_def
    by (metis of_nat_less_iff of_nat_power of_nat_numeral,
        metis of_nat_le_iff of_nat_power of_nat_numeral zero_less_nat_eq)
  have "a \<noteq> 0" using an(1) n by (cases a) auto
  moreover have "b \<noteq> 0" using bd(1) d by (cases b) auto
  ultimately have ab: "(10::rat) ^ a = 10 * 10 ^ (a - 1)" "(10::rat) ^ b = 10 * 10 ^ (b - 1)"
    by (simp_all add: power_eq_if)
  have up: "q < pow10 (int a - int b + 1)"
  proof -
    have "of_int n * 10 ^ (b - 1) < (10::rat) ^ a * 10 ^ (b - 1)"
      by (rule mult_strict_right_mono [OF an(1)]) simp
    also have "\<dots> \<le> 10 ^ a * of_int d" by (rule mult_left_mono [OF bd(2)]) simp
    finally have "of_int n * 10 ^ b < 10 * (10::rat) ^ a * of_int d" using ab(2) by simp
    then have "of_int n / of_int d < 10 * 10 ^ a / (10::rat) ^ b" using d by (simp add: field_simps)
    then show ?thesis unfolding q
      by (simp add: pow10_add pow10_diff pow10_nat) (simp add: pow10_def mult.commute)
  qed
  have lo: "pow10 (int a - int b - 1) \<le> q"
  proof -
    have "10 ^ (a - 1) * of_int d \<le> of_int n * (10::rat) ^ b"
      by (rule mult_mono [OF an(2) less_imp_le [OF bd(1)]]) (use d n in simp_all)
    then have "10 ^ a * of_int d \<le> of_int n * (10::rat) ^ b * 10" using ab(1) by simp
    then have "10 ^ a / 10 ^ b / 10 \<le> of_int n / (of_int d :: rat)"
      using d by (simp add: field_simps)
    then show ?thesis unfolding q by (simp add: pow10_diff pow10_nat) (simp add: pow10_def)
  qed
  from up lo show ?thesis
    by (simp add: dec_exponent_def nd a_def [symmetric] b_def [symmetric] Let_def)
qed

lemma dec_exponent_mono: "0 < x \<Longrightarrow> x \<le> y \<Longrightarrow> dec_exponent x \<le> dec_exponent y"
proof -
  assume "0 < x" "x \<le> y"
  then have "pow10 (dec_exponent x) < pow10 (dec_exponent y + 1)"
    using dec_exponent_bounds [of x] dec_exponent_bounds [of y] by simp
  then show ?thesis by (simp add: pow10_less_iff)
qed

subsection \<open>Rounding to a precision\<close>

definition round_pos :: "nat \<Rightarrow> rat \<Rightarrow> rat" where
  "round_pos p q = (let u = pow10 (dec_exponent q - int p + 1)
     in of_int (round_half_even (q / u)) * u)"

definition dec_round :: "nat \<Rightarrow> rat \<Rightarrow> rat" where
  "dec_round p q = (if q = 0 then 0 else if 0 < q then round_pos p q else - round_pos p (- q))"

text \<open>The rounded significand has \<open>p\<close> digits, or is the next power of ten.\<close>

lemma round_pos_bounds:
  assumes "0 < q" and "0 < p"
  shows "pow10 (dec_exponent q) \<le> round_pos p q \<and> round_pos p q \<le> pow10 (dec_exponent q + 1)"
proof -
  define u where "u = pow10 (dec_exponent q - int p + 1)"
  have u: "0 < u" by (simp add: u_def)
  have lo: "pow10 (dec_exponent q) = of_int (10 ^ (p - 1)) * u"
  proof -
    have "pow10 (dec_exponent q) = pow10 (int (p - 1) + (dec_exponent q - int p + 1))"
      using assms(2) by (simp add: of_nat_diff)
    then show ?thesis by (simp only: pow10_add u_def) (simp add: pow10_nat)
  qed
  have hi: "pow10 (dec_exponent q + 1) = of_int (10 ^ p) * u"
  proof -
    have "pow10 (dec_exponent q + 1) = pow10 (int p + (dec_exponent q - int p + 1))" by simp
    then show ?thesis by (simp only: pow10_add u_def) (simp add: pow10_nat)
  qed
  from dec_exponent_bounds [OF assms(1)] have
    "of_int (10 ^ (p - 1)) * u \<le> q" "q < of_int (10 ^ p) * u" by (simp_all only: lo hi)
  then have "of_int (10 ^ (p - 1)) \<le> q / u" "q / u \<le> of_int (10 ^ p)"
    using u by (simp_all add: pos_le_divide_eq pos_divide_le_eq)
  from round_half_even_ge [OF this(1)] round_half_even_le [OF this(2)] have
    "of_int (10 ^ (p - 1)) * u \<le> rat_of_int (round_half_even (q / u)) * u"
    "rat_of_int (round_half_even (q / u)) * u \<le> of_int (10 ^ p) * u"
    using u by (simp_all only: mult_le_cancel_right_pos of_int_le_iff)
  then show ?thesis by (simp only: lo hi round_pos_def Let_def u_def)
qed

lemma round_pos_mono:
  assumes "0 < x" and "x \<le> y" and "0 < p"
  shows "round_pos p x \<le> round_pos p y"
proof (cases "dec_exponent x = dec_exponent y")
  case True
  define u where "u = pow10 (dec_exponent y - int p + 1)"
  have u: "0 < u" by (simp add: u_def)
  with assms(2) have "x / u \<le> y / u" by (simp add: divide_right_mono)
  then have "rat_of_int (round_half_even (x / u)) * u \<le> of_int (round_half_even (y / u)) * u"
    using u by (simp add: mult_le_cancel_right_pos round_half_even_mono)
  with True show ?thesis by (simp only: round_pos_def Let_def u_def)
next
  case False
  then have "dec_exponent x + 1 \<le> dec_exponent y" using dec_exponent_mono [OF assms(1,2)] by simp
  then have "pow10 (dec_exponent x + 1) \<le> pow10 (dec_exponent y)" by (rule pow10_mono)
  with round_pos_bounds [OF assms(1,3)] round_pos_bounds [of y p] assms show ?thesis by linarith
qed

text \<open>A number of at most \<open>p\<close> significant digits is exact.\<close>

lemma round_pos_exact:
  assumes "0 < m" and "m < 10 ^ p"
  shows "round_pos p (of_int m * pow10 e) = of_int m * pow10 e"
proof -
  define q where "q = rat_of_int m * pow10 e"
  have q: "0 < q" using assms(1) by (simp add: q_def)
  have "q < pow10 (int p + e)"
  proof -
    have "rat_of_int m < 10 ^ p" using assms(2) by (metis of_int_less_iff of_int_numeral of_int_power)
    then show ?thesis using pow10_pos [of e]
      by (simp only: q_def pow10_add pow10_nat mult_less_cancel_right_pos)
  qed
  with dec_exponent_bounds [OF q] have "pow10 (dec_exponent q) < pow10 (int p + e)" by linarith
  then have "dec_exponent q - int p + 1 \<le> e" by (simp add: pow10_less_iff)
  then obtain k where k: "e = dec_exponent q - int p + 1 + int k" by (metis zle_iff_zadd)
  define u where "u = pow10 (dec_exponent q - int p + 1)"
  have "pow10 e = u * 10 ^ k" by (subst k) (simp only: pow10_add pow10_nat u_def)
  moreover have "u \<noteq> 0" by (metis less_irrefl pow10_pos u_def)
  ultimately have "q / u = of_int (m * 10 ^ k)" "q = of_int (m * 10 ^ k) * u"
    by (simp_all add: q_def)
  then show ?thesis
    by (metis q_def round_half_even_int round_pos_def u_def)
qed

subsection \<open>The laws of a context\<close>

locale rounding =
  fixes rnd :: "rat \<Rightarrow> rat" and digits :: nat
  assumes rnd_mono: "x \<le> y \<Longrightarrow> rnd x \<le> rnd y"
    and rnd_exact: "\<bar>m\<bar> < 10 ^ digits \<Longrightarrow> rnd (of_int m * pow10 e) = of_int m * pow10 e"
    and rnd_minus: "rnd (- x) = - rnd x"
    and rnd_pos: "0 < x \<Longrightarrow> 0 < rnd x"
begin

lemma rnd_0 [simp]: "rnd 0 = 0"
  using rnd_minus [of 0] by simp

lemma rnd_sign: "0 < rnd x \<longleftrightarrow> 0 < x" "rnd x = 0 \<longleftrightarrow> x = 0" "rnd x < 0 \<longleftrightarrow> x < 0"
  using rnd_pos [of x] rnd_pos [of "- x"] rnd_minus [of x]
  by (auto simp: not_less) (metis less_irrefl not_less_iff_gr_or_eq rnd_0 order.asym neg_0_less_iff_less)+

lemma rnd_abs: "rnd \<bar>x\<bar> = \<bar>rnd x\<bar>"
  using rnd_sign [of x] rnd_minus [of x] by (auto simp: abs_if)

text \<open>Comparison of a rounded value with a representable bound.\<close>

lemma rnd_le_exact:
  assumes "\<bar>m\<bar> < 10 ^ digits" and "x \<le> of_int m * pow10 e"
  shows "rnd x \<le> of_int m * pow10 e"
  using rnd_mono [OF assms(2)] rnd_exact [OF assms(1), of e] by simp

lemma rnd_ge_exact:
  assumes "\<bar>m\<bar> < 10 ^ digits" and "of_int m * pow10 e \<le> x"
  shows "of_int m * pow10 e \<le> rnd x"
  using rnd_mono [OF assms(2)] rnd_exact [OF assms(1), of e] by simp

end

lemma dec_round_laws:
  assumes "0 < p"
  shows "x \<le> y \<Longrightarrow> dec_round p x \<le> dec_round p y"
    and "\<bar>m\<bar> < 10 ^ p \<Longrightarrow> dec_round p (of_int m * pow10 e) = of_int m * pow10 e"
    and "dec_round p (- x) = - dec_round p x"
    and "0 < x \<Longrightarrow> 0 < dec_round p x"
proof -
  have pos: "0 < round_pos p x" if "0 < x" for x
    using round_pos_bounds [OF that assms] pow10_pos [of "dec_exponent x"] by linarith
  show "x \<le> y \<Longrightarrow> dec_round p x \<le> dec_round p y"
    using round_pos_mono [of x y p] round_pos_mono [of "- y" "- x" p] pos [of "- x"] pos [of y] assms
    by (auto simp: dec_round_def)
  have [simp]: "\<not> pow10 e < 0" by (simp add: not_less less_imp_le)
  show "\<bar>m\<bar> < 10 ^ p \<Longrightarrow> dec_round p (of_int m * pow10 e) = of_int m * pow10 e"
    using round_pos_exact [of m p e] round_pos_exact [of "- m" p e] pow10_pos [of e]
    by (auto simp: dec_round_def zero_less_mult_iff)
  show "dec_round p (- x) = - dec_round p x" by (auto simp: dec_round_def)
  show "0 < x \<Longrightarrow> 0 < dec_round p x" using pos by (simp add: dec_round_def)
qed

text \<open>The two contexts of the harness: the default precision and the evaluator's.\<close>

interpretation ctx28: rounding "dec_round 28" 28
  by unfold_locales (rule dec_round_laws; simp)+

interpretation ctx40: rounding "dec_round 40" 40
  by unfold_locales (rule dec_round_laws; simp)+

subsection \<open>Square roots\<close>

fun isqrt :: "nat \<Rightarrow> nat" where
  "isqrt n = (if n = 0 then 0
     else (let r = 2 * isqrt (n div 4) in if (r + 1) * (r + 1) \<le> n then r + 1 else r))"

declare isqrt.simps [simp del]

lemma isqrt_correct: "isqrt n * isqrt n \<le> n \<and> n < (isqrt n + 1) * (isqrt n + 1)"
proof (induction n rule: isqrt.induct)
  case (1 n)
  show ?case
  proof (cases "n = 0")
    case True
    then show ?thesis by (simp add: isqrt.simps)
  next
    case False
    define k where "k = isqrt (n div 4)"
    from 1 [OF False] have "k * k \<le> n div 4" "n div 4 < (k + 1) * (k + 1)" by (simp_all add: k_def)
    then have "4 * (k * k) \<le> n" "n < 4 * ((k + 1) * (k + 1))" by linarith+
    then have b: "(2 * k) * (2 * k) \<le> n" "n < (2 * k + 2) * (2 * k + 2)"
      by (simp_all add: algebra_simps)
    have "isqrt n = (if (2 * k + 1) * (2 * k + 1) \<le> n then 2 * k + 1 else 2 * k)"
      using False by (subst isqrt.simps) (simp only: k_def Let_def if_False)
    with b show ?thesis by (cases "(2 * k + 1) * (2 * k + 1) \<le> n") (simp_all add: not_le)
  qed
qed

text \<open>\<open>d.sqrt()\<close>: the exact root rounded half-even; a root of an inexact square never lies
  halfway, so comparing squares decides the rounding.\<close>

definition dec_sqrt :: "nat \<Rightarrow> rat \<Rightarrow> rat" where
  "dec_sqrt p q = (if q \<le> 0 then 0 else
     (let u = pow10 (dec_exponent q div 2 - int p + 1);
          r = q / (u * u);
          s = isqrt (nat \<lfloor>r\<rfloor>);
          h = rat_of_nat s + 1 / 2
      in rat_of_nat (if r < h * h then s else if h * h < r then s + 1
           else if even s then s else s + 1) * u))"

lemma dec_sqrt_nonneg: "0 \<le> dec_sqrt p q"
proof -
  have nn: "0 \<le> rat_of_nat n * pow10 k" for n k
    using pow10_pos [of k] by (intro mult_nonneg_nonneg) (simp_all add: order.strict_implies_order)
  show ?thesis unfolding dec_sqrt_def Let_def
    by (cases "q \<le> 0") (simp_all only: if_True if_False order_refl nn)
qed

lemma dec_sqrt_0 [simp, round_simps]: "dec_sqrt p 0 = 0"
  by (simp add: dec_sqrt_def)

end
