(* ===== verification/Receiver_Canonical.thy ===== *)
theory Receiver_Canonical
  imports Actuator_Timeline Dec_Context
begin

section \<open>The receiver canonicaliser\<close>

text \<open>
  \<^verbatim>\<open>scripts/experiment-harness/canonicalize-iperf-receiver.py\<close> and its copy for the T2 step,
  \<^verbatim>\<open>canonicalize-iperf-receiver-t2.py\<close>, which differs in the accepted experiment ids only:
  turn the staging rows of the iperf receiver into canonical interval records, and classify each
  interval, against the applied readbacks of the actuator timeline when there is one.  Staging
  rows are JSON objects, because nothing has checked them before; canonical records are the
  record \<open>interval_row\<close>.  What the JSON schema accepts is a parameter (\<open>interval_ok\<close>, and
  \<open>event_row\<close> for the rows of a timeline it has judged).
\<close>

named_theorems canon_simps \<open>classification and canonical records\<close>

definition STAGING_SCHEMA :: string where
  "STAGING_SCHEMA = ''sci_oran_iperf_receiver_interval_parse_v1''"

subsection \<open>Identities\<close>

definition literal_at :: "string \<Rightarrow> string \<Rightarrow> string option" where
  "literal_at p s = (if starts_with p s then Some (drop (length p) s) else None)"

definition digits_only :: "nat \<Rightarrow> string \<Rightarrow> string option" where
  "digits_only n s = map_option snd (digits_at n s)"

text \<open>\<open>R(?:0[1-9]|[1-9][0-9])\<close> at the end of the text.\<close>

definition repeat_suffix :: "string \<Rightarrow> bool" where
  "repeat_suffix s \<longleftrightarrow> (case s of [r, a, b] \<Rightarrow> r = CHR ''R'' \<and> is_digit a \<and> is_digit b \<and>
     (a \<noteq> CHR ''0'' \<or> b \<noteq> CHR ''0'') | _ \<Rightarrow> False)"

definition EXPERIMENT_RE :: "string \<Rightarrow> bool" where
  "EXPERIMENT_RE s \<longleftrightarrow> (case Option.bind (Option.bind (literal_at ''EXP-'' s) (digits_only 8))
       (literal_at ''-DL-18000K-'') of None \<Rightarrow> False | Some r \<Rightarrow> repeat_suffix r)"

definition T2_EXPERIMENT_RE :: "string \<Rightarrow> bool" where
  "T2_EXPERIMENT_RE s \<longleftrightarrow> (case Option.bind (Option.bind (literal_at ''EXP-'' s) (digits_only 8))
       (literal_at ''-T2-26TO39-DL-18000K-R0'') of None \<Rightarrow> False
     | Some r \<Rightarrow> r \<in> {''1'', ''2'', ''3'', ''4''})"

definition RUN_RE :: "string \<Rightarrow> bool" where
  "RUN_RE s \<longleftrightarrow> Option.bind (Option.bind (Option.bind (Option.bind (Option.bind
       (literal_at ''RUN-'' s) (digits_only 8)) (literal_at ''T'')) (digits_only 6))
       (literal_at ''Z-'')) (digits_only 3) = Some []"

definition validate_identity :: "(string \<Rightarrow> bool) \<Rightarrow> string \<Rightarrow> string \<Rightarrow> unit result" where
  "validate_identity experiment_re ex run = seqE [
     require (experiment_re ex) ''invalid Prompt-12 experiment_id'',
     require (RUN_RE run) ''invalid Prompt-12 run_id'']"

subsection \<open>Decimal reading and comparison\<close>

definition to_decimal :: "json \<Rightarrow> decimal result" where
  "to_decimal v = (case decimal_of v of None \<Rightarrow> Inl (PyExn ''InvalidOperation'') | Some d \<Rightarrow> Inr d)"

text \<open>The order of a decimal against an exact bound, as a sign; a NaN raises.\<close>

definition dec_cmp :: "decimal \<Rightarrow> rat \<Rightarrow> int result" where
  "dec_cmp d q = (case d of
       DInf neg \<Rightarrow> Inr (if neg then - 1 else 1)
     | _ \<Rightarrow> (case dec_value d of None \<Rightarrow> Inl (PyExn ''InvalidOperation'')
         | Some v \<Rightarrow> Inr (if v < q then - 1 else if v = q then 0 else 1)))"

text \<open>\<open>abs(d - c) > eps\<close> in the default context.\<close>

definition dec_far :: "decimal \<Rightarrow> rat \<Rightarrow> rat \<Rightarrow> bool result" where
  "dec_far d c eps = (case d of
       DInf _ \<Rightarrow> Inr True
     | _ \<Rightarrow> (case dec_value d of None \<Rightarrow> Inl (PyExn ''InvalidOperation'')
         | Some v \<Rightarrow> Inr (eps < \<bar>dec_round 28 (v - c)\<bar>)))"

definition PRIMARY_TS :: rat where "PRIMARY_TS = 1 / 5"

definition STARTUP_GUARD_S :: rat where "STARTUP_GUARD_S = 1"

definition EPSILON :: rat where "EPSILON = 1 / 1000000"

text \<open>A positive duration that is a whole number of nanoseconds.\<close>

definition exact_duration_ns :: "json \<Rightarrow> int result" where
  "exact_duration_ns value =
     bindE (to_decimal value) (\<lambda>d. bindE (dec_cmp d 0) (\<lambda>k.
       if k \<le> 0 then Inl (Domain ''interval duration must be positive'')
       else (case dec_value d of None \<Rightarrow> Inl (PyExn ''OverflowError'')
         | Some v \<Rightarrow>
            (let scaled = dec_round 28 (v * 1000000000)
             in if scaled \<noteq> of_int (round_half_even scaled)
                then Inl (Domain ''interval duration cannot be represented exactly at nanosecond resolution'')
                else Inr (round_half_even scaled)))))"

subsection \<open>Classification by shape\<close>

definition base_interval_class :: "json \<Rightarrow> string result" where
  "base_interval_class row =
     bindE (idx row ''interval_shape'') (\<lambda>shape.
     bindE (bindE (idx row ''interval_duration_s'') to_decimal) (\<lambda>duration.
     bindE (bindE (idx row ''interval_end_s'') to_decimal) (\<lambda>interval_end.
       if py_eq shape (JStr ''partial_terminal_candidate'')
       then bindE (dec_cmp duration 0) (\<lambda>lo.
            if \<not> 0 < lo then Inl (Domain ''partial terminal candidate has invalid duration'')
            else bindE (dec_cmp duration PRIMARY_TS) (\<lambda>hi.
              if \<not> hi < 0 then Inl (Domain ''partial terminal candidate has invalid duration'')
              else Inr ''partial_terminal''))
       else if \<not> py_eq shape (JStr ''complete_0p2'')
       then Inl (Domain (''unsupported staging interval shape: '' @ py_str shape))
       else bindE (dec_far duration PRIMARY_TS EPSILON) (\<lambda>far.
            if far then Inl (Domain ''complete_0p2 staging record is not 0.2 seconds'')
            else bindE (dec_cmp interval_end (STARTUP_GUARD_S + EPSILON)) (\<lambda>k.
              Inr (if k \<le> 0 then ''startup_guard'' else ''complete''))))))"

subsection \<open>Reading a timeline\<close>

text \<open>A row of a timeline: rejected by the JSON schema, or an event.\<close>

datatype event_row = BadEvent | Event actuator_event

definition row_ts :: "event_row \<Rightarrow> int" where
  "row_ts r = (case r of Event e \<Rightarrow> ev_ts e | BadEvent \<Rightarrow> 0)"

definition RATIO_TO_PRBS :: "(int \<times> int) list" where
  "RATIO_TO_PRBS = [(25, 13), (50, 26), (75, 39), (100, 52)]"

definition check_event :: "string \<Rightarrow> string \<Rightarrow> string set \<times> int option \<Rightarrow> event_row \<Rightarrow>
    (string set \<times> int option) result" where
  "check_event ex run s r = (case r of BadEvent \<Rightarrow> Inl SchemaInvalid
     | Event e \<Rightarrow> bindE (seqE [
         require (ev_experiment e = ex) ''actuator timeline experiment_id mismatch'',
         require (ev_run e = run) ''actuator timeline run_id mismatch'',
         require (ev_record e \<notin> fst s) ''duplicate actuator timeline record_id'',
         require (case snd s of None \<Rightarrow> True | Some t \<Rightarrow> t < ev_ts e)
           ''actuator timeline timestamp ordering violation''])
         (\<lambda>_. Inr (insert (ev_record e) (fst s), Some (ev_ts e))))"

fun triples :: "'a list \<Rightarrow> ('a \<times> 'a \<times> 'a) list" where
  "triples (a # b # c # xs) = (a, b, c) # triples xs"
| "triples xs = []"

definition check_control_rows ::
    "int option \<times> int list \<times> nat \<Rightarrow> actuator_event \<times> actuator_event \<times> actuator_event \<Rightarrow>
     (int option \<times> int list \<times> nat) result" where
  "check_control_rows s c = (case (s, c) of
     ((previous_ack, applied_timestamps, index), (command, applied, ack)) \<Rightarrow>
       bindE (if [ev_type command, ev_type applied, ev_type ack] \<noteq>
                 [''command'', ''applied_readback'', ''acknowledgement'']
              then Inl (control_error index ''invalid actuator event order'') else Inr ()) (\<lambda>_.
       case Option.bind (ev_ratio command) (map_of RATIO_TO_PRBS) of
         None \<Rightarrow> Inl (control_error index ''requested ratio outside Prompt-12 domain'')
       | Some expected_max \<Rightarrow>
          if ev_min applied \<noteq> Some 0
          then Inl (control_error index ''applied_min_prbs must be 0'')
          else if ev_max applied \<noteq> Some expected_max
          then Inl (control_error index ''ratio/readback mismatch'')
          else if ev_ack ack \<noteq> Some ''PASS''
          then Inl (control_error index ''acknowledgement must be PASS'')
          else if \<not> (ev_ts command < ev_ts applied \<and> ev_ts applied < ev_ts ack)
          then Inl (control_error index
                 ''command < applied_readback < acknowledgement ordering violation'')
          else if (case previous_ack of None \<Rightarrow> False | Some t \<Rightarrow> ev_ts command \<le> t)
          then Inl (control_error index ''command is not later than previous acknowledgement'')
          else Inr (Some (ev_ts ack), applied_timestamps @ [ev_ts applied], index + 1)))"

definition events_of :: "event_row list \<Rightarrow> actuator_event list" where
  "events_of rows = concat (map (\<lambda>r. case r of Event e \<Rightarrow> [e] | BadEvent \<Rightarrow> []) rows)"

definition load_actuator_timeline :: "string \<Rightarrow> string \<Rightarrow> event_row list \<Rightarrow> int list result" where
  "load_actuator_timeline ex run rows =
     bindE (require (rows \<noteq> []) ''actuator timeline is empty'') (\<lambda>_.
     bindE (require (length rows mod 3 = 0)
       ''actuator timeline must contain complete command/applied_readback/acknowledgement triplets'') (\<lambda>_.
     bindE (require (length rows div 3 \<le> 6)
       ''actuator timeline control count must be between 1 and 6'') (\<lambda>_.
     bindE (foldE (check_event ex run) ({}, None) rows) (\<lambda>_.
     bindE (foldE check_control_rows (None, [], 1) (triples (events_of rows)))
       (\<lambda>(_, applied_timestamps, _). Inr applied_timestamps)))))"

subsection \<open>Classification against the applied readbacks\<close>

definition positive_int :: "json \<Rightarrow> string \<Rightarrow> int result" where
  "positive_int v reason = (case v of JInt i \<Rightarrow> if 0 < i then Inr i else Inl (Domain reason)
     | JBool b \<Rightarrow> if b then Inr 1 else Inl (Domain reason) | _ \<Rightarrow> Inl (Domain reason))"

definition strict_hits :: "int list \<Rightarrow> int \<Rightarrow> int \<Rightarrow> int list" where
  "strict_hits timestamps start_ns end_ns = filter (\<lambda>t. start_ns < t \<and> t < end_ns) timestamps"

definition classify_interval :: "json \<Rightarrow> int list \<Rightarrow> string result" where
  "classify_interval row applied_timestamps =
     bindE (base_interval_class row) (\<lambda>base_class.
     if applied_timestamps = [] then Inr base_class
     else bindE (bindE (idx row ''rx_wall_ns'') (\<lambda>v. positive_int v ''invalid rx_wall_ns'')) (\<lambda>end_ns.
          bindE (bindE (idx row ''interval_duration_s'') exact_duration_ns) (\<lambda>duration_ns.
          (let start_ns = end_ns - duration_ns; hits = strict_hits applied_timestamps start_ns end_ns
           in if start_ns < 0 then Inl (Domain ''derived observed interval start is negative'')
              else if 1 < length hits
              then Inl (Domain ''multiple applied_readback events lie strictly inside one receiver interval'')
              else if hits = [] then Inr base_class
              else if base_class = ''startup_guard''
              then Inl (Domain ''applied_readback lies inside startup_guard interval'')
              else if base_class = ''partial_terminal''
              then Inl (Domain ''applied_readback lies inside partial_terminal interval'')
              else if base_class \<noteq> ''complete''
              then Inl (Domain ''transition crossing requires a complete interval'')
              else Inr ''transition_crossing''))))"

subsection \<open>Canonical records\<close>

record interval_row =
  iv_experiment :: string
  iv_run :: string
  iv_record :: string
  iv_ts :: int
  iv_wall :: int
  iv_mono :: int
  iv_start :: json
  iv_end :: json
  iv_duration :: json
  iv_throughput :: json
  iv_loss :: json
  iv_jitter :: json
  iv_bytes :: json
  iv_class :: string

definition natural_int :: "json \<Rightarrow> string \<Rightarrow> nat result" where
  "natural_int v reason = (case v of JInt i \<Rightarrow> if 0 \<le> i then Inr (nat i) else Inl (Domain reason)
     | JBool b \<Rightarrow> Inr (of_bool b) | _ \<Rightarrow> Inl (Domain reason))"

definition canonical_record :: "string \<Rightarrow> string \<Rightarrow> json \<Rightarrow> int list \<Rightarrow> interval_row result" where
  "canonical_record ex run row applied_timestamps =
     bindE (bindE (idx row ''source_sequence'') (\<lambda>v. natural_int v ''invalid source_sequence'')) (\<lambda>sequence.
     bindE (idx row ''rx_wall_ns'') (\<lambda>wall_v.
     bindE (idx row ''rx_mono_ns'') (\<lambda>mono_v.
     bindE (positive_int wall_v ''invalid rx_wall_ns'') (\<lambda>wall.
     bindE (positive_int mono_v ''invalid rx_mono_ns'') (\<lambda>mono_ns.
     bindE (classify_interval row applied_timestamps) (\<lambda>interval_class.
     bindE (idx row ''interval_start_s'') (\<lambda>start_s.
     bindE (idx row ''interval_end_s'') (\<lambda>end_s.
     bindE (idx row ''interval_duration_s'') (\<lambda>duration_s.
     bindE (idx row ''throughput_kbit_s'') (\<lambda>throughput.
     bindE (getE row ''loss_pct'') (\<lambda>loss.
     bindE (getE row ''jitter_ms'') (\<lambda>jitter.
     bindE (getE row ''bytes_transferred'') (\<lambda>bytes.
       Inr \<lparr>iv_experiment = ex, iv_run = run,
         iv_record = ''IPERF-RX-LINE-'' @ zero_pad 9 sequence,
         iv_ts = wall, iv_wall = wall, iv_mono = mono_ns, iv_start = start_s, iv_end = end_s,
         iv_duration = duration_s, iv_throughput = throughput, iv_loss = loss,
         iv_jitter = jitter, iv_bytes = bytes, iv_class = interval_class\<rparr>)))))))))))))"

subsection \<open>The loop over the staging rows\<close>

type_synonym canon_state = "(json \<times> json) option \<times> interval_row list"

text \<open>\<open>a <= b\<close> on the values compared here.\<close>

definition py_le :: "json \<Rightarrow> json \<Rightarrow> bool result" where
  "py_le v w = bindE (py_less v w) (\<lambda>b. Inr (b \<or> py_eq v w))"

definition check_clock :: "(json \<times> json) option \<Rightarrow> json \<Rightarrow> json \<Rightarrow> unit result" where
  "check_clock previous wall mono_ns = (case previous of None \<Rightarrow> Inr ()
     | Some (previous_wall, previous_mono) \<Rightarrow>
        bindE (py_less wall previous_wall) (\<lambda>b.
          if b then Inl (Domain ''rx_wall_ns ordering violation'')
          else bindE (py_le mono_ns previous_mono) (\<lambda>b.
            if b then Inl (Domain ''rx_mono_ns ordering violation'') else Inr ())))"

definition canonical_step :: "(interval_row \<Rightarrow> bool) \<Rightarrow> string \<Rightarrow> string \<Rightarrow> int list \<Rightarrow> canon_state \<Rightarrow>
    json \<Rightarrow> canon_state result" where
  "canonical_step interval_ok ex run applied_timestamps s row =
     bindE (getE row ''schema'') (\<lambda>schema.
     bindE (require (py_eq schema (JStr STAGING_SCHEMA)) ''unexpected staging schema'') (\<lambda>_.
     bindE (idx row ''rx_wall_ns'') (\<lambda>wall.
     bindE (idx row ''rx_mono_ns'') (\<lambda>mono_ns.
     bindE (check_clock (fst s) wall mono_ns) (\<lambda>_.
     bindE (canonical_record ex run row applied_timestamps) (\<lambda>record.
       if (\<exists>i. wall = JInt i) \<and> (\<exists>i. mono_ns = JInt i) \<and> interval_ok record
       then Inr (Some (wall, mono_ns), snd s @ [record]) else Inl SchemaInvalid))))))"

datatype scope = NoTransitions | WithTransitions

definition scope_check :: "scope \<Rightarrow> bool \<Rightarrow> unit result" where
  "scope_check scope timeline_given = (case scope of
       NoTransitions \<Rightarrow> require (\<not> timeline_given)
         ''actuator timeline is forbidden for no-actuator-transitions scope''
     | WithTransitions \<Rightarrow> require timeline_given
         ''actuator timeline is required for actuator-transitions scope'')"

definition canonicalize :: "(string \<Rightarrow> bool) \<Rightarrow> bool \<Rightarrow> exn option \<Rightarrow> (interval_row \<Rightarrow> bool) \<Rightarrow>
    string \<Rightarrow> string \<Rightarrow> scope \<Rightarrow> event_row list result option \<Rightarrow> json list result \<Rightarrow>
    interval_row list result" where
  "canonicalize experiment_re output_exists schema_fault interval_ok ex run scope timeline input =
     bindE (validate_identity experiment_re ex run) (\<lambda>_.
     bindE (require (\<not> output_exists) ''output already exists'') (\<lambda>_.
     bindE (scope_check scope (timeline \<noteq> None)) (\<lambda>_.
     bindE (case schema_fault of None \<Rightarrow> Inr () | Some e \<Rightarrow> Inl e) (\<lambda>_.
     bindE (case timeline of None \<Rightarrow> Inr []
            | Some rows \<Rightarrow> bindE rows (load_actuator_timeline ex run)) (\<lambda>applied_timestamps.
     bindE input (\<lambda>staging_rows.
     bindE (foldE (canonical_step interval_ok ex run applied_timestamps) (None, []) staging_rows)
       (\<lambda>(_, canonical_rows). Inr canonical_rows)))))))"

definition canonicalize_main where
  "canonicalize_main = canonicalize EXPERIMENT_RE"

definition canonicalize_t2_main where
  "canonicalize_t2_main = canonicalize T2_EXPERIMENT_RE"

subsection \<open>Both loops keep their files ordered\<close>

lemma check_event_Inr:
  "check_event ex run s r = Inr s' \<Longrightarrow> \<exists>e. r = Event e \<and> ev_experiment e = ex \<and> ev_run e = run \<and>
     ev_record e \<notin> fst s \<and> (\<forall>t. snd s = Some t \<longrightarrow> t < ev_ts e) \<and>
     s' = (insert (ev_record e) (fst s), Some (ev_ts e))"
  by (cases r) (auto simp: check_event_def split: option.splits)

interpretation timeline_scan: sorted_scan "check_event ex run" snd row_ts "(<)" for ex run
  by unfold_locales (auto dest!: check_event_Inr simp: row_ts_def)

lemma num_less_ints: "num_less (JInt a) (JInt b) \<longleftrightarrow> a < b"
  by (simp add: num_less_def)

text \<open>The clocks of a staging row, as integers, and their order between rows.\<close>

definition clock_of :: "json \<Rightarrow> int" where
  "clock_of v = (case v of JInt i \<Rightarrow> i | _ \<Rightarrow> 0)"

definition row_clock :: "json \<Rightarrow> int \<times> int" where
  "row_clock row = (case (idx row ''rx_wall_ns'', idx row ''rx_mono_ns'') of
     (Inr w, Inr m) \<Rightarrow> (clock_of w, clock_of m) | _ \<Rightarrow> (0, 0))"

definition clock_before :: "int \<times> int \<Rightarrow> int \<times> int \<Rightarrow> bool" where
  "clock_before a b \<longleftrightarrow> fst a \<le> fst b \<and> snd a < snd b"

lemma transp_clock_before: "transp clock_before"
  by (auto simp: transp_def clock_before_def)

definition seen_clock :: "canon_state \<Rightarrow> (int \<times> int) option" where
  "seen_clock s = map_option (\<lambda>(w, m). (clock_of w, clock_of m)) (fst s)"

definition good_clock :: "canon_state \<Rightarrow> bool" where
  "good_clock s \<longleftrightarrow> (\<forall>w m. fst s = Some (w, m) \<longrightarrow> (\<exists>i. w = JInt i) \<and> (\<exists>j. m = JInt j))"

lemma canonical_step_Inr:
  assumes "canonical_step ok ex run ts s row = Inr s'"
  shows "\<exists>w m rec. idx row ''rx_wall_ns'' = Inr (JInt w) \<and> idx row ''rx_mono_ns'' = Inr (JInt m) \<and>
    check_clock (fst s) (JInt w) (JInt m) = Inr () \<and> canonical_record ex run row ts = Inr rec \<and>
    ok rec \<and> s' = (Some (JInt w, JInt m), snd s @ [rec])"
  using assms by (auto simp: canonical_step_def split: if_splits)

lemma check_clock_Inr:
  "check_clock (Some (JInt a, JInt b)) (JInt w) (JInt m) = Inr () \<longleftrightarrow> a \<le> w \<and> b < m"
  by (auto simp: check_clock_def py_le_def)

lemma canonical_step_clock:
  assumes "canonical_step ok ex run ts s row = Inr s'"
  shows "good_clock s' \<and> seen_clock s' = Some (row_clock row) \<and>
    (good_clock s \<longrightarrow> (\<forall>k. seen_clock s = Some k \<longrightarrow> clock_before k (row_clock row)))"
proof -
  from canonical_step_Inr [OF assms] obtain w m rec where
    r: "idx row ''rx_wall_ns'' = Inr (JInt w)" "idx row ''rx_mono_ns'' = Inr (JInt m)"
      "check_clock (fst s) (JInt w) (JInt m) = Inr ()" "s' = (Some (JInt w, JInt m), snd s @ [rec])"
    by blast
  then show ?thesis
    by (auto simp: good_clock_def seen_clock_def row_clock_def clock_of_def clock_before_def
      check_clock_Inr)
qed

text \<open>A state reached by the loop is good, so the loop body may be taken to require it.\<close>

definition guarded_step :: "(interval_row \<Rightarrow> bool) \<Rightarrow> string \<Rightarrow> string \<Rightarrow> int list \<Rightarrow> canon_state \<Rightarrow>
    json \<Rightarrow> canon_state result" where
  "guarded_step ok ex run ts s row =
     (if good_clock s then canonical_step ok ex run ts s row else Inl SchemaInvalid)"

lemma guarded_fold:
  "good_clock s \<Longrightarrow> foldE (canonical_step ok ex run ts) s rows = foldE (guarded_step ok ex run ts) s rows"
proof (induction rows arbitrary: s)
  case Nil
  then show ?case by simp
next
  case (Cons r rows)
  then show ?case
    using canonical_step_clock [of ok ex run ts s r]
    by (cases "canonical_step ok ex run ts s r") (simp_all add: guarded_step_def)
qed

interpretation staging_scan: sorted_scan "guarded_step ok ex run ts" seen_clock row_clock clock_before
  for ok ex run ts
proof unfold_locales
  fix s row s' k
  assume st: "guarded_step ok ex run ts s row = Inr s'"
  then have g: "good_clock s" "canonical_step ok ex run ts s row = Inr s'"
    by (auto simp: guarded_step_def split: if_splits)
  show "seen_clock s = Some k \<Longrightarrow> clock_before k (row_clock row)"
    using canonical_step_clock [OF g(2)] g(1) by blast
  show "seen_clock s' = Some (row_clock row)" using canonical_step_clock [OF g(2)] by blast
next
  show "transp clock_before" by (rule transp_clock_before)
qed

lemma canonical_record_Inr:
  assumes "canonical_record ex run row ts = Inr rec"
    and "idx row ''rx_wall_ns'' = Inr (JInt w)" "idx row ''rx_mono_ns'' = Inr (JInt m)"
  shows "iv_experiment rec = ex \<and> iv_run rec = run \<and> iv_ts rec = w \<and> iv_wall rec = w \<and>
    iv_mono rec = m \<and> 0 < w \<and> 0 < m \<and> classify_interval row ts = Inr (iv_class rec) \<and>
    idx row ''interval_duration_s'' = Inr (iv_duration rec)"
  using assms by (auto simp: canonical_record_def positive_int_def split: if_splits)

lemma canonical_fold:
  assumes "foldE (canonical_step ok ex run ts) (c, rs) rows = Inr (c', rs')"
  shows "\<exists>new. rs' = rs @ new \<and> length new = length rows \<and>
    (\<forall>i < length rows. row_clock (rows ! i) = (iv_wall (new ! i), iv_mono (new ! i)) \<and>
       ok (new ! i) \<and> iv_ts (new ! i) = iv_wall (new ! i) \<and>
       iv_experiment (new ! i) = ex \<and> iv_run (new ! i) = run \<and>
       classify_interval (rows ! i) ts = Inr (iv_class (new ! i)) \<and>
       idx (rows ! i) ''interval_duration_s'' = Inr (iv_duration (new ! i)) \<and>
       idx (rows ! i) ''rx_wall_ns'' = Inr (JInt (iv_wall (new ! i))))"
  using assms
proof (induction rows arbitrary: c rs)
  case Nil
  then show ?case by simp
next
  case (Cons row rows)
  from Cons.prems obtain t where st: "canonical_step ok ex run ts (c, rs) row = Inr t"
    "foldE (canonical_step ok ex run ts) t rows = Inr (c', rs')" by auto
  from canonical_step_Inr [OF st(1)] obtain w m rec where
    r: "idx row ''rx_wall_ns'' = Inr (JInt w)" "idx row ''rx_mono_ns'' = Inr (JInt m)"
      "canonical_record ex run row ts = Inr rec" "ok rec"
      "t = (Some (JInt w, JInt m), rs @ [rec])" by auto
  from Cons.IH [OF st(2) [unfolded r(5)]] obtain new where
    new: "rs' = (rs @ [rec]) @ new" "length new = length rows"
      "\<forall>i < length rows. row_clock (rows ! i) = (iv_wall (new ! i), iv_mono (new ! i)) \<and>
       ok (new ! i) \<and> iv_ts (new ! i) = iv_wall (new ! i) \<and>
       iv_experiment (new ! i) = ex \<and> iv_run (new ! i) = run \<and>
       classify_interval (rows ! i) ts = Inr (iv_class (new ! i)) \<and>
       idx (rows ! i) ''interval_duration_s'' = Inr (iv_duration (new ! i)) \<and>
       idx (rows ! i) ''rx_wall_ns'' = Inr (JInt (iv_wall (new ! i)))" by blast
  have hd: "row_clock row = (iv_wall rec, iv_mono rec)"
    using canonical_record_Inr [OF r(3,1,2)] r(1,2) by (simp add: row_clock_def clock_of_def)
  show ?case
    using new hd r(1,4) canonical_record_Inr [OF r(3,1,2)]
    by (intro exI [of _ "rec # new"]) (auto simp: nth_Cons')
qed

subsection \<open>Properties\<close>

text \<open>What a canonical file holds, row by row and over the whole file.\<close>

lemma canonicalize_rows:
  assumes "canonicalize re out fault ok ex run scope timeline (Inr staging) = Inr rows"
  obtains ts where "(case timeline of None \<Rightarrow> Inr [] | Some t \<Rightarrow> bindE t (load_actuator_timeline ex run)) = Inr ts"
    "length rows = length staging"
    "\<And>i. i < length staging \<Longrightarrow> classify_interval (staging ! i) ts = Inr (iv_class (rows ! i)) \<and>
       idx (staging ! i) ''interval_duration_s'' = Inr (iv_duration (rows ! i)) \<and>
       idx (staging ! i) ''rx_wall_ns'' = Inr (JInt (iv_wall (rows ! i))) \<and>
       row_clock (staging ! i) = (iv_wall (rows ! i), iv_mono (rows ! i)) \<and>
       iv_experiment (rows ! i) = ex \<and> iv_run (rows ! i) = run \<and>
       iv_ts (rows ! i) = iv_wall (rows ! i) \<and> ok (rows ! i)"
    "\<And>i j. i < j \<Longrightarrow> j < length rows \<Longrightarrow>
       iv_wall (rows ! i) \<le> iv_wall (rows ! j) \<and> iv_mono (rows ! i) < iv_mono (rows ! j)"
proof -
  from assms obtain ts c where
    ts: "(case timeline of None \<Rightarrow> Inr [] | Some t \<Rightarrow> bindE t (load_actuator_timeline ex run)) = Inr ts" and
    f: "foldE (canonical_step ok ex run ts) (None, []) staging = Inr (c, rows)"
    by (auto simp: canonicalize_def)
  from canonical_fold [OF f] have
    n: "length rows = length staging"
    and e: "\<And>i. i < length staging \<Longrightarrow> classify_interval (staging ! i) ts = Inr (iv_class (rows ! i)) \<and>
       idx (staging ! i) ''interval_duration_s'' = Inr (iv_duration (rows ! i)) \<and>
       idx (staging ! i) ''rx_wall_ns'' = Inr (JInt (iv_wall (rows ! i))) \<and>
       row_clock (staging ! i) = (iv_wall (rows ! i), iv_mono (rows ! i)) \<and>
       iv_experiment (rows ! i) = ex \<and> iv_run (rows ! i) = run \<and>
       iv_ts (rows ! i) = iv_wall (rows ! i) \<and> ok (rows ! i)" by auto
  have "good_clock (None, [])" by (simp add: good_clock_def)
  with f have g: "foldE (guarded_step ok ex run ts) (None, []) staging = Inr (c, rows)"
    by (simp add: guarded_fold)
  have "iv_wall (rows ! i) \<le> iv_wall (rows ! j) \<and> iv_mono (rows ! i) < iv_mono (rows ! j)"
    if "i < j" "j < length rows" for i j
    using staging_scan.scan_pairs [OF g that(1)] that n e [of i] e [of j]
    by (simp add: clock_before_def)
  with ts n e show thesis by (rule that)
qed

text \<open>C19: every file the canonicaliser writes has one record per staging row, all of the given
  experiment and run and accepted by the schema, with the wall clock as timestamp; the wall
  clocks never fall and the monotonic clocks strictly rise over the whole file.\<close>

theorem canonical_file_is_ordered:
  assumes "canonicalize re out fault ok ex run scope timeline (Inr staging) = Inr rows"
  shows "length rows = length staging \<and>
    (\<forall>r \<in> set rows. iv_experiment r = ex \<and> iv_run r = run \<and> iv_ts r = iv_wall r \<and> ok r) \<and>
    (\<forall>i j. i < j \<longrightarrow> j < length rows \<longrightarrow>
       iv_wall (rows ! i) \<le> iv_wall (rows ! j) \<and> iv_mono (rows ! i) < iv_mono (rows ! j))"
proof -
  from assms show ?thesis
    by (rule canonicalize_rows) (auto simp: in_set_conv_nth)
qed

lemma base_interval_class_range:
  "base_interval_class row = Inr c \<Longrightarrow> c \<in> {''partial_terminal'', ''startup_guard'', ''complete''}"
  by (auto simp: base_interval_class_def split: if_splits)

text \<open>A complete interval holds no applied readback.\<close>

lemma classify_complete:
  assumes "classify_interval row ts = Inr ''complete''"
    and "idx row ''rx_wall_ns'' = Inr (JInt w)" and "idx row ''interval_duration_s'' = Inr d"
    and "exact_duration_ns d = Inr n" and "t \<in> set ts"
  shows "\<not> (w - n < t \<and> t < w)"
  using assms
  by (auto simp: classify_interval_def positive_int_def Let_def strict_hits_def filter_empty_conv
    split: if_splits)

lemma classify_interval_base:
  "classify_interval row ts = Inr c \<Longrightarrow>
   base_interval_class row = Inr c \<or> c = ''transition_crossing''"
  by (auto simp: classify_interval_def Let_def split: if_splits)

lemma classify_interval_range:
  assumes "classify_interval row ts = Inr c"
  shows "c \<in> insert ''transition_crossing'' {''partial_terminal'', ''startup_guard'', ''complete''}"
  using classify_interval_base [OF assms]
proof
  assume "base_interval_class row = Inr c"
  then show ?thesis by (intro insertI2 base_interval_class_range)
next
  assume "c = ''transition_crossing''"
  then show ?thesis by (rule ssubst) (rule insertI1)
qed

lemma filter_one: "length (filter P xs) \<le> 1 \<Longrightarrow> filter P xs \<noteq> [] \<Longrightarrow> \<exists>!i. i < length xs \<and> P (xs ! i)"
proof -
  assume l: "length (filter P xs) \<le> 1" and n: "filter P xs \<noteq> []"
  from n have "0 < length (filter P xs)" by (rule length_greater_0_conv [THEN iffD2])
  with l have "length (filter P xs) = 1" by linarith
  then have "card {i. i < length xs \<and> P (xs ! i)} = 1" by (simp only: length_filter_conv_card)
  then obtain a where "{i. i < length xs \<and> P (xs ! i)} = {a}" by (rule card_1_singletonE)
  then have "i < length xs \<and> P (xs ! i) \<longleftrightarrow> i = a" for i by (simp only: set_eq_iff) simp
  then show ?thesis by (simp only:) simp
qed

text \<open>C18: against a non-empty list of applied readbacks an interval is a transition crossing
  exactly when its shape makes it complete and exactly one readback lies strictly inside the
  observed interval (end minus exact duration, end); any other class is the class of its shape,
  and then no readback lies strictly inside.\<close>

theorem classification_is_exact:
  assumes "classify_interval row ts = Inr cls" and "ts \<noteq> []"
  shows "\<exists>base v end_ns d dur. base_interval_class row = Inr base \<and>
    idx row ''rx_wall_ns'' = Inr v \<and> positive_int v ''invalid rx_wall_ns'' = Inr end_ns \<and>
    idx row ''interval_duration_s'' = Inr d \<and> exact_duration_ns d = Inr dur \<and>
    0 \<le> end_ns - dur \<and>
    (if cls = ''transition_crossing''
     then base = ''complete'' \<and> (\<exists>!i. i < length ts \<and> end_ns - dur < ts ! i \<and> ts ! i < end_ns)
     else cls = base \<and> (\<forall>t \<in> set ts. \<not> (end_ns - dur < t \<and> t < end_ns)))"
proof -
  from assms obtain base v end_ns d dur where
    b: "base_interval_class row = Inr base" and
    w: "idx row ''rx_wall_ns'' = Inr v" "positive_int v ''invalid rx_wall_ns'' = Inr end_ns" and
    d: "idx row ''interval_duration_s'' = Inr d" "exact_duration_ns d = Inr dur"
    by (auto simp: classify_interval_def)
  let ?hits = "strict_hits ts (end_ns - dur) end_ns"
  from assms b w d have nn: "0 \<le> end_ns - dur" and l: "length ?hits \<le> 1" and
    c: "?hits = [] \<and> cls = base \<or> ?hits \<noteq> [] \<and> base = ''complete'' \<and> cls = ''transition_crossing''"
    by (auto simp: classify_interval_def Let_def split: if_splits)
  from base_interval_class_range [OF b] have bn: "base \<noteq> ''transition_crossing''" by auto
  show ?thesis
  proof (cases "?hits = []")
    case True
    then have "\<forall>t \<in> set ts. \<not> (end_ns - dur < t \<and> t < end_ns)"
      by (simp add: strict_hits_def filter_empty_conv)
    with True c bn b w d nn show ?thesis by auto
  next
    case False
    with l have "\<exists>!i. i < length ts \<and> end_ns - dur < ts ! i \<and> ts ! i < end_ns"
      unfolding strict_hits_def by (rule filter_one)
    with False c b w d nn show ?thesis by auto
  qed
qed

subsection \<open>What the timeline builder writes is read back\<close>

lemma check_events_accepted:
  "sorted_wrt (<) (map ev_ts es) \<Longrightarrow> distinct (map ev_record es) \<Longrightarrow>
   \<forall>e \<in> set es. ev_experiment e = ex \<and> ev_run e = run \<and> ev_record e \<notin> seen \<and>
     (\<forall>t. prev = Some t \<longrightarrow> t < ev_ts e) \<Longrightarrow>
   \<exists>s. foldE (check_event ex run) (seen, prev) (map Event es) = Inr s"
proof (induction es arbitrary: seen prev)
  case Nil
  then show ?case by simp
next
  case (Cons e es)
  have "check_event ex run (seen, prev) (Event e) = Inr (insert (ev_record e) seen, Some (ev_ts e))"
    using Cons.prems(3) by (auto simp: check_event_def split: option.splits)
  moreover have "\<exists>s. foldE (check_event ex run) (insert (ev_record e) seen, Some (ev_ts e)) (map Event es) = Inr s"
  proof (rule Cons.IH)
    have "\<forall>x \<in> set es. ev_ts e < ev_ts x" using Cons.prems(1) by simp
    moreover have "ev_record e \<notin> ev_record ` set es" using Cons.prems(2) by simp
    then have "\<forall>x \<in> set es. ev_record x \<noteq> ev_record e" by (metis imageI)
    moreover have "\<forall>x \<in> set es. ev_experiment x = ex \<and> ev_run x = run \<and> ev_record x \<notin> seen"
      using Cons.prems(3) by (meson list.set_intros(2))
    ultimately show "\<forall>x \<in> set es. ev_experiment x = ex \<and> ev_run x = run \<and>
        ev_record x \<notin> insert (ev_record e) seen \<and> (\<forall>t. Some (ev_ts e) = Some t \<longrightarrow> t < ev_ts x)"
      by (metis insertE option.inject)
  qed (use Cons.prems(1,2) in simp_all)
  ultimately show ?case by simp
qed

lemma events_of_Event [simp]: "events_of (map Event es) = es"
  by (induction es) (simp_all add: events_of_def)

definition applied_times :: "actuator_event list \<Rightarrow> int list" where
  "applied_times es = map ev_ts (filter (\<lambda>e. ev_type e = ''applied_readback'') es)"

lemma well_timed_controls:
  "well_timed ex run prev i ratios es \<Longrightarrow>
   \<exists>p n. foldE check_control_rows (prev, acc, i) (triples es) = Inr (p, acc @ applied_times es, n)"
proof (induction ratios arbitrary: prev i es acc)
  case Nil
  then show ?case by (simp add: applied_times_def)
next
  case (Cons r rs)
  then obtain c a k mx rest where es: "es = command_event ex run i c r #
      applied_event ex run i a 0 mx # ack_event ex run i k # rest"
    and mx: "map_of PROMPT12_RATIO_TO_PRBS r = Some mx" "\<forall>t. prev = Some t \<longrightarrow> t < c"
      "c < a" "a < k"
    and wt: "well_timed ex run (Some k) (Suc i) rs rest" by auto
  have "check_control_rows (prev, acc, i) (command_event ex run i c r,
      applied_event ex run i a 0 mx, ack_event ex run i k) = Inr (Some k, acc @ [a], Suc i)"
    using mx by (auto simp: check_control_rows_def command_event_def applied_event_def ack_event_def
      RATIO_TO_PRBS_def PROMPT12_RATIO_TO_PRBS_def split: option.splits)
  moreover have "applied_times es = a # applied_times rest"
    by (simp add: es applied_times_def command_event_def applied_event_def ack_event_def)
  ultimately show ?case
    using Cons.IH [OF wt, of "acc @ [a]"] by (simp add: es)
qed

text \<open>C17: a timeline of one to six controls that the builder produced is accepted by the
  canonicaliser's reader, whatever the logs were, and what the reader extracts are the builder's
  applied-readback timestamps.\<close>

theorem built_timeline_is_readable:
  assumes "build_events ex run ratios cls als kls = Inr es"
    and "ratios \<noteq> []" and "length ratios \<le> 6"
  shows "load_actuator_timeline ex run (map Event es) = Inr (applied_times es)"
proof -
  have wt: "well_timed ex run None 1 ratios es" by (rule build_events_well_timed [OF assms(1)])
  have "\<exists>s. foldE (check_event ex run) ({}, None) (map Event es) = Inr s"
    by (rule check_events_accepted)
      (use well_timed_sorted [OF wt] well_timed_distinct [OF wt] well_timed_identity [OF wt] in auto)
  moreover have "es \<noteq> []" "length es = 3 * length ratios"
    using well_timed_length [OF wt] assms(2) by auto
  ultimately show ?thesis
    using well_timed_controls [OF wt, of "[]"] assms(3)
    by (auto simp: load_actuator_timeline_def)
qed


subsection \<open>A sample file\<close>

lemma dec_cmp_value:
  "dec_value d = Some v \<Longrightarrow> dec_cmp d q = Inr (if v < q then - 1 else if v = q then 0 else 1)"
  by (cases d) (simp_all add: dec_cmp_def dec_value_def)

lemma dec_far_value:
  "dec_value d = Some v \<Longrightarrow> dec_far d c eps = Inr (eps < \<bar>dec_round 28 (v - c)\<bar>)"
  by (cases d) (simp_all add: dec_far_def dec_value_def)

definition sample_staging :: "int \<Rightarrow> int \<Rightarrow> rat \<Rightarrow> json" where
  "sample_staging n wall end_s = JObj [
     (''schema'', JStr STAGING_SCHEMA), (''source_sequence'', JInt n),
     (''rx_wall_ns'', JInt wall), (''rx_mono_ns'', JInt (1000 + n)),
     (''interval_shape'', JStr ''complete_0p2''),
     (''interval_start_s'', JFloat (end_s - 1 / 5)), (''interval_end_s'', JFloat end_s),
     (''interval_duration_s'', JFloat (1 / 5)), (''throughput_kbit_s'', JInt 18000)]"

definition sample_canonical :: "nat \<Rightarrow> int \<Rightarrow> rat \<Rightarrow> string \<Rightarrow> interval_row" where
  "sample_canonical n wall end_s cls = \<lparr>iv_experiment = sample_ex,
     iv_run = sample_run, iv_record = ''IPERF-RX-LINE-'' @ zero_pad 9 n,
     iv_ts = wall, iv_wall = wall, iv_mono = 1000 + int n,
     iv_start = JFloat (end_s - 1 / 5), iv_end = JFloat end_s, iv_duration = JFloat (1 / 5),
     iv_throughput = JInt 18000, iv_loss = JNull, iv_jitter = JNull, iv_bytes = JNull,
     iv_class = cls\<rparr>"

lemma fifth_value: "dec_value (float_decimal (1 / 5)) = Some (1 / 5)"
  by (rule float_decimal_value [of _ 1]) (simp_all add: Ints_numeral)

lemma sample_base:
  assumes "dec_value (float_decimal end_s) = Some end_s" and "1000001 / 1000000 < end_s"
  shows "base_interval_class (sample_staging n wall end_s) = Inr ''complete''"
  using assms
  by (simp add: base_interval_class_def sample_staging_def idx_def obj_idx_def to_decimal_def
    decimal_of_def dec_cmp_value dec_far_value [OF fifth_value] PRIMARY_TS_def EPSILON_def
    STARTUP_GUARD_S_def)

lemma sample_duration: "exact_duration_ns (JFloat (1 / 5)) = Inr 200000000"
proof -
  have "dec_round 28 (of_int 2 * pow10 8) = of_int 2 * pow10 8" by (rule ctx28.rnd_exact) simp
  then have r: "dec_round 28 200000000 = of_int 200000000" by (simp add: pow10_def)
  have "round_half_even (of_int 200000000) = 200000000" by (rule round_half_even_int)
  then show ?thesis
    by (simp add: exact_duration_ns_def to_decimal_def decimal_of_def dec_cmp_value [OF fifth_value]
      fifth_value r Let_def)
qed

lemma sample_ends: "dec_value (float_decimal (11 / 5)) = Some (11 / 5)"
  "dec_value (float_decimal (12 / 5)) = Some (12 / 5)"
  by (rule float_decimal_value [of _ 1]; simp add: Ints_numeral)+

lemma sample_classify:
  "classify_interval (sample_staging 1 1767225602400000000 (11 / 5)) [1767225602500000000] =
     Inr ''complete''"
  "classify_interval (sample_staging 2 1767225602600000000 (12 / 5)) [1767225602500000000] =
     Inr ''transition_crossing''"
proof -
  have "idx (sample_staging n w e) ''rx_wall_ns'' = Inr (JInt w) \<and>
      idx (sample_staging n w e) ''interval_duration_s'' = Inr (JFloat (1 / 5))" for n w e
    by (simp add: sample_staging_def idx_def obj_idx_def)
  then show
    "classify_interval (sample_staging 1 1767225602400000000 (11 / 5)) [1767225602500000000] =
       Inr ''complete''"
    "classify_interval (sample_staging 2 1767225602600000000 (12 / 5)) [1767225602500000000] =
       Inr ''transition_crossing''"
    by (simp_all add: classify_interval_def sample_base sample_ends positive_int_def sample_duration
      strict_hits_def)
qed

lemma sample_identity: "validate_identity EXPERIMENT_RE sample_ex sample_run = Inr ()"
proof -
  have "EXPERIMENT_RE sample_ex"
    by (simp add: EXPERIMENT_RE_def literal_at_def digits_only_def digits_at_def starts_with_def
      is_digit_def repeat_suffix_def nat_of_digits_def digit_val_def sample_ex_def)
  moreover have "RUN_RE sample_run"
    by (simp add: RUN_RE_def literal_at_def digits_only_def digits_at_def starts_with_def
      is_digit_def nat_of_digits_def digit_val_def sample_run_def)
  ultimately show ?thesis by (simp add: validate_identity_def)
qed

lemma sample_readable:
  "load_actuator_timeline sample_ex sample_run (map Event sample_events) = Inr [1767225602500000000]"
proof -
  have wt: "well_timed sample_ex sample_run None 1 [75] sample_events"
    by (rule build_events_well_timed [OF sample_build])
  have "\<exists>s. foldE (check_event sample_ex sample_run) ({}, None) (map Event sample_events) = Inr s"
    by (rule check_events_accepted)
      (use well_timed_sorted [OF wt] well_timed_distinct [OF wt] well_timed_identity [OF wt] in auto)
  moreover have "applied_times sample_events = [1767225602500000000]"
    by (simp add: applied_times_def sample_events_def command_event_def applied_event_def ack_event_def)
  moreover have "sample_events \<noteq> []" "length sample_events = 3" by (simp_all add: sample_events_def)
  ultimately show ?thesis
    using well_timed_controls [OF wt, of "[]"] by (auto simp: load_actuator_timeline_def)
qed

lemma sample_record:
  assumes "classify_interval (sample_staging (int n) w e) ts = Inr cls" and "0 < w"
  shows "canonical_record sample_ex sample_run (sample_staging (int n) w e) ts =
    Inr (sample_canonical n w e cls)"
proof -
  have "idx (sample_staging (int n) w e) ''source_sequence'' = Inr (JInt (int n))"
    "idx (sample_staging (int n) w e) ''rx_wall_ns'' = Inr (JInt w)"
    "idx (sample_staging (int n) w e) ''rx_mono_ns'' = Inr (JInt (1000 + int n))"
    "idx (sample_staging (int n) w e) ''interval_start_s'' = Inr (JFloat (e - 1 / 5))"
    "idx (sample_staging (int n) w e) ''interval_end_s'' = Inr (JFloat e)"
    "idx (sample_staging (int n) w e) ''interval_duration_s'' = Inr (JFloat (1 / 5))"
    "idx (sample_staging (int n) w e) ''throughput_kbit_s'' = Inr (JInt 18000)"
    "getE (sample_staging (int n) w e) ''loss_pct'' = Inr JNull"
    "getE (sample_staging (int n) w e) ''jitter_ms'' = Inr JNull"
    "getE (sample_staging (int n) w e) ''bytes_transferred'' = Inr JNull"
    by (simp_all add: sample_staging_def idx_def obj_idx_def getE_def)
  with assms show ?thesis
    by (simp add: canonical_record_def natural_int_def positive_int_def sample_canonical_def)
qed

definition sample_rows :: "interval_row list" where
  "sample_rows = [sample_canonical 1 1767225602400000000 (11 / 5) ''complete'',
     sample_canonical 2 1767225602600000000 (12 / 5) ''transition_crossing'']"

lemma sample_step:
  assumes "classify_interval (sample_staging j w e) ts = Inr cls" and "0 < w" and "j = int n"
    and "check_clock p (JInt w) (JInt (1000 + j)) = Inr ()"
  shows "canonical_step (\<lambda>_. True) sample_ex sample_run ts (p, rows) (sample_staging j w e) =
    Inr (Some (JInt w, JInt (1000 + j)), rows @ [sample_canonical n w e cls])"
proof -
  have "getE (sample_staging j w e) ''schema'' = Inr (JStr STAGING_SCHEMA)"
    "idx (sample_staging j w e) ''rx_wall_ns'' = Inr (JInt w)"
    "idx (sample_staging j w e) ''rx_mono_ns'' = Inr (JInt (1000 + j))"
    by (simp_all add: sample_staging_def idx_def obj_idx_def getE_def)
  moreover have "canonical_record sample_ex sample_run (sample_staging j w e) ts =
      Inr (sample_canonical n w e cls)"
    using sample_record [of n w e ts cls] assms(1,2,3) by simp
  ultimately show ?thesis using assms(4) by (simp add: canonical_step_def)
qed

lemma sample_file:
  "canonicalize EXPERIMENT_RE False None (\<lambda>_. True) sample_ex sample_run WithTransitions
     (Some (Inr (map Event sample_events)))
     (Inr [sample_staging 1 1767225602400000000 (11 / 5),
           sample_staging 2 1767225602600000000 (12 / 5)]) = Inr sample_rows"
proof -
  note st1 = sample_step [OF sample_classify(1), where p = None and n = 1 and rows = "[]"]
  note st2 = sample_step [OF sample_classify(2), where n = 2]
  show ?thesis
    by (simp add: canonicalize_def sample_identity scope_check_def sample_readable sample_rows_def
      st1 st2 check_clock_Inr check_clock_def [of None])
qed

theorem canonical_file_is_ordered_witness:
  "length sample_rows = 2 \<and> iv_mono (sample_rows ! 0) < iv_mono (sample_rows ! 1)"
  using canonical_file_is_ordered [OF sample_file] by auto

theorem classification_is_exact_witness:
  "base_interval_class (sample_staging 2 1767225602600000000 (12 / 5)) = Inr ''complete''"
  using classification_is_exact [OF sample_classify(2)] by auto

theorem built_timeline_is_readable_witness:
  "load_actuator_timeline sample_ex sample_run (map Event sample_events) =
     Inr (applied_times sample_events)"
  by (rule built_timeline_is_readable [OF sample_build]) simp_all

end
