(* ===== verification/Output_Stationarity.thy ===== *)
theory Output_Stationarity
  imports Receiver_Canonical
begin

section \<open>The output-stationarity evaluator\<close>

text \<open>
  \<^verbatim>\<open>scripts/experiment-harness/evaluate-output-stationarity.py\<close>: from the canonical interval
  records, pick the latest run of contiguous complete intervals of the phase, cut it into
  windows of 25 samples, and judge the last two full windows by the coefficient of variation and
  the shift of the mean, in 40-digit decimal arithmetic.  A row is \<open>BadInterval\<close> when the JSON
  schema rejects it, otherwise an \<open>interval_row\<close>.  The report is a record; where the file holds
  the decimal text of a number, the record holds the number.
\<close>

named_theorems window_simps \<open>runs, windows and their metrics\<close>

subsection \<open>Decimal arithmetic of the evaluator\<close>

definition PRIMARY_TS_S :: rat where "PRIMARY_TS_S = 1 / 5"

definition WINDOW_S :: rat where "WINDOW_S = 5"

definition WINDOW_SAMPLES :: nat where "WINDOW_SAMPLES = 25"

definition CV_MAX_PCT :: rat where "CV_MAX_PCT = 5"

definition MEAN_SHIFT_MAX_PCT :: rat where "MEAN_SHIFT_MAX_PCT = 5"

definition INITIAL_PRE_MINIMUM_S :: rat where "INITIAL_PRE_MINIMUM_S = 11"

definition POST_MINIMUM_NS :: int where "POST_MINIMUM_NS = 10000000000"

definition CONTIGUITY_TOLERANCE_S :: rat where "CONTIGUITY_TOLERANCE_S = 1 / 1000000"

definition ALLOWED_INTERVAL_CLASSES :: "string list" where
  "ALLOWED_INTERVAL_CLASSES =
     [''startup_guard'', ''complete'', ''partial_terminal'', ''transition_crossing'']"

text \<open>Every operation rounds its exact result to 40 digits.\<close>

definition R40 :: "rat \<Rightarrow> rat" where "R40 = dec_round 40"

definition decimal_value :: "json \<Rightarrow> rat result" where
  "decimal_value v = bindE (to_decimal v) (\<lambda>d. case dec_value d of
       None \<Rightarrow> Inl (Domain ''non-finite decimal input'') | Some q \<Rightarrow> Inr q)"

definition duration_ns :: "json \<Rightarrow> int result" where
  "duration_ns v = bindE (decimal_value v) (\<lambda>seconds.
     if seconds \<le> 0 then Inl (Domain ''interval duration must be positive'')
     else (let scaled = R40 (seconds * 1000000000)
           in if scaled \<noteq> of_int (round_half_even scaled)
              then Inl (Domain ''interval duration is not exactly representable in nanoseconds'')
              else Inr (round_half_even scaled)))"

subsection \<open>Loading\<close>

datatype interval_in = BadInterval | Interval interval_row

definition row_identity :: "string \<Rightarrow> string \<Rightarrow> string \<Rightarrow> string \<Rightarrow> unit result" where
  "row_identity row_ex row_run ex run = seqE [
     require (row_ex = ex) ''experiment_id mismatch'',
     require (row_run = run) ''run_id mismatch'']"

definition check_interval :: "string \<Rightarrow> string \<Rightarrow> string set \<times> (int \<times> int) option \<Rightarrow> interval_in \<Rightarrow>
    (string set \<times> (int \<times> int) option) result" where
  "check_interval ex run s r = (case r of BadInterval \<Rightarrow> Inl SchemaInvalid
     | Interval v \<Rightarrow> bindE (seqE [
         row_identity (iv_experiment v) (iv_run v) ex run,
         require (iv_record v \<notin> fst s) ''duplicate iperfInterval record_id'',
         require (iv_class v \<in> set ALLOWED_INTERVAL_CLASSES) ''unsupported interval_class'',
         (case snd s of None \<Rightarrow> Inr () | Some (wall, mono_ns) \<Rightarrow> seqE [
            require (wall \<le> iv_wall v) ''rx_wall_ns ordering violation'',
            require (mono_ns < iv_mono v) ''rx_mono_ns ordering violation''])])
       (\<lambda>_. Inr (insert (iv_record v) (fst s), Some (iv_wall v, iv_mono v))))"

definition rows_of :: "interval_in list \<Rightarrow> interval_row list" where
  "rows_of rs = concat (map (\<lambda>r. case r of Interval v \<Rightarrow> [v] | BadInterval \<Rightarrow> []) rs)"

definition load_intervals :: "string \<Rightarrow> string \<Rightarrow> interval_in list \<Rightarrow> interval_row list result" where
  "load_intervals ex run rows =
     bindE (require (rows \<noteq> []) ''canonical iperf input is empty'') (\<lambda>_.
     bindE (foldE (check_interval ex run) ({}, None) rows) (\<lambda>_. Inr (rows_of rows)))"

definition check_post_event :: "string \<Rightarrow> string \<Rightarrow> int option \<Rightarrow> event_row \<Rightarrow> int option result" where
  "check_post_event ex run previous r = (case r of BadEvent \<Rightarrow> Inl SchemaInvalid
     | Event e \<Rightarrow> bindE (seqE [
         row_identity (ev_experiment e) (ev_run e) ex run,
         require (case previous of None \<Rightarrow> True | Some t \<Rightarrow> t < ev_ts e)
           ''actuator timeline timestamp ordering violation'']) (\<lambda>_. Inr (Some (ev_ts e))))"

text \<open>The chosen triplet; its rows have passed the schema.\<close>

definition post_t0 :: "actuator_event list \<Rightarrow> int result" where
  "post_t0 triplet = (case triplet of
       [command, applied, acknowledgement] \<Rightarrow>
         bindE (seqE [
           require ([ev_type command, ev_type applied, ev_type acknowledgement] =
               [''command'', ''applied_readback'', ''acknowledgement''])
             ''selected actuator control is not command/applied_readback/acknowledgement'',
           require (ev_ack acknowledgement = Some ''PASS'')
             ''selected actuator acknowledgement is not PASS'',
           require (ev_ts command < ev_ts applied \<and> ev_ts applied < ev_ts acknowledgement)
             ''selected actuator event ordering violation'']) (\<lambda>_. Inr (ev_ts applied))
     | _ \<Rightarrow> Inl (Domain
         ''selected actuator control is not command/applied_readback/acknowledgement''))"

definition load_post_t0 :: "string \<Rightarrow> string \<Rightarrow> int \<Rightarrow> event_row list \<Rightarrow> int result" where
  "load_post_t0 ex run control_index rows =
     bindE (require (rows \<noteq> []) ''actuator timeline is empty'') (\<lambda>_.
     bindE (require (length rows mod 3 = 0) ''actuator timeline is not complete triplets'') (\<lambda>_.
     bindE (require (1 \<le> control_index \<and> control_index \<le> int (length rows div 3))
       ''control-index outside actuator timeline'') (\<lambda>_.
     bindE (foldE (check_post_event ex run) None rows) (\<lambda>_.
       post_t0 (take 3 (drop (nat ((control_index - 1) * 3)) (events_of rows)))))))"

subsection \<open>Eligible intervals and runs\<close>

text \<open>The mode of the evaluation; the applied readback \<open>t0\<close> exists in post-step mode only.\<close>

datatype phase = InitialPreStep | PostStep int

definition is_complete :: "interval_row \<Rightarrow> bool result" where
  "is_complete row = (if iv_class row \<noteq> ''complete'' then Inr False
     else bindE (decimal_value (iv_duration row)) (\<lambda>duration.
       Inr (\<bar>R40 (duration - PRIMARY_TS_S)\<bar> \<le> CONTIGUITY_TOLERANCE_S)))"

definition observed_bounds :: "interval_row \<Rightarrow> (int \<times> int) result" where
  "observed_bounds row = bindE (duration_ns (iv_duration row)) (\<lambda>d.
     if iv_wall row - d < 0 then Inl (Domain ''derived observed interval start is negative'')
     else Inr (iv_wall row - d, iv_wall row))"

definition eligible :: "phase \<Rightarrow> interval_row \<Rightarrow> bool result" where
  "eligible ph row = bindE (is_complete row) (\<lambda>c.
     if \<not> c then Inr False
     else (case ph of InitialPreStep \<Rightarrow> Inr True
       | PostStep t0 \<Rightarrow> bindE (observed_bounds row) (\<lambda>(start_ns, _). Inr (t0 \<le> start_ns))))"

definition contiguous :: "interval_row \<Rightarrow> interval_row \<Rightarrow> bool result" where
  "contiguous previous current =
     bindE (decimal_value (iv_end previous)) (\<lambda>previous_end.
     bindE (decimal_value (iv_start current)) (\<lambda>current_start.
       Inr (\<bar>R40 (current_start - previous_end)\<bar> \<le> CONTIGUITY_TOLERANCE_S)))"

text \<open>The loop state: the closed runs and the current one.\<close>

type_synonym run_state = "interval_row list list \<times> interval_row list"

definition run_step :: "phase \<Rightarrow> run_state \<Rightarrow> interval_row \<Rightarrow> run_state result" where
  "run_step ph s row = (case s of (runs, current) \<Rightarrow>
     bindE (eligible ph row) (\<lambda>ok.
       if \<not> ok then Inr (if current = [] then runs else runs @ [current], [])
       else if current = [] then Inr (runs, [row])
       else bindE (contiguous (last current) row) (\<lambda>c.
              if c then Inr (runs, current @ [row]) else Inr (runs @ [current], [row]))))"

definition latest_eligible_run :: "phase \<Rightarrow> interval_row list \<Rightarrow> interval_row list result" where
  "latest_eligible_run ph rows = bindE (foldE (run_step ph) ([], []) rows) (\<lambda>(runs, current).
     (let runs = (if current = [] then runs else runs @ [current])
      in Inr (if runs = [] then [] else last runs)))"

subsection \<open>Windows\<close>

definition all_complete :: "interval_row list \<Rightarrow> unit result" where
  "all_complete window = seqE (map (\<lambda>row. bindE (is_complete row) (\<lambda>c.
     require c ''non-complete interval inside stationarity window'')) window)"

definition no_gap :: "interval_row list \<Rightarrow> unit result" where
  "no_gap window = seqE (map (\<lambda>(previous, current). bindE (contiguous previous current) (\<lambda>c.
     require c ''stationarity window contains a timing gap'')) (zip window (tl window)))"

definition validate_window_geometry :: "interval_row list \<Rightarrow> unit result" where
  "validate_window_geometry window =
     bindE (require (length window = WINDOW_SAMPLES)
       ''stationarity window does not contain 25 samples'') (\<lambda>_.
     bindE (all_complete window) (\<lambda>_.
     bindE (no_gap window) (\<lambda>_.
     bindE (decimal_value (iv_start (hd window))) (\<lambda>start.
     bindE (decimal_value (iv_end (last window))) (\<lambda>end_s.
       require (\<bar>R40 (R40 (end_s - start) - WINDOW_S)\<bar> \<le> CONTIGUITY_TOLERANCE_S)
         ''stationarity window does not span 5 seconds'')))))"

record metrics =
  mean_kbit_s :: rat
  population_std_kbit_s :: rat
  cv_pct :: rat
  record_id_first :: string
  record_id_last :: string
  window_start_s :: rat
  window_end_s :: rat

definition dec_sum :: "rat list \<Rightarrow> rat" where
  "dec_sum vs = foldl (\<lambda>a v. R40 (a + v)) 0 vs"

definition dec_mean :: "rat list \<Rightarrow> rat" where
  "dec_mean vs = R40 (dec_sum vs / of_nat (length vs))"

definition dec_variance :: "rat list \<Rightarrow> rat" where
  "dec_variance vs = (let m = dec_mean vs
     in R40 (dec_sum (map (\<lambda>v. R40 (R40 (v - m) * R40 (v - m))) vs) / of_nat (length vs)))"

definition window_metrics :: "interval_row list \<Rightarrow> metrics result" where
  "window_metrics window =
     bindE (validate_window_geometry window) (\<lambda>_.
     bindE (mapE (\<lambda>row. decimal_value (iv_throughput row)) window) (\<lambda>vs.
       if dec_mean vs \<le> 0 then Inl (Domain ''window mean throughput is zero or negative'')
       else (let std = dec_sqrt 40 (dec_variance vs)
         in bindE (decimal_value (iv_start (hd window))) (\<lambda>start.
            bindE (decimal_value (iv_end (last window))) (\<lambda>end_s.
            Inr \<lparr>mean_kbit_s = dec_mean vs, population_std_kbit_s = std,
              cv_pct = R40 (R40 (100 * std) / dec_mean vs),
              record_id_first = iv_record (hd window), record_id_last = iv_record (last window),
              window_start_s = start, window_end_s = end_s\<rparr>)))))"

subsection \<open>The report\<close>

record stationarity_report =
  report_phase :: phase
  eligible_run_sample_count :: nat
  full_window_count :: nat
  trailing_eligible_sample_count :: nat
  window_pair_index :: "(nat \<times> nat) option"
  w1 :: "metrics option"
  w2 :: "metrics option"
  mean_shift_pct :: "rat option"
  cv_w1_gate :: string
  cv_w2_gate :: string
  mean_shift_gate :: string
  output_stationarity_gate :: string
  minimum_phase_duration_gate :: string
  statistical_phase_candidate :: string
  reason :: string

definition gate :: "bool \<Rightarrow> string" where
  "gate b = (if b then ''PASS'' else ''FAIL'')"

definition insufficient_report :: "phase \<Rightarrow> interval_row list \<Rightarrow> stationarity_report" where
  "insufficient_report ph run = \<lparr>report_phase = ph, eligible_run_sample_count = length run,
     full_window_count = length run div WINDOW_SAMPLES,
     trailing_eligible_sample_count = length run mod WINDOW_SAMPLES,
     window_pair_index = None, w1 = None, w2 = None, mean_shift_pct = None,
     cv_w1_gate = ''NOT_EVALUATED'', cv_w2_gate = ''NOT_EVALUATED'',
     mean_shift_gate = ''NOT_EVALUATED'', output_stationarity_gate = ''FAIL'',
     minimum_phase_duration_gate = ''FAIL'', statistical_phase_candidate = ''FAIL'',
     reason = ''INSUFFICIENT_TWO_COMPLETE_WINDOWS''\<rparr>"

definition window_slice :: "interval_row list \<Rightarrow> nat \<Rightarrow> interval_row list" where
  "window_slice run i = take WINDOW_SAMPLES (drop ((i - 1) * WINDOW_SAMPLES) run)"

definition mean_shift :: "metrics \<Rightarrow> metrics \<Rightarrow> rat" where
  "mean_shift m1 m2 = R40 (R40 (100 * \<bar>R40 (mean_kbit_s m2 - mean_kbit_s m1)\<bar>) / mean_kbit_s m1)"

definition phase_duration :: "phase \<Rightarrow> interval_row \<Rightarrow> bool result" where
  "phase_duration ph final = (case ph of
       InitialPreStep \<Rightarrow> bindE (decimal_value (iv_end final)) (\<lambda>final_end_s.
         Inr (INITIAL_PRE_MINIMUM_S \<le> final_end_s))
     | PostStep t0 \<Rightarrow> bindE (observed_bounds final) (\<lambda>(_, final_end_ns).
         Inr (POST_MINIMUM_NS \<le> final_end_ns - t0)))"

definition window_report :: "phase \<Rightarrow> interval_row list \<Rightarrow> metrics \<Rightarrow> metrics \<Rightarrow> bool \<Rightarrow>
    stationarity_report" where
  "window_report ph run m1 m2 duration_pass =
     (let full_windows = length run div WINDOW_SAMPLES;
          shift = mean_shift m1 m2;
          cv_w1_pass = (cv_pct m1 \<le> CV_MAX_PCT);
          cv_w2_pass = (cv_pct m2 \<le> CV_MAX_PCT);
          mean_shift_pass = (shift \<le> MEAN_SHIFT_MAX_PCT);
          stationarity_pass = (cv_w1_pass \<and> cv_w2_pass \<and> mean_shift_pass);
          phase_candidate = (stationarity_pass \<and> duration_pass)
      in \<lparr>report_phase = ph, eligible_run_sample_count = length run,
           full_window_count = full_windows,
           trailing_eligible_sample_count = length run mod WINDOW_SAMPLES,
           window_pair_index = Some (full_windows - 1, full_windows),
           w1 = Some m1, w2 = Some m2, mean_shift_pct = Some shift,
           cv_w1_gate = gate cv_w1_pass, cv_w2_gate = gate cv_w2_pass,
           mean_shift_gate = gate mean_shift_pass,
           output_stationarity_gate = gate stationarity_pass,
           minimum_phase_duration_gate = gate duration_pass,
           statistical_phase_candidate = gate phase_candidate,
           reason = (if phase_candidate then ''PASS''
             else ''STATIONARITY_OR_DURATION_GATE_FAIL'')\<rparr>)"

definition evaluate :: "phase \<Rightarrow> interval_row list \<Rightarrow> stationarity_report result" where
  "evaluate ph rows = bindE (latest_eligible_run ph rows) (\<lambda>run.
     (let full_windows = length run div WINDOW_SAMPLES in
      if full_windows < 2 then Inr (insufficient_report ph run)
      else
        (let w1_rows = window_slice run (full_windows - 1); w2_rows = window_slice run full_windows
         in bindE (window_metrics w1_rows) (\<lambda>m1.
            bindE (window_metrics w2_rows) (\<lambda>m2.
            if mean_kbit_s m1 \<le> 0 then Inl (Domain ''W1 mean throughput is zero or negative'')
            else bindE (phase_duration ph (last w2_rows)) (\<lambda>duration_pass.
              Inr (window_report ph run m1 m2 duration_pass)))))))"

subsection \<open>The command\<close>

datatype evaluation_mode = InitialMode | PostMode

definition mode_check :: "evaluation_mode \<Rightarrow> bool \<Rightarrow> bool \<Rightarrow> unit result" where
  "mode_check md timeline_given index_given = (case md of
       InitialMode \<Rightarrow> seqE [
         require (\<not> timeline_given) ''actuator timeline forbidden for initial-pre-step'',
         require (\<not> index_given) ''control-index forbidden for initial-pre-step'']
     | PostMode \<Rightarrow> seqE [
         require timeline_given ''actuator timeline required for post-step'',
         require index_given ''control-index required for post-step''])"

definition stationarity_main :: "bool \<Rightarrow> exn option \<Rightarrow> string \<Rightarrow> string \<Rightarrow> evaluation_mode \<Rightarrow>
    event_row list result option \<Rightarrow> int option \<Rightarrow> interval_in list result \<Rightarrow>
    stationarity_report result" where
  "stationarity_main output_exists schema_fault ex run md timeline control_index input =
     bindE (require (\<not> output_exists) ''output already exists'') (\<lambda>_.
     bindE (mode_check md (timeline \<noteq> None) (control_index \<noteq> None)) (\<lambda>_.
     bindE (case schema_fault of None \<Rightarrow> Inr () | Some e \<Rightarrow> Inl e) (\<lambda>_.
     bindE (bindE input (load_intervals ex run)) (\<lambda>rows.
     bindE (case (md, timeline, control_index) of
         (PostMode, Some t, Some i) \<Rightarrow> bindE (bindE t (load_post_t0 ex run i))
           (\<lambda>t0. Inr (PostStep t0))
       | _ \<Rightarrow> Inr InitialPreStep) (\<lambda>ph.
       evaluate ph rows)))))"

subsection \<open>The latest run\<close>

text \<open>\<open>current\<close>, or the last closed run when it is empty.\<close>

definition last_run :: "run_state \<Rightarrow> interval_row list" where
  "last_run s = (case s of (runs, current) \<Rightarrow>
     if current \<noteq> [] then current else if runs = [] then [] else last runs)"

definition is_run :: "phase \<Rightarrow> interval_row list \<Rightarrow> bool" where
  "is_run ph run \<longleftrightarrow> (\<forall>r \<in> set run. eligible ph r = Inr True) \<and>
     successively (\<lambda>a b. contiguous a b = Inr True) run"

text \<open>The row before a run cannot extend it to the left.\<close>

definition run_starts_after :: "phase \<Rightarrow> interval_row list \<Rightarrow> interval_row list \<Rightarrow> bool" where
  "run_starts_after ph pre run \<longleftrightarrow> pre = [] \<or> eligible ph (last pre) = Inr False \<or>
     contiguous (last pre) (hd run) = Inr False"

definition latest_run :: "phase \<Rightarrow> interval_row list \<Rightarrow> interval_row list \<Rightarrow> interval_row list \<Rightarrow>
    interval_row list \<Rightarrow> bool" where
  "latest_run ph rows pre run post \<longleftrightarrow> rows = pre @ run @ post \<and> is_run ph run \<and>
     (\<forall>r \<in> set post. eligible ph r = Inr False) \<and>
     (if run = [] then pre = [] else run_starts_after ph pre run)"

definition run_inv :: "phase \<Rightarrow> interval_row list \<Rightarrow> run_state \<Rightarrow> bool" where
  "run_inv ph seen s \<longleftrightarrow> [] \<notin> set (fst s) \<and>
     (\<exists>pre post. latest_run ph seen pre (last_run s) post \<and> 
       (if snd s = [] then post \<noteq> [] \<or> seen = [] else post = []))"

lemma is_run_snoc:
  "run \<noteq> [] \<Longrightarrow> is_run ph (run @ [r]) \<longleftrightarrow>
     is_run ph run \<and> eligible ph r = Inr True \<and> contiguous (last run) r = Inr True"
  by (auto simp: is_run_def successively_append_iff)

lemma run_inv_closed:
  assumes "run_inv ph seen s" and "eligible ph r = Inr False"
  shows "run_inv ph (seen @ [r]) (if snd s = [] then fst s else fst s @ [snd s], [])"
proof -
  from assms(1) obtain pre post where
    l: "latest_run ph seen pre (last_run s) post" "[] \<notin> set (fst s)" by (auto simp: run_inv_def)
  have "last_run (if snd s = [] then fst s else fst s @ [snd s], []) = last_run s"
    by (cases s) (simp add: last_run_def)
  moreover have "latest_run ph (seen @ [r]) pre (last_run s) (post @ [r])"
    using l(1) assms(2) by (auto simp: latest_run_def)
  ultimately show ?thesis using l(2) by (auto simp: run_inv_def)
qed

lemma run_inv_started:
  assumes "run_inv ph seen s" and "eligible ph r = Inr True"
    and "snd s = [] \<or> contiguous (last (snd s)) r = Inr False"
  shows "run_inv ph (seen @ [r]) (if snd s = [] then fst s else fst s @ [snd s], [r])"
proof -
  from assms(1) obtain pre post where
    l: "latest_run ph seen pre (last_run s) post" "[] \<notin> set (fst s)"
      "if snd s = [] then post \<noteq> [] \<or> seen = [] else post = []"
    by (auto simp: run_inv_def)
  have "run_starts_after ph seen [r]"
  proof (cases "snd s = []")
    case True
    with l have "post \<noteq> [] \<or> seen = []" by simp
    with l(1) show ?thesis
      by (cases "post = []") (auto simp: latest_run_def run_starts_after_def)
  next
    case False
    with l have "seen = pre @ snd s" by (cases s) (simp add: latest_run_def last_run_def)
    with False assms(3) show ?thesis by (simp add: run_starts_after_def)
  qed
  then have "latest_run ph (seen @ [r]) seen [r] []"
    using assms(2) by (simp add: latest_run_def is_run_def)
  then show ?thesis using l(2) by (auto simp: run_inv_def last_run_def)
qed

lemma run_inv_extended:
  assumes "run_inv ph seen s" and "snd s \<noteq> []" and "eligible ph r = Inr True"
    and "contiguous (last (snd s)) r = Inr True"
  shows "run_inv ph (seen @ [r]) (fst s, snd s @ [r])"
proof -
  have e: "last_run s = snd s" using assms(2) by (cases s) (simp add: last_run_def)
  from assms(1,2) e obtain pre where
    l: "latest_run ph seen pre (snd s) []" "[] \<notin> set (fst s)" by (auto simp: run_inv_def)
  have "latest_run ph (seen @ [r]) pre (snd s @ [r]) []"
    using l(1) assms by (auto simp: latest_run_def is_run_snoc run_starts_after_def)
  then show ?thesis using l(2) by (auto simp: run_inv_def last_run_def)
qed

lemma run_step_inv:
  assumes "run_inv ph seen s" and "run_step ph s r = Inr t"
  shows "run_inv ph (seen @ [r]) t"
proof -
  obtain runs cur where s: "s = (runs, cur)" by (cases s)
  from assms(2) obtain ok where ok: "eligible ph r = Inr ok" by (auto simp: run_step_def s)
  consider (closed) "\<not> ok" "t = (if cur = [] then runs else runs @ [cur], [])"
    | (first) "ok" "cur = []" "t = (runs, [r])"
    | (more) c where "ok" "cur \<noteq> []" "contiguous (last cur) r = Inr c"
        "t = (if c then (runs, cur @ [r]) else (runs @ [cur], [r]))"
  proof (cases "ok \<and> cur \<noteq> []")
    case True
    with assms(2) ok obtain c where "contiguous (last cur) r = Inr c"
      "t = (if c then (runs, cur @ [r]) else (runs @ [cur], [r]))"
      by (auto simp: run_step_def s split: if_splits)
    with True more show ?thesis by blast
  next
    case False
    with assms(2) ok closed first show ?thesis
      by (cases ok) (auto simp: run_step_def s)
  qed
  then show ?thesis
  proof cases
    case closed
    with run_inv_closed [OF assms(1), of r] ok s show ?thesis by (simp split: if_splits)
  next
    case first
    with run_inv_started [OF assms(1)] ok s show ?thesis by simp
  next
    case more
    with run_inv_started [OF assms(1)] run_inv_extended [OF assms(1)] ok s show ?thesis
      by (cases c) simp_all
  qed
qed

lemma latest_run_found:
  assumes "latest_eligible_run ph rows = Inr run"
  shows "\<exists>pre post. latest_run ph rows pre run post"
proof -
  from assms obtain runs cur where s: "foldE (run_step ph) ([], []) rows = Inr (runs, cur)"
    and run: "run = last_run (runs, cur)"
    by (cases "foldE (run_step ph) ([], []) rows")
      (auto simp: latest_eligible_run_def last_run_def Let_def)
  have "run_inv ph [] ([], [])"
    by (auto simp: run_inv_def last_run_def latest_run_def is_run_def intro: exI [of _ "[]"])
  with s have "run_inv ph ([] @ rows) (runs, cur)"
    by (rule foldE_seen_invariant) (rule run_step_inv)
  then show ?thesis by (auto simp: run_inv_def run)
qed

text \<open>The reference: skip the trailing rows that are not eligible, then walk back as long as the
  rows are eligible and contiguous.\<close>

fun walk_back :: "phase \<Rightarrow> interval_row list \<Rightarrow> interval_row list" where
  "walk_back ph (x # y # ys) = (if eligible ph y = Inr True \<and> contiguous y x = Inr True
     then x # walk_back ph (y # ys) else [x])"
| "walk_back ph xs = xs"

definition reference_run :: "phase \<Rightarrow> interval_row list \<Rightarrow> interval_row list" where
  "reference_run ph rows =
     rev (walk_back ph (dropWhile (\<lambda>r. eligible ph r \<noteq> Inr True) (rev rows)))"

lemma walk_back_run:
  "is_run ph (rev xs) \<Longrightarrow> xs \<noteq> [] \<Longrightarrow> ys = [] \<or> eligible ph (hd ys) = Inr False \<or>
     contiguous (hd ys) (last xs) = Inr False \<Longrightarrow> walk_back ph (xs @ ys) = xs"
proof (induction xs)
  case Nil
  then show ?case by simp
next
  case (Cons x xs)
  show ?case
  proof (cases xs)
    case Nil
    with Cons.prems show ?thesis by (cases ys) auto
  next
    case (Cons y zs)
    with Cons.prems(1) have "is_run ph (rev xs)" "contiguous y x = Inr True"
      using is_run_snoc [of "rev xs" ph x] by simp_all
    moreover from this(1) Cons have "eligible ph y = Inr True" by (simp add: is_run_def)
    ultimately show ?thesis using Cons.IH Cons.prems(3) Cons by simp
  qed
qed

lemma dropWhile_append_all: "\<forall>x \<in> set xs. P x \<Longrightarrow> dropWhile P (xs @ ys) = dropWhile P ys"
  by (induction xs) simp_all

lemma latest_run_reference:
  assumes "latest_run ph rows pre run post"
  shows "reference_run ph rows = run"
proof -
  have rev: "rev rows = rev post @ rev run @ rev pre" using assms by (simp add: latest_run_def)
  have "\<forall>r \<in> set (rev post). eligible ph r \<noteq> Inr True" using assms by (auto simp: latest_run_def)
  then have d: "dropWhile (\<lambda>r. eligible ph r \<noteq> Inr True) (rev rows) =
      dropWhile (\<lambda>r. eligible ph r \<noteq> Inr True) (rev run @ rev pre)"
    by (simp only: rev dropWhile_append_all)
  show ?thesis
  proof (cases "run = []")
    case True
    with assms have "pre = []" by (simp add: latest_run_def)
    with True show ?thesis by (simp add: reference_run_def d)
  next
    case False
    then have "eligible ph (last run) = Inr True" using assms by (simp add: latest_run_def is_run_def)
    with False have "dropWhile (\<lambda>r. eligible ph r \<noteq> Inr True) (rev run @ rev pre) = rev run @ rev pre"
      by (cases run rule: rev_cases) simp_all
    moreover have "walk_back ph (rev run @ rev pre) = rev run"
      by (rule walk_back_run) (use assms False in
        \<open>auto simp: latest_run_def run_starts_after_def hd_rev last_rev\<close>)
    ultimately show ?thesis by (simp add: reference_run_def d)
  qed
qed

text \<open>C22: the run the loop returns is the one found by walking back from the last eligible row:
  skip the trailing rows that are not eligible, then take rows as long as each is eligible and
  contiguous with its successor.\<close>

theorem latest_run_is_reference:
  assumes "latest_eligible_run ph rows = Inr run"
  shows "run = reference_run ph rows"
  using latest_run_found [OF assms] latest_run_reference by blast

subsection \<open>The two windows\<close>

lemma window_split:
  assumes "n = length run div WINDOW_SAMPLES" and "2 \<le> n"
  shows "\<exists>pre trail. run = pre @ window_slice run (n - 1) @ window_slice run n @ trail \<and>
    length (window_slice run (n - 1)) = 25 \<and> length (window_slice run n) = 25 \<and>
    length trail = length run mod 25"
proof -
  have len: "length run = 25 * n + length run mod 25"
    using assms(1) by (simp add: WINDOW_SAMPLES_def)
  obtain k where k: "n = Suc (Suc k)" using assms(2) by (metis Suc_le_D numeral_2_eq_2 Suc_le_mono)
  define pre where "pre = take (k * 25) run"
  have "run = pre @ take 25 (drop (k * 25) run) @ take 25 (drop (Suc k * 25) run) @
      drop (Suc (Suc k) * 25) run"
    unfolding pre_def by (metis append_take_drop_id drop_drop mult_Suc)
  then show ?thesis
    using len by (intro exI [of _ pre] exI [of _ "drop (Suc (Suc k) * 25) run"])
      (simp add: window_slice_def WINDOW_SAMPLES_def k)
qed

lemma gate_PASS [simp, window_simps]: "gate b = ''PASS'' \<longleftrightarrow> b"
  by (simp add: gate_def)

lemma window_report_fields [simp, window_simps]:
  "w1 (window_report ph run m1 m2 d) = Some m1"
  "w2 (window_report ph run m1 m2 d) = Some m2"
  "window_pair_index (window_report ph run m1 m2 d) =
     Some (length run div WINDOW_SAMPLES - 1, length run div WINDOW_SAMPLES)"
  "output_stationarity_gate (window_report ph run m1 m2 d) = gate (cv_pct m1 \<le> CV_MAX_PCT \<and>
     cv_pct m2 \<le> CV_MAX_PCT \<and> mean_shift m1 m2 \<le> MEAN_SHIFT_MAX_PCT)"
  "minimum_phase_duration_gate (window_report ph run m1 m2 d) = gate d"
  "statistical_phase_candidate (window_report ph run m1 m2 d) = gate ((cv_pct m1 \<le> CV_MAX_PCT \<and>
     cv_pct m2 \<le> CV_MAX_PCT \<and> mean_shift m1 m2 \<le> MEAN_SHIFT_MAX_PCT) \<and> d)"
  by (simp_all add: window_report_def Let_def)

lemma insufficient_report_fields [simp, window_simps]:
  "w1 (insufficient_report ph run) = None"
  "window_pair_index (insufficient_report ph run) = None"
  "output_stationarity_gate (insufficient_report ph run) = ''FAIL''"
  "statistical_phase_candidate (insufficient_report ph run) = ''FAIL''"
  by (simp_all add: insufficient_report_def)

lemma evaluate_cases:
  assumes "evaluate ph rows = Inr rep"
  obtains run where "latest_eligible_run ph rows = Inr run"
      "length run div WINDOW_SAMPLES < 2" "rep = insufficient_report ph run"
  | run n m1 m2 d where "latest_eligible_run ph rows = Inr run"
      "n = length run div WINDOW_SAMPLES" "2 \<le> n"
      "window_metrics (window_slice run (n - 1)) = Inr m1"
      "window_metrics (window_slice run n) = Inr m2"
      "phase_duration ph (last (window_slice run n)) = Inr d"
      "rep = window_report ph run m1 m2 d"
proof -
  from assms obtain run where run: "latest_eligible_run ph rows = Inr run"
    by (auto simp: evaluate_def)
  show thesis
  proof (cases "length run div WINDOW_SAMPLES < 2")
    case True
    with assms run have "rep = insufficient_report ph run" by (auto simp: evaluate_def)
    with run True show ?thesis by (rule that(1))
  next
    case False
    with assms run obtain m1 m2 d where
      "window_metrics (window_slice run (length run div WINDOW_SAMPLES - 1)) = Inr m1"
      "window_metrics (window_slice run (length run div WINDOW_SAMPLES)) = Inr m2"
      "phase_duration ph (last (window_slice run (length run div WINDOW_SAMPLES))) = Inr d"
      "rep = window_report ph run m1 m2 d"
      by (auto simp: evaluate_def Let_def split: if_splits)
    with False run show ?thesis by (intro that(2)) simp_all
  qed
qed

lemma is_run_middle: "is_run ph (xs @ ys @ zs) \<Longrightarrow> is_run ph ys"
  by (auto simp: is_run_def successively_append_iff)

text \<open>What a report with windows rests on.\<close>

lemma evaluate_windows:
  assumes "evaluate ph rows = Inr rep"
  shows "(\<exists>run. rep = insufficient_report ph run) \<or>
    (\<exists>pre ws1 ws2 trail post run m1 m2 d. rows = pre @ ws1 @ ws2 @ trail @ post \<and>
      length ws1 = 25 \<and> length ws2 = 25 \<and> length trail < 25 \<and>
      is_run ph (ws1 @ ws2 @ trail) \<and> (\<forall>r \<in> set post. eligible ph r = Inr False) \<and>
      window_metrics ws1 = Inr m1 \<and> window_metrics ws2 = Inr m2 \<and>
      phase_duration ph (last ws2) = Inr d \<and> rep = window_report ph run m1 m2 d)"
  using assms
proof (cases rule: evaluate_cases)
  case (1 run)
  then show ?thesis by blast
next
  case (2 run n m1 m2 d)
  from window_split [OF 2(2,3)] obtain pre trail where
    sp: "run = pre @ window_slice run (n - 1) @ window_slice run n @ trail"
      "length (window_slice run (n - 1)) = 25" "length (window_slice run n) = 25"
      "length trail = length run mod 25" by blast
  from latest_run_found [OF 2(1)] obtain pre' post where l: "latest_run ph rows pre' run post" by blast
  have "rows = (pre' @ pre) @ window_slice run (n - 1) @ window_slice run n @ trail @ post"
    using l sp(1) by (metis append.assoc latest_run_def)
  moreover have "is_run ph (window_slice run (n - 1) @ window_slice run n @ trail)"
    using l sp(1) is_run_middle [of ph pre _ "[]"] unfolding latest_run_def
    by (metis append_Nil2)
  moreover have "\<forall>r \<in> set post. eligible ph r = Inr False" using l by (simp add: latest_run_def)
  moreover have "length trail < 25" using sp(4) by simp
  ultimately show ?thesis using sp(2,3) 2(4-7) by blast
qed


lemma eligible_PostStep:
  "eligible (PostStep t0) r = Inr True \<Longrightarrow> iv_class r = ''complete'' \<and>
     (\<exists>d. duration_ns (iv_duration r) = Inr d \<and> t0 \<le> iv_wall r - d)"
  by (auto simp: eligible_def is_complete_def observed_bounds_def split: if_splits)

text \<open>C21: a post-step phase passes only on 50 contiguous complete samples each of which started
  at or after the applied readback, the last ending at least ten seconds after it, with both
  coefficients of variation and the shift of the mean at most 5 per cent.\<close>

theorem post_step_pass_is_after_readback:
  assumes "evaluate (PostStep t0) rows = Inr rep" and "statistical_phase_candidate rep = ''PASS''"
  shows "\<exists>pre ws1 ws2 post m1 m2. rows = pre @ ws1 @ ws2 @ post \<and>
    length ws1 = 25 \<and> length ws2 = 25 \<and> is_run (PostStep t0) (ws1 @ ws2) \<and>
    (\<forall>r \<in> set (ws1 @ ws2). iv_class r = ''complete'' \<and>
       (\<exists>d. duration_ns (iv_duration r) = Inr d \<and> t0 \<le> iv_wall r - d)) \<and>
    10000000000 \<le> iv_wall (last ws2) - t0 \<and>
    window_metrics ws1 = Inr m1 \<and> window_metrics ws2 = Inr m2 \<and>
    cv_pct m1 \<le> 5 \<and> cv_pct m2 \<le> 5 \<and> mean_shift m1 m2 \<le> 5"
proof -
  from evaluate_windows [OF assms(1)] assms(2) obtain pre ws1 ws2 trail post run m1 m2 d where
    rows: "rows = pre @ ws1 @ ws2 @ trail @ post" and
    len: "length ws1 = 25" "length ws2 = 25" and
    el: "is_run (PostStep t0) (ws1 @ ws2 @ trail)" and
    wm: "window_metrics ws1 = Inr m1" "window_metrics ws2 = Inr m2" and
    d: "phase_duration (PostStep t0) (last ws2) = Inr d" and
    rep: "rep = window_report (PostStep t0) run m1 m2 d"
    by auto
  have ru: "is_run (PostStep t0) (ws1 @ ws2)"
    using el is_run_middle [of _ "[]" "ws1 @ ws2" trail] by simp
  have "d" "cv_pct m1 \<le> 5" "cv_pct m2 \<le> 5" "mean_shift m1 m2 \<le> 5"
    using rep assms(2) by (simp_all add: CV_MAX_PCT_def MEAN_SHIFT_MAX_PCT_def)
  moreover from \<open>d\<close> d have "10000000000 \<le> iv_wall (last ws2) - t0"
    by (auto simp: phase_duration_def observed_bounds_def POST_MINIMUM_NS_def split: if_splits)
  moreover have "\<forall>r \<in> set (ws1 @ ws2). iv_class r = ''complete'' \<and>
       (\<exists>d. duration_ns (iv_duration r) = Inr d \<and> t0 \<le> iv_wall r - d)"
    using ru eligible_PostStep unfolding is_run_def by blast
  ultimately show ?thesis using rows len wm ru
    by (intro exI [of _ pre] exI [of _ ws1] exI [of _ ws2] exI [of _ "trail @ post"]) auto
qed

subsection \<open>Constant throughput\<close>

lemma dec_sum_snoc [window_simps]: "dec_sum (vs @ [v]) = R40 (dec_sum vs + v)"
  by (simp add: dec_sum_def)

lemma R40_exact: "\<bar>m\<bar> < 10 ^ 40 \<Longrightarrow> R40 (of_int m * pow10 e) = of_int m * pow10 e"
  unfolding R40_def by (rule ctx40.rnd_exact)

lemma R40_0 [simp, window_simps]: "R40 0 = 0"
  unfolding R40_def by (rule ctx40.rnd_0)

lemma dec_sum_replicate:
  assumes "0 < c" and "int n * c < 10 ^ 40"
  shows "dec_sum (replicate n (of_int c * pow10 e)) = of_int (int n * c) * pow10 e"
  using assms(2)
proof (induction n)
  case 0
  then show ?case by (simp add: dec_sum_def)
next
  case (Suc n)
  have "int n * c < 10 ^ 40" using Suc.prems assms(1) by (simp add: distrib_right)
  with Suc.IH have "dec_sum (replicate n (of_int c * pow10 e)) = of_int (int n * c) * pow10 e" by simp
  moreover have "of_int (int n * c) * pow10 e + of_int c * pow10 e = of_int (int (Suc n) * c) * pow10 e"
    by (simp add: algebra_simps)
  moreover have "\<bar>int (Suc n) * c\<bar> < 10 ^ 40" using Suc.prems assms(1) by simp
  ultimately show ?case
    by (simp only: replicate_Suc replicate_append_same [symmetric] dec_sum_snoc R40_exact)
qed

lemma dec_sum_zeros: "dec_sum (replicate n 0) = 0"
  by (induction n) (simp_all add: replicate_append_same [symmetric] dec_sum_snoc dec_sum_def)

lemma constant_mean:
  assumes "0 < c" and "25 * c < 10 ^ 40"
  shows "dec_mean (replicate 25 (of_int c * pow10 e)) = of_int c * pow10 e"
    and "dec_variance (replicate 25 (of_int c * pow10 e)) = 0"
proof -
  have "dec_sum (replicate 25 (of_int c * pow10 e)) / of_nat 25 = of_int c * pow10 e"
    using dec_sum_replicate [OF assms(1), of 25 e] assms(2) by simp
  with R40_exact [of c e] assms show
    m: "dec_mean (replicate 25 (of_int c * pow10 e)) = of_int c * pow10 e"
    by (simp add: dec_mean_def)
  show "dec_variance (replicate 25 (of_int c * pow10 e)) = 0"
    by (simp add: dec_variance_def m Let_def dec_sum_zeros)
qed

lemma constant_window:
  assumes "window_metrics ws = Inr m" and "length ws = 25"
    and "\<forall>r \<in> set ws. decimal_value (iv_throughput r) = Inr (of_int c * pow10 e)"
    and "0 < c" and "25 * c < 10 ^ 40"
  shows "mean_kbit_s m = of_int c * pow10 e \<and> population_std_kbit_s m = 0 \<and> cv_pct m = 0"
proof -
  have "mapE (\<lambda>r. decimal_value (iv_throughput r)) ws = Inr (map (\<lambda>_. of_int c * pow10 e) ws)"
    by (rule mapE_total) (use assms(3) in blast)
  then have "mapE (\<lambda>r. decimal_value (iv_throughput r)) ws = Inr (replicate 25 (of_int c * pow10 e))"
    by (simp only: map_replicate_const assms(2))
  with assms(1) show ?thesis
    by (auto simp: window_metrics_def constant_mean [OF assms(4,5)] Let_def split: if_splits)
qed

text \<open>C24: on a constant throughput (a positive number of at most 38 digits) every report with
  windows passes the stationarity gate, with both coefficients of variation and the shift exactly
  zero: the decimal arithmetic adds no spread of its own.\<close>

theorem constant_throughput_is_stationary:
  assumes "evaluate ph rows = Inr rep" and "w1 rep \<noteq> None"
    and "\<forall>r \<in> set rows. decimal_value (iv_throughput r) = Inr (of_int c * pow10 e)"
    and "0 < c" and "c < 10 ^ 38"
  shows "output_stationarity_gate rep = ''PASS'' \<and> mean_shift_pct rep = Some 0 \<and>
    (\<exists>m1 m2. w1 rep = Some m1 \<and> w2 rep = Some m2 \<and> cv_pct m1 = 0 \<and> cv_pct m2 = 0 \<and>
       mean_kbit_s m1 = of_int c * pow10 e \<and> mean_kbit_s m2 = of_int c * pow10 e)"
proof -
  from evaluate_windows [OF assms(1)] assms(2) obtain pre ws1 ws2 trail post run m1 m2 d where
    rows: "rows = pre @ ws1 @ ws2 @ trail @ post" and
    len: "length ws1 = 25" "length ws2 = 25" and
    wm: "window_metrics ws1 = Inr m1" "window_metrics ws2 = Inr m2" and
    rep: "rep = window_report ph run m1 m2 d"
    by auto
  have c: "25 * c < 10 ^ 40" using assms(5) by simp
  have "\<forall>r \<in> set ws1. decimal_value (iv_throughput r) = Inr (of_int c * pow10 e)"
    "\<forall>r \<in> set ws2. decimal_value (iv_throughput r) = Inr (of_int c * pow10 e)"
    using assms(3) rows by auto
  from constant_window [OF wm(1) len(1) this(1) assms(4) c]
    constant_window [OF wm(2) len(2) this(2) assms(4) c]
  have m: "mean_kbit_s m1 = of_int c * pow10 e" "cv_pct m1 = 0"
    "mean_kbit_s m2 = of_int c * pow10 e" "cv_pct m2 = 0" by auto
  then have "mean_shift m1 m2 = 0" by (simp add: mean_shift_def)
  moreover from this m rep have "output_stationarity_gate rep = ''PASS''"
    by (simp add: CV_MAX_PCT_def MEAN_SHIFT_MAX_PCT_def)
  moreover have "mean_shift_pct rep = Some (mean_shift m1 m2)"
    by (simp add: rep window_report_def Let_def)
  ultimately show ?thesis using m rep by simp
qed

subsection \<open>The time origin of a built timeline\<close>

lemma well_timed_origin:
  "well_timed ex run prev i ratios es \<Longrightarrow> n < length ratios \<Longrightarrow>
   post_t0 (take 3 (drop (3 * n) es)) = Inr (applied_times es ! n)"
proof (induction ratios arbitrary: prev i es n)
  case Nil
  then show ?case by simp
next
  case (Cons r rs)
  then obtain c a k mx rest where es: "es = command_event ex run i c r #
      applied_event ex run i a 0 mx # ack_event ex run i k # rest"
    and ts: "c < a" "a < k" and wt: "well_timed ex run (Some k) (Suc i) rs rest" by auto
  have at: "applied_times es = a # applied_times rest"
    by (simp add: es applied_times_def command_event_def applied_event_def ack_event_def)
  show ?case
  proof (cases n)
    case 0
    with ts show ?thesis
      by (simp add: at) (simp add: es eval_nat_numeral post_t0_def command_event_def
        applied_event_def ack_event_def)
  next
    case (Suc m)
    with Cons.prems(2) Cons.IH [OF wt, of m] show ?thesis
      by (simp add: at) (simp add: es eval_nat_numeral)
  qed
qed

lemma check_post_event_Inr:
  "check_post_event ex run p r = Inr s \<Longrightarrow> \<exists>e. r = Event e \<and> ev_experiment e = ex \<and> ev_run e = run \<and>
     (\<forall>t. p = Some t \<longrightarrow> t < ev_ts e) \<and> s = Some (ev_ts e)"
  by (cases r) (auto simp: check_post_event_def row_identity_def split: option.splits)

lemma check_interval_Inr:
  "check_interval ex run s r = Inr s' \<Longrightarrow> \<exists>v. r = Interval v \<and> iv_experiment v = ex \<and>
     iv_run v = run \<and> iv_record v \<notin> fst s \<and>
     (\<forall>w m. snd s = Some (w, m) \<longrightarrow> w \<le> iv_wall v \<and> m < iv_mono v) \<and>
     s' = (insert (iv_record v) (fst s), Some (iv_wall v, iv_mono v))"
  by (cases r) (auto simp: check_interval_def row_identity_def split: option.splits)

definition interval_clock :: "interval_in \<Rightarrow> int \<times> int" where
  "interval_clock r = (case r of Interval v \<Rightarrow> (iv_wall v, iv_mono v) | BadInterval \<Rightarrow> (0, 0))"

interpretation post_scan: sorted_scan "check_post_event ex run" "\<lambda>s. s" row_ts "(<)" for ex run
  by unfold_locales (auto dest!: check_post_event_Inr simp: row_ts_def)

interpretation interval_scan: sorted_scan "check_interval ex run" snd interval_clock clock_before
  for ex run
proof unfold_locales
  fix s x s' k
  assume "check_interval ex run s x = Inr s'"
  from check_interval_Inr [OF this] show
    "snd s = Some k \<Longrightarrow> clock_before k (interval_clock x)" "snd s' = Some (interval_clock x)"
    by (cases k; auto simp: interval_clock_def clock_before_def)+
next
  show "transp clock_before" by (rule transp_clock_before)
qed

lemma post_events_accepted:
  "sorted_wrt (<) (map ev_ts es) \<Longrightarrow> \<forall>e \<in> set es. ev_experiment e = ex \<and> ev_run e = run \<and>
     (\<forall>t. prev = Some t \<longrightarrow> t < ev_ts e) \<Longrightarrow>
   \<exists>s. foldE (check_post_event ex run) prev (map Event es) = Inr s"
proof (induction es arbitrary: prev)
  case Nil
  then show ?case by simp
next
  case (Cons e es)
  have "check_post_event ex run prev (Event e) = Inr (Some (ev_ts e))"
    using Cons.prems(2) by (auto simp: check_post_event_def row_identity_def split: option.splits)
  moreover have "\<exists>s. foldE (check_post_event ex run) (Some (ev_ts e)) (map Event es) = Inr s"
  proof (rule Cons.IH)
    have "\<forall>x \<in> set es. ev_ts e < ev_ts x" using Cons.prems(1) by simp
    moreover have "\<forall>x \<in> set es. ev_experiment x = ex \<and> ev_run x = run"
      using Cons.prems(2) by (meson list.set_intros(2))
    ultimately show "\<forall>x \<in> set es. ev_experiment x = ex \<and> ev_run x = run \<and>
        (\<forall>t. Some (ev_ts e) = Some t \<longrightarrow> t < ev_ts x)" by (metis option.inject)
  qed (use Cons.prems(1) in simp)
  ultimately show ?case by simp
qed

text \<open>C25: on a timeline that the builder wrote, the time origin of control \<open>i\<close> is the timestamp
  of the \<open>i\<close>-th applied readback.\<close>

theorem time_origin_is_applied_readback:
  assumes "build_events ex run ratios cls als kls = Inr es" and "1 \<le> i" and "i \<le> length ratios"
  shows "load_post_t0 ex run (int i) (map Event es) = Inr (applied_times es ! (i - 1))"
proof -
  have wt: "well_timed ex run None 1 ratios es" by (rule build_events_well_timed [OF assms(1)])
  obtain n where i: "i = Suc n" using assms(2) by (cases i) auto
  then have n: "n < length ratios" using assms(3) by simp
  have "\<exists>s. foldE (check_post_event ex run) None (map Event es) = Inr s"
    by (rule post_events_accepted)
      (use well_timed_sorted [OF wt] well_timed_identity [OF wt] in auto)
  then obtain s where f: "foldE (check_post_event ex run) None (map Event es) = Inr s" by blast
  have l: "length es = 3 * length ratios" by (rule well_timed_length [OF wt])
  have ne: "map Event es \<noteq> []" using l n by auto
  have m: "length (map Event es) mod 3 = 0" "length (map Event es) div 3 = length ratios"
    by (simp_all add: l)
  have k: "nat ((int i - 1) * 3) = 3 * n" "i - 1 = n" by (simp_all add: i)
  have c: "1 \<le> int i \<and> int i \<le> int (length ratios)" using assms(2,3) by simp
  show ?thesis
    unfolding load_post_t0_def m k f require_def
    by (simp only: ne m k f c if_True not_False_eq_True simp_thms bindE_simps events_of_Event
      well_timed_origin [OF wt n])
qed

subsection \<open>The evaluator reads what the canonicaliser writes\<close>

definition clock :: "interval_row \<Rightarrow> int \<times> int" where
  "clock v = (iv_wall v, iv_mono v)"

definition loadable :: "string \<Rightarrow> string \<Rightarrow> interval_row list \<Rightarrow> bool" where
  "loadable ex run vs \<longleftrightarrow> sorted_wrt clock_before (map clock vs) \<and>
     (\<forall>v \<in> set vs. iv_experiment v = ex \<and> iv_run v = run \<and>
        iv_class v \<in> set ALLOWED_INTERVAL_CLASSES)"

lemma check_interval_ordered:
  assumes "iv_experiment v = ex" and "iv_run v = run"
    and "iv_class v \<in> set ALLOWED_INTERVAL_CLASSES" and "\<forall>k. snd s = Some k \<longrightarrow> clock_before k (clock v)"
  shows "check_interval ex run s (Interval v) =
    (if iv_record v \<in> fst s then Inl (Domain ''duplicate iperfInterval record_id'')
     else Inr (insert (iv_record v) (fst s), Some (clock v)))"
  using assms
  by (auto simp: check_interval_def row_identity_def clock_def clock_before_def require_def
    split: option.splits)

lemma load_ordered:
  "loadable ex run vs \<Longrightarrow> \<forall>k. snd s = Some k \<longrightarrow> (\<forall>v \<in> set vs. clock_before k (clock v)) \<Longrightarrow>
   (if distinct (map iv_record vs) \<and> fst s \<inter> iv_record ` set vs = {}
    then \<exists>t. foldE (check_interval ex run) s (map Interval vs) = Inr t
    else foldE (check_interval ex run) s (map Interval vs) =
      Inl (Domain ''duplicate iperfInterval record_id''))"
proof (induction vs arbitrary: s)
  case Nil
  then show ?case by simp
next
  case (Cons v vs)
  have v: "check_interval ex run s (Interval v) =
    (if iv_record v \<in> fst s then Inl (Domain ''duplicate iperfInterval record_id'')
     else Inr (insert (iv_record v) (fst s), Some (clock v)))"
    by (rule check_interval_ordered) (use Cons.prems in \<open>auto simp: loadable_def\<close>)
  show ?case
  proof (cases "iv_record v \<in> fst s")
    case True
    with v show ?thesis by auto
  next
    case False
    have "loadable ex run vs" "\<forall>u \<in> set vs. clock_before (clock v) (clock u)"
      using Cons.prems(1) by (auto simp: loadable_def)
    with Cons.IH [of "(insert (iv_record v) (fst s), Some (clock v))"] False v
    show ?thesis by (auto split: if_splits)
  qed
qed

lemma rows_of_Interval [simp]: "rows_of (map Interval vs) = vs"
  by (induction vs) (simp_all add: rows_of_def)

lemma canonical_loadable:
  assumes "canonicalize re out fault ok ex run scope timeline (Inr staging) = Inr rows"
  shows "loadable ex run rows"
  using assms
proof (rule canonicalize_rows)
  fix ts
  assume r: "length rows = length staging"
    "\<And>i. i < length staging \<Longrightarrow> classify_interval (staging ! i) ts = Inr (iv_class (rows ! i)) \<and>
       idx (staging ! i) ''interval_duration_s'' = Inr (iv_duration (rows ! i)) \<and>
       idx (staging ! i) ''rx_wall_ns'' = Inr (JInt (iv_wall (rows ! i))) \<and>
       row_clock (staging ! i) = (iv_wall (rows ! i), iv_mono (rows ! i)) \<and>
       iv_experiment (rows ! i) = ex \<and> iv_run (rows ! i) = run \<and>
       iv_ts (rows ! i) = iv_wall (rows ! i) \<and> ok (rows ! i)"
    "\<And>i j. i < j \<Longrightarrow> j < length rows \<Longrightarrow>
       iv_wall (rows ! i) \<le> iv_wall (rows ! j) \<and> iv_mono (rows ! i) < iv_mono (rows ! j)"
  have "sorted_wrt clock_before (map clock rows)"
    using r(3) by (auto simp: sorted_wrt_iff_nth_less clock_before_def clock_def)
  moreover have "iv_class (rows ! i) \<in> set ALLOWED_INTERVAL_CLASSES" if "i < length rows" for i
  proof -
    have "set ALLOWED_INTERVAL_CLASSES =
        insert ''transition_crossing'' {''partial_terminal'', ''startup_guard'', ''complete''}"
      by (auto simp: ALLOWED_INTERVAL_CLASSES_def)
    with classify_interval_range r(1,2) that show ?thesis by metis
  qed
  ultimately show ?thesis using r(1,2) by (auto simp: loadable_def in_set_conv_nth)
qed

text \<open>The evaluator accepts a canonical file exactly when its record ids are distinct, which
  the canonicaliser does not check: identity, classes and both clocks are never the reason for a
  refusal.\<close>

theorem canonical_file_loads:
  assumes "canonicalize re out fault ok ex run scope timeline (Inr staging) = Inr rows"
    and "staging \<noteq> []"
  shows "load_intervals ex run (map Interval rows) =
    (if distinct (map iv_record rows) then Inr rows
     else Inl (Domain ''duplicate iperfInterval record_id''))"
proof -
  from assms(1) have "length rows = length staging" by (rule canonicalize_rows)
  with assms(2) have "rows \<noteq> []" by auto
  with load_ordered [OF canonical_loadable [OF assms(1)], of "({}, None)"] show ?thesis
    by (auto simp: load_intervals_def split: if_splits)
qed

lemma eligible_complete: "eligible ph r = Inr True \<Longrightarrow> iv_class r = ''complete''"
  by (auto simp: eligible_def is_complete_def split: if_splits)

text \<open>A complete record of a canonical file keeps clear of every applied readback.\<close>

lemma canonical_complete_clear:
  assumes "canonicalize re out fault ok ex run scope (Some timeline) (Inr staging) = Inr rows"
  shows "\<exists>ts. bindE timeline (load_actuator_timeline ex run) = Inr ts \<and>
    (\<forall>r \<in> set rows. iv_class r = ''complete'' \<longrightarrow> (\<forall>t \<in> set ts. \<exists>n.
       exact_duration_ns (iv_duration r) = Inr n \<and> \<not> (iv_wall r - n < t \<and> t < iv_wall r)))"
  using assms
proof (rule canonicalize_rows)
  fix ts
  assume ts: "(case Some timeline of None \<Rightarrow> Inr [] | Some t \<Rightarrow> bindE t (load_actuator_timeline ex run)) = Inr ts"
    and r: "length rows = length staging"
    "\<And>i. i < length staging \<Longrightarrow> classify_interval (staging ! i) ts = Inr (iv_class (rows ! i)) \<and>
       idx (staging ! i) ''interval_duration_s'' = Inr (iv_duration (rows ! i)) \<and>
       idx (staging ! i) ''rx_wall_ns'' = Inr (JInt (iv_wall (rows ! i))) \<and>
       row_clock (staging ! i) = (iv_wall (rows ! i), iv_mono (rows ! i)) \<and>
       iv_experiment (rows ! i) = ex \<and> iv_run (rows ! i) = run \<and>
       iv_ts (rows ! i) = iv_wall (rows ! i) \<and> ok (rows ! i)"
  have "\<exists>n. exact_duration_ns (iv_duration r) = Inr n \<and> \<not> (iv_wall r - n < t \<and> t < iv_wall r)"
    if rt: "r \<in> set rows" "iv_class r = ''complete''" "t \<in> set ts" for r t
  proof -
    from rt(1) obtain i where i: "i < length staging" "r = rows ! i"
      by (metis in_set_conv_nth r(1))
    with r(2) rt(2) have c: "classify_interval (staging ! i) ts = Inr ''complete''"
      "idx (staging ! i) ''rx_wall_ns'' = Inr (JInt (iv_wall r))"
      "idx (staging ! i) ''interval_duration_s'' = Inr (iv_duration r)" by metis+
    from rt(3) have "ts \<noteq> []" by auto
    with c(1,3) obtain n where n: "exact_duration_ns (iv_duration r) = Inr n"
      by (auto simp: classify_interval_def)
    with classify_complete [OF c n rt(3)] show ?thesis by blast
  qed
  with ts show ?thesis by auto
qed


subsection \<open>A sample phase\<close>

text \<open>Fifty intervals of 0.2 s after the sample timeline, at a constant throughput.\<close>

definition sample_wall :: "nat \<Rightarrow> int" where
  "sample_wall k = 1767225602800000000 + 200000000 * int k"

definition sample_end :: "nat \<Rightarrow> rat" where
  "sample_end k = of_nat (k + 14) / 5"

definition phase_row :: "nat \<Rightarrow> interval_row" where
  "phase_row k = sample_canonical (Suc k) (sample_wall k) (sample_end k) ''complete''"

definition phase_rows :: "interval_row list" where
  "phase_rows = map phase_row [0..<50]"

lemma tenths_value:
  "10 * q \<in> \<int> \<Longrightarrow> dec_value (float_decimal q) = Some q"
  by (rule float_decimal_value [of _ 1]) (simp_all add: mult.commute)

lemma decimal_value_tenths: "10 * q \<in> \<int> \<Longrightarrow> decimal_value (JFloat q) = Inr q"
  by (simp add: decimal_value_def to_decimal_def decimal_of_def tenths_value)

lemma sample_end_Ints: "10 * sample_end k \<in> \<int>" "10 * (sample_end k - 1 / 5) \<in> \<int>"
proof -
  have "10 * sample_end k = of_int (2 * int (k + 14))"
    "10 * (sample_end k - 1 / 5) = of_int (2 * int (k + 14) - 2)" by (simp_all add: sample_end_def)
  then show "10 * sample_end k \<in> \<int>" "10 * (sample_end k - 1 / 5) \<in> \<int>" by (metis Ints_of_int)+
qed

lemma phase_row_values [window_simps]:
  "decimal_value (iv_duration (phase_row k)) = Inr (1 / 5)"
  "decimal_value (iv_start (phase_row k)) = Inr (sample_end k - 1 / 5)"
  "decimal_value (iv_end (phase_row k)) = Inr (sample_end k)"
  "iv_class (phase_row k) = ''complete''" "iv_wall (phase_row k) = sample_wall k"
  using decimal_value_tenths [of "1 / 5"] decimal_value_tenths [OF sample_end_Ints(1)]
    decimal_value_tenths [OF sample_end_Ints(2)]
  by (simp_all add: phase_row_def sample_canonical_def)

lemma phase_row_throughput:
  "decimal_value (iv_throughput (phase_row k)) = Inr (of_int 18000 * pow10 0)"
proof -
  have "decimal_of (JInt 18000) = Some (Dec False 18000 0)" by (simp add: decimal_of_def)
  then show ?thesis
    by (simp add: phase_row_def sample_canonical_def decimal_value_def to_decimal_def dec_value_def)
qed

lemma phase_row_complete: "is_complete (phase_row k) = Inr True"
  by (simp add: is_complete_def phase_row_values PRIMARY_TS_S_def CONTIGUITY_TOLERANCE_S_def)

lemma phase_row_contiguous: "contiguous (phase_row k) (phase_row (Suc k)) = Inr True"
  by (simp add: contiguous_def phase_row_values sample_end_def CONTIGUITY_TOLERANCE_S_def
    add_divide_distrib)

lemma fifth_duration: "duration_ns (iv_duration (phase_row k)) = Inr 200000000"
proof -
  have "R40 (of_int 2 * pow10 8) = of_int 2 * pow10 8" by (rule R40_exact) simp
  then have r: "R40 200000000 = of_int 200000000" by (simp add: pow10_def)
  have "round_half_even (of_int 200000000) = 200000000" by (rule round_half_even_int)
  then show ?thesis by (simp add: duration_ns_def phase_row_values r Let_def)
qed

lemma phase_row_bounds:
  "observed_bounds (phase_row k) = Inr (sample_wall k - 200000000, sample_wall k)"
  by (simp add: observed_bounds_def fifth_duration phase_row_values sample_wall_def)

lemma phase_row_eligible:
  "t0 \<le> 1767225602600000000 \<Longrightarrow> eligible (PostStep t0) (phase_row k) = Inr True"
  by (simp add: eligible_def phase_row_complete phase_row_bounds sample_wall_def)

text \<open>The sample rows are eligible in both modes.\<close>

definition sample_phase :: "phase \<Rightarrow> bool" where
  "sample_phase ph \<longleftrightarrow> (case ph of InitialPreStep \<Rightarrow> True | PostStep t0 \<Rightarrow> t0 \<le> 1767225602600000000)"

lemma sample_phase_eligible: "sample_phase ph \<Longrightarrow> eligible ph (phase_row k) = Inr True"
  by (cases ph) (simp_all add: sample_phase_def phase_row_eligible, simp add: eligible_def phase_row_complete)

lemma phase_rows_run:
  assumes "sample_phase ph"
  shows "foldE (run_step ph) ([], []) (map phase_row [0..<n]) = Inr ([], map phase_row [0..<n])"
proof (induction n)
  case 0
  then show ?case by simp
next
  case (Suc n)
  have "run_step ph ([], map phase_row [0..<n]) (phase_row n) =
      Inr ([], map phase_row [0..<Suc n])"
  proof (cases n)
    case 0
    then show ?thesis by (simp add: run_step_def sample_phase_eligible [OF assms])
  next
    case (Suc m)
    then have "last (map phase_row [0..<n]) = phase_row m" "[0..<n] \<noteq> []" by simp_all
    with Suc show ?thesis
      by (simp add: run_step_def sample_phase_eligible [OF assms] phase_row_contiguous)
  qed
  with Suc show ?case by (simp add: foldE_append)
qed

lemma phase_geometry: "validate_window_geometry (map phase_row [a..<a + 25]) = Inr ()"
proof -
  have c: "all_complete (map phase_row [a..<a + 25]) = Inr ()"
    by (auto simp: all_complete_def phase_row_complete)
  have "zip [a..<a + 25] (tl [a..<a + 25]) = map (\<lambda>k. (k, Suc k)) [a..<a + 24]"
    by (rule nth_equalityI) (simp_all add: nth_tl)
  then have "zip (map phase_row [a..<a + 25]) (tl (map phase_row [a..<a + 25])) =
      map (\<lambda>k. (phase_row k, phase_row (Suc k))) [a..<a + 24]"
    by (simp add: map_tl [symmetric] zip_map_map)
  then have g: "no_gap (map phase_row [a..<a + 25]) = Inr ()"
    by (auto simp: no_gap_def phase_row_contiguous)
  have hl: "hd (map phase_row [a..<a + 25]) = phase_row a"
    "last (map phase_row [a..<a + 25]) = phase_row (a + 24)"
    by (simp_all add: hd_map last_map add.commute)
  have "R40 5 = 5" using R40_exact [of 5 0] by (simp add: pow10_def)
  moreover have "sample_end (a + 24) - (sample_end a - 1 / 5) = 5"
    by (simp add: sample_end_def field_simps)
  ultimately show ?thesis
    by (simp add: validate_window_geometry_def c g hl phase_row_values WINDOW_S_def
      CONTIGUITY_TOLERANCE_S_def WINDOW_SAMPLES_def del: upt_Suc)
qed

lemma phase_metrics: "\<exists>m. window_metrics (map phase_row [a..<a + 25]) = Inr m \<and>
    mean_kbit_s m = of_int 18000 * pow10 0 \<and> cv_pct m = 0"
proof -
  have "mapE (\<lambda>r. decimal_value (iv_throughput r)) (map phase_row [a..<a + 25]) =
      Inr (map (\<lambda>_. of_int 18000 * pow10 0) (map phase_row [a..<a + 25]))"
    by (rule mapE_total) (auto simp: phase_row_throughput)
  then have v: "mapE (\<lambda>r. decimal_value (iv_throughput r)) (map phase_row [a..<a + 25]) =
      Inr (replicate 25 (of_int 18000 * pow10 0))"
    by (simp only: map_replicate_const length_map length_upt add_diff_cancel_left')
  have hl: "hd (map phase_row [a..<a + 25]) = phase_row a"
    "last (map phase_row [a..<a + 25]) = phase_row (a + 24)"
    by (simp_all add: hd_map last_map add.commute)
  have c: "dec_mean (replicate 25 (of_int 18000 * pow10 0)) = of_int 18000 * pow10 0"
    "dec_variance (replicate 25 (of_int 18000 * pow10 0)) = 0"
    by (rule constant_mean; simp)+
  have p: "\<not> of_int 18000 * pow10 0 \<le> 0" by (simp add: pow10_def)
  show ?thesis
    by (simp only: window_metrics_def phase_geometry v c p hl phase_row_values bindE_simps if_False
      Let_def) (simp add: Let_def)
qed

lemma phase_windows:
  "window_slice phase_rows 1 = map phase_row [0..<0 + 25]"
  "window_slice phase_rows 2 = map phase_row [25..<25 + 25]"
  by (simp_all only: window_slice_def WINDOW_SAMPLES_def phase_rows_def take_map drop_map) simp_all

lemma phase_report:
  assumes "sample_phase ph"
  shows "\<exists>m1 m2. evaluate ph phase_rows = Inr (window_report ph phase_rows m1 m2 True) \<and>
    window_metrics (map phase_row [0..<0 + 25]) = Inr m1 \<and>
    window_metrics (map phase_row [25..<25 + 25]) = Inr m2 \<and>
    cv_pct m1 = 0 \<and> cv_pct m2 = 0 \<and> mean_shift m1 m2 = 0"
proof -
  have run: "latest_eligible_run ph phase_rows = Inr phase_rows"
    unfolding latest_eligible_run_def phase_rows_def phase_rows_run [OF assms] by simp
  have n: "length phase_rows div WINDOW_SAMPLES = 2"
    by (simp add: phase_rows_def WINDOW_SAMPLES_def)
  obtain m1 where m1: "window_metrics (map phase_row [0..<0 + 25]) = Inr m1"
    "mean_kbit_s m1 = of_int 18000 * pow10 0" "cv_pct m1 = 0" using phase_metrics by blast
  obtain m2 where m2: "window_metrics (map phase_row [25..<25 + 25]) = Inr m2"
    "mean_kbit_s m2 = of_int 18000 * pow10 0" "cv_pct m2 = 0" using phase_metrics by blast
  have l: "last (map phase_row [25..<25 + 25]) = phase_row 49" by (simp add: last_map)
  have d: "phase_duration ph (phase_row 49) = Inr True"
    using assms by (cases ph) (simp_all add: sample_phase_def phase_duration_def phase_row_bounds
      POST_MINIMUM_NS_def sample_wall_def phase_row_values INITIAL_PRE_MINIMUM_S_def sample_end_def)
  have s: "mean_shift m1 m2 = 0" by (simp add: mean_shift_def m1 m2)
  have p: "\<not> mean_kbit_s m1 \<le> 0" by (simp add: m1 pow10_def)
  have two: "(2 :: nat) - 1 = 1" by simp
  have "evaluate ph phase_rows = Inr (window_report ph phase_rows m1 m2 True)"
    by (simp only: evaluate_def run n Let_def bindE_simps phase_windows m1(1) m2(1) l d p if_False
      two less_irrefl)
  then show ?thesis using s m1 m2 by blast
qed

lemma phase_evaluated:
  assumes "sample_phase ph"
  shows "\<exists>rep. evaluate ph phase_rows = Inr rep \<and> w1 rep \<noteq> None \<and> w2 rep \<noteq> None \<and>
    statistical_phase_candidate rep = ''PASS''"
  using phase_report [OF assms] by (auto simp: CV_MAX_PCT_def MEAN_SHIFT_MAX_PCT_def)

definition phase_staging :: "nat \<Rightarrow> json" where
  "phase_staging k = sample_staging (int (Suc k)) (sample_wall k) (sample_end k)"

lemma phase_staging_class: "classify_interval (phase_staging k) [1767225602500000000] = Inr ''complete''"
proof -
  have "base_interval_class (phase_staging k) = Inr ''complete''"
    unfolding phase_staging_def
    by (rule sample_base) (simp_all add: tenths_value [OF sample_end_Ints(1)], simp add: sample_end_def)
  moreover have "idx (phase_staging k) ''rx_wall_ns'' = Inr (JInt (sample_wall k))"
    "idx (phase_staging k) ''interval_duration_s'' = Inr (JFloat (1 / 5))"
    by (simp_all add: phase_staging_def sample_staging_def idx_def obj_idx_def)
  ultimately show ?thesis
    by (simp add: classify_interval_def positive_int_def sample_duration sample_wall_def strict_hits_def)
qed

definition phase_clock :: "nat \<Rightarrow> (json \<times> json) option" where
  "phase_clock n = (if n = 0 then None else Some (JInt (sample_wall (n - 1)), JInt (1000 + int n)))"

lemma phase_fold:
  "foldE (canonical_step (\<lambda>_. True) sample_ex sample_run [1767225602500000000]) (None, [])
     (map phase_staging [0..<n]) = Inr (phase_clock n, map phase_row [0..<n])"
proof (induction n)
  case 0
  then show ?case by (simp add: phase_clock_def)
next
  case (Suc n)
  have "canonical_step (\<lambda>_. True) sample_ex sample_run [1767225602500000000]
      (phase_clock n, map phase_row [0..<n]) (phase_staging n) =
    Inr (Some (JInt (sample_wall n), JInt (1000 + int (Suc n))), map phase_row [0..<n] @ [phase_row n])"
    unfolding phase_staging_def phase_row_def
  proof (rule sample_step)
    show "check_clock (phase_clock n) (JInt (sample_wall n)) (JInt (1000 + int (Suc n))) = Inr ()"
      by (cases n) (simp_all add: phase_clock_def check_clock_def [of None] check_clock_Inr sample_wall_def)
  qed (use phase_staging_class in \<open>simp_all add: phase_staging_def sample_wall_def\<close>)
  moreover have "phase_clock (Suc n) = Some (JInt (sample_wall n), JInt (1000 + int (Suc n)))"
    by (simp add: phase_clock_def)
  ultimately show ?case
    by (simp only: Suc upt_Suc_append le0 map_append list.map foldE_append foldE.simps bindE_simps)
qed

lemma phase_file:
  "canonicalize EXPERIMENT_RE False None (\<lambda>_. True) sample_ex sample_run WithTransitions
     (Some (Inr (map Event sample_events))) (Inr (map phase_staging [0..<50])) = Inr phase_rows"
  unfolding canonicalize_def sample_identity scope_check_def
  by (simp add: sample_readable phase_fold phase_rows_def del: upt_Suc)

text \<open>The time origin of the sample timeline.\<close>

abbreviation sample_t0 :: int where "sample_t0 \<equiv> 1767225602500000000"

lemma sample_report:
  "\<exists>rep m1 m2. evaluate (PostStep sample_t0) phase_rows = Inr rep \<and> w1 rep = Some m1 \<and>
    w2 rep = Some m2 \<and> statistical_phase_candidate rep = ''PASS''"
  using phase_evaluated [of "PostStep sample_t0"] by (auto simp: sample_phase_def)

lemma sample_latest_run: "latest_eligible_run (PostStep sample_t0) phase_rows = Inr phase_rows"
  unfolding latest_eligible_run_def phase_rows_def by (simp add: phase_rows_run sample_phase_def del: upt_Suc)

theorem latest_run_is_reference_witness:
  "reference_run (PostStep sample_t0) phase_rows = phase_rows"
  using latest_run_is_reference [OF sample_latest_run] by simp


theorem post_step_pass_is_after_readback_witness:
  "\<exists>pre ws1 ws2 post. phase_rows = pre @ ws1 @ ws2 @ post \<and> length ws1 = 25 \<and> length ws2 = 25 \<and>
    10000000000 \<le> iv_wall (last ws2) - sample_t0"
proof -
  obtain rep where r: "evaluate (PostStep sample_t0) phase_rows = Inr rep"
    "statistical_phase_candidate rep = ''PASS''" using sample_report by blast
  from post_step_pass_is_after_readback [OF r] show ?thesis by blast
qed

theorem constant_throughput_is_stationary_witness:
  "\<exists>rep. evaluate (PostStep sample_t0) phase_rows = Inr rep \<and> mean_shift_pct rep = Some 0 \<and>
    output_stationarity_gate rep = ''PASS''"
proof -
  obtain rep where r: "evaluate (PostStep sample_t0) phase_rows = Inr rep" "w1 rep \<noteq> None"
    using sample_report by (metis option.distinct(1))
  have "\<forall>x \<in> set phase_rows. decimal_value (iv_throughput x) = Inr (of_int 18000 * pow10 0)"
    by (auto simp: phase_rows_def phase_row_throughput)
  from constant_throughput_is_stationary [OF r this] r(1) show ?thesis by auto
qed

theorem time_origin_is_applied_readback_witness:
  "load_post_t0 sample_ex sample_run 1 (map Event sample_events) =
     Inr (applied_times sample_events ! 0)"
  using time_origin_is_applied_readback [OF sample_build, of 1] by simp

theorem canonical_file_loads_witness:
  "load_intervals sample_ex sample_run (map Interval sample_rows) = Inr sample_rows"
proof -
  have "distinct (map iv_record sample_rows)"
    by (simp add: sample_rows_def sample_canonical_def)
  with canonical_file_loads [OF sample_file] show ?thesis by simp
qed


end
