(* ===== verification/Precontrol_Freshness.thy ===== *)
theory Precontrol_Freshness
  imports Output_Stationarity
begin

section \<open>The precontrol freshness gate\<close>

text \<open>
  \<^verbatim>\<open>scripts/experiment-harness/prompt12-precontrol-freshness.py\<close>: select the latest 50 complete
  contiguous samples of a canonical file, run the stationarity evaluator on them in process, and
  admit the control when the evaluator's gates pass on exactly those windows and the last sample
  is fresh.  The rows are raw JSON here; what the JSON schema accepts, and how a report is
  written as JSON, are parameters.  The evaluator given on the command line is the repository's
  own, so its functions are those of the evaluator's theory.
\<close>

named_theorems fresh_simps \<open>the phases of the freshness gate\<close>

subsection \<open>The policy file\<close>

type_synonym policy = "(string \<times> string) list"

text \<open>The message quotes the line; Python's escapes inside the quotes are left out.\<close>

definition policy_line :: "policy \<Rightarrow> string \<Rightarrow> policy result" where
  "policy_line values raw =
     (let line = strip raw in
      if line = [] \<or> starts_with ''#'' line then Inr values
      else (case split_once (CHR ''='') line of
          None \<Rightarrow> Inl (Domain (''invalid policy line: '' @ [CHR 0x27] @ line @ [CHR 0x27]))
        | Some (key, v) \<Rightarrow> if key \<in> set (map fst values)
            then Inl (Domain (''duplicate policy key: '' @ key)) else Inr (values @ [(key, v)])))"

definition POLICY_KEYS :: "string list" where
  "POLICY_KEYS = [''FINAL_GATE_MAX_AGE_AT_DOCKER_START_MS'', ''FINAL_GATE_SELECTION'',
     ''PRIMARY_OUTPUT_TS_MS'', ''STATIONARITY_SAMPLES_PER_WINDOW'', ''STATIONARITY_WINDOW_COUNT'',
     ''STATIONARITY_WINDOW_S'']"

fun join_commas :: "string list \<Rightarrow> string" where
  "join_commas [] = []"
| "join_commas [s] = s"
| "join_commas (s # t # ts) = s @ '','' @ join_commas (t # ts)"

definition policy_value :: "policy \<Rightarrow> string \<Rightarrow> string" where
  "policy_value values k = (case map_of values k of None \<Rightarrow> [] | Some v \<Rightarrow> v)"

definition policy_int :: "policy \<Rightarrow> string \<Rightarrow> int result" where
  "policy_int values k = (case int_of_text (policy_value values k) of
     None \<Rightarrow> Inl (PyExn ''ValueError'') | Some i \<Rightarrow> Inr i)"

definition policy_decimal :: "policy \<Rightarrow> string \<Rightarrow> decimal result" where
  "policy_decimal values k = (case dec_of_text (policy_value values k) of
     None \<Rightarrow> Inl (PyExn ''InvalidOperation'') | Some d \<Rightarrow> Inr d)"

definition load_policy :: "string \<Rightarrow> policy result" where
  "load_policy file =
     bindE (foldE policy_line [] (splitlines file)) (\<lambda>values.
     bindE (let missing = filter (\<lambda>k. map_of values k = None) POLICY_KEYS in
            require (missing = []) (''missing policy keys: '' @ join_commas missing)) (\<lambda>_.
     bindE (require (policy_value values ''FINAL_GATE_SELECTION'' =
         ''LATEST_50_COMPLETE_CONTIGUOUS_SAMPLES'') ''unexpected FINAL_GATE_SELECTION'') (\<lambda>_.
     bindE (policy_int values ''STATIONARITY_SAMPLES_PER_WINDOW'') (\<lambda>samples.
     bindE (require (samples = 25) ''stationarity samples/window is not 25'') (\<lambda>_.
     bindE (policy_int values ''STATIONARITY_WINDOW_COUNT'') (\<lambda>count.
     bindE (require (count = 2) ''stationarity window count is not 2'') (\<lambda>_.
     bindE (bindE (policy_decimal values ''STATIONARITY_WINDOW_S'') (\<lambda>d. dec_eq d (Dec False 5 0))) (\<lambda>five.
     bindE (require five ''stationarity window is not 5 s'') (\<lambda>_.
     bindE (bindE (policy_decimal values ''PRIMARY_OUTPUT_TS_MS'') (\<lambda>d. dec_eq d (Dec False 200 0))) (\<lambda>ts.
     bindE (require ts ''primary sample period is not 200 ms'') (\<lambda>_. Inr values)))))))))))"

subsection \<open>The rows\<close>

text \<open>A non-blank line: its number, and the document it holds or the decoder's message.\<close>

type_synonym line_in = "nat \<times> (string + json)"

definition row_of_line :: "string \<Rightarrow> string \<Rightarrow> line_in \<Rightarrow> json result" where
  "row_of_line ex run l = (case l of (n, Inl msg) \<Rightarrow>
       Inl (Domain (''invalid JSON at line '' @ show_nat n @ '': '' @ msg))
     | (n, Inr row) \<Rightarrow>
        bindE (getE row ''experiment_id'') (\<lambda>e.
        bindE (require (py_eq e (JStr ex)) (''experiment_id mismatch at line '' @ show_nat n)) (\<lambda>_.
        bindE (getE row ''run_id'') (\<lambda>r.
        bindE (require (py_eq r (JStr run)) (''run_id mismatch at line '' @ show_nat n)) (\<lambda>_.
          Inr row)))))"

definition select_step :: "int option \<Rightarrow> int option \<times> json list \<Rightarrow> json \<Rightarrow>
    (int option \<times> json list) result" where
  "select_step cutoff s row =
     bindE (bindE (idx row ''timestamp_utc_ns'') py_int) (\<lambda>ts.
     bindE (require (case fst s of None \<Rightarrow> True | Some t \<Rightarrow> t < ts)
       ''canonical timestamp order is not strictly increasing'') (\<lambda>_.
     bindE (getE row ''interval_class'') (\<lambda>cls.
       if \<not> py_eq cls (JStr ''complete'') \<or> (case cutoff of None \<Rightarrow> False | Some c \<Rightarrow> c < ts)
       then Inr (Some ts, snd s)
       else bindE (bindE (idx row ''interval_duration_s'') to_decimal) (\<lambda>duration.
            bindE (dec_eq duration (Dec False 2 (- 1))) (\<lambda>fifth.
            bindE (require fifth ''eligible complete interval duration is not 0.2 s'') (\<lambda>_.
              Inr (Some ts, snd s @ [row])))))))"

definition load_rows :: "string \<Rightarrow> string \<Rightarrow> int option \<Rightarrow> line_in list \<Rightarrow>
    (json list \<times> json list) result" where
  "load_rows ex run cutoff ls =
     bindE (mapE (row_of_line ex run) ls) (\<lambda>all_rows.
     bindE (foldE (select_step cutoff) (None, []) all_rows) (\<lambda>(_, completes). Inr (all_rows, completes)))"

definition field_decimal :: "json \<Rightarrow> string \<Rightarrow> decimal result" where
  "field_decimal row k = bindE (idx row k) to_decimal"

text \<open>\<open>a - b\<close> compared with 5 in the default context.\<close>

definition minus_is_five :: "decimal \<Rightarrow> decimal \<Rightarrow> bool result" where
  "minus_is_five a b =
     (if a = DSNaN \<or> b = DSNaN then Inl (PyExn ''InvalidOperation'')
      else case (a, b) of
        (DInf x, DInf y) \<Rightarrow> if x = y then Inl (PyExn ''InvalidOperation'') else Inr False
      | _ \<Rightarrow> (case (dec_value a, dec_value b) of
            (Some x, Some y) \<Rightarrow> Inr (dec_round 28 (x - y) = 5) | _ \<Rightarrow> Inr False))"

definition joined :: "json \<Rightarrow> json \<Rightarrow> string \<Rightarrow> unit result" where
  "joined left right why =
     bindE (field_decimal left ''interval_end_s'') (\<lambda>left_end.
     bindE (field_decimal right ''interval_start_s'') (\<lambda>right_start.
     bindE (dec_eq left_end right_start) (\<lambda>eq. require eq why)))"

definition validate_window :: "json list \<Rightarrow> unit result" where
  "validate_window window =
     bindE (require (length window = 25) ''stationarity window does not contain 25 samples'') (\<lambda>_.
     bindE (seqE (map (\<lambda>(left, right). joined left right
       ''selected stationarity window contains a logical timing gap'') (zip window (tl window)))) (\<lambda>_.
     bindE (field_decimal (hd window) ''interval_start_s'') (\<lambda>start.
     bindE (field_decimal (last window) ''interval_end_s'') (\<lambda>end_s.
     bindE (minus_is_five end_s start) (\<lambda>five.
       require five ''selected stationarity window does not span 5 s'')))))"

subsection \<open>The evaluator in process\<close>

text \<open>A row as the evaluator sees it once the schema has accepted it: the fields it reads.\<close>

definition interval_of :: "json \<Rightarrow> interval_row option" where
  "interval_of row = (case row of
       JObj ob \<Rightarrow> (case (obj_get ob ''experiment_id'', obj_get ob ''run_id'', obj_get ob ''record_id'',
            obj_get ob ''timestamp_utc_ns'', obj_get ob ''rx_wall_ns'', obj_get ob ''rx_mono_ns'',
            obj_get ob ''interval_class'') of
          (JStr ex, JStr run, JStr rec, JInt ts, JInt wall, JInt mon, JStr cls) \<Rightarrow>
            Some \<lparr>iv_experiment = ex, iv_run = run, iv_record = rec, iv_ts = ts, iv_wall = wall,
              iv_mono = mon, iv_start = obj_get ob ''interval_start_s'',
              iv_end = obj_get ob ''interval_end_s'', iv_duration = obj_get ob ''interval_duration_s'',
              iv_throughput = obj_get ob ''throughput_kbit_s'', iv_loss = obj_get ob ''loss_pct'',
              iv_jitter = obj_get ob ''jitter_ms'', iv_bytes = obj_get ob ''bytes_transferred'',
              iv_class = cls\<rparr>
        | _ \<Rightarrow> None)
     | _ \<Rightarrow> None)"

definition official_row :: "(json \<Rightarrow> bool) \<Rightarrow> json \<Rightarrow> interval_in" where
  "official_row schema_ok row = (if schema_ok row
     then (case interval_of row of Some v \<Rightarrow> Interval v | None \<Rightarrow> BadInterval) else BadInterval)"

definition evaluator_failed :: "exn \<Rightarrow> exn" where
  "evaluator_failed e = Domain (''official stationarity evaluator failed in-process: '' @
     (case e of Domain m \<Rightarrow> ''StationarityError: '' @ m | SchemaInvalid \<Rightarrow> ''ValidationError''
      | PyExn t \<Rightarrow> t))"

definition in_process :: "'a result \<Rightarrow> 'a result" where
  "in_process r = (case r of Inl e \<Rightarrow> Inl (evaluator_failed e) | Inr x \<Rightarrow> Inr x)"

definition run_evaluator :: "(json \<Rightarrow> bool) \<Rightarrow> exn option \<Rightarrow> string \<Rightarrow> string \<Rightarrow> json list \<Rightarrow>
    stationarity_report result" where
  "run_evaluator schema_ok fault ex run selected = in_process
     (bindE (case fault of None \<Rightarrow> Inr () | Some e \<Rightarrow> Inl e) (\<lambda>_.
      bindE (load_intervals ex run (map (official_row schema_ok) selected)) (\<lambda>official_rows.
        evaluate InitialPreStep official_rows)))"

subsection \<open>The command\<close>

record fresh_env =
  missing_input :: "string option"
  existing_output :: "string option"
  policy_file :: string
  line_rows :: "line_in list"
  row_ok :: "json \<Rightarrow> bool"
  evaluator_fault :: "exn option"
  cutoff_utc_ns :: "int option"
  decision_argument :: "int option"
  clock_now :: int
  report_json :: "stationarity_report \<Rightarrow> json"

definition binding_of :: "metrics option \<Rightarrow> (string \<times> string) result" where
  "binding_of m = (case m of None \<Rightarrow> Inl (PyExn ''TypeError'')
     | Some m \<Rightarrow> Inr (record_id_first m, record_id_last m))"

definition expected_binding :: "json list \<Rightarrow> (json \<times> json) result" where
  "expected_binding w = bindE (idx (hd w) ''record_id'') (\<lambda>a.
     bindE (idx (last w) ''record_id'') (\<lambda>b. Inr (a, b)))"

text \<open>\<open>int(max_age_ms * Decimal("1000000"))\<close>, in the evaluator's context.\<close>

definition policy_age_ns :: "decimal \<Rightarrow> int result" where
  "policy_age_ns d = (case d of
       DInf _ \<Rightarrow> Inl (PyExn ''OverflowError'') | DNaN \<Rightarrow> Inl (PyExn ''ValueError'')
     | DSNaN \<Rightarrow> Inl (PyExn ''InvalidOperation'')
     | _ \<Rightarrow> (case dec_value d of None \<Rightarrow> Inl (PyExn ''ValueError'')
         | Some q \<Rightarrow> (let v = R40 (q * 1000000) in Inr (if v < 0 then - \<lfloor>- v\<rfloor> else \<lfloor>v\<rfloor>))))"

definition opt_int :: "int option \<Rightarrow> json" where
  "opt_int v = (case v of None \<Rightarrow> JNull | Some i \<Rightarrow> JInt i)"

definition window_document :: "json list \<Rightarrow> json result" where
  "window_document w =
     bindE (idx (hd w) ''record_id'') (\<lambda>a. bindE (idx (last w) ''record_id'') (\<lambda>b.
     bindE (idx (hd w) ''interval_start_s'') (\<lambda>s. bindE (idx (last w) ''interval_end_s'') (\<lambda>e.
       Inr (JObj [(''record_id_first'', a), (''record_id_last'', b), (''interval_start_s'', s),
         (''interval_end_s'', e)])))))"

text \<open>The selection: the last fifty complete rows, as two valid and adjacent windows.\<close>

definition select_windows :: "json list \<Rightarrow> (json list \<times> json list) result" where
  "select_windows completes =
     bindE (require (50 \<le> length completes) ''fewer than 50 complete eligible samples'') (\<lambda>_.
     (let selected = drop (length completes - 50) completes;
          w1 = take 25 selected; w2 = drop 25 selected
      in bindE (validate_window w1) (\<lambda>_. bindE (validate_window w2) (\<lambda>_.
         bindE (joined (last w1) (hd w2) ''W1 and W2 are not consecutive'') (\<lambda>_. Inr (w1, w2))))))"

definition stationarity_holds :: "bool \<Rightarrow> stationarity_report \<Rightarrow> bool" where
  "stationarity_holds binding rep \<longleftrightarrow> binding \<and> cv_w1_gate rep = ''PASS'' \<and>
     cv_w2_gate rep = ''PASS'' \<and> mean_shift_gate rep = ''PASS'' \<and>
     output_stationarity_gate rep = ''PASS'' \<and> minimum_phase_duration_gate rep = ''PASS''"

definition binding_matches :: "stationarity_report \<Rightarrow> json list \<Rightarrow> json list \<Rightarrow> bool result" where
  "binding_matches rep rows1 rows2 =
     bindE (expected_binding rows1) (\<lambda>(a, b). bindE (expected_binding rows2) (\<lambda>(c, d).
     bindE (binding_of (w1 rep)) (\<lambda>(a', b'). bindE (binding_of (w2 rep)) (\<lambda>(c', d').
       Inr (py_eq (JStr a') a \<and> py_eq (JStr b') b \<and> py_eq (JStr c') c \<and> py_eq (JStr d') d)))))"

record decision_facts =
  canonical_count :: nat
  complete_count :: nat
  bound_ok :: bool
  stationary_ok :: bool
  decision_ns :: int
  latest_ns :: int
  max_age :: decimal
  fresh_ok :: bool

definition admission :: "decision_facts \<Rightarrow> bool" where
  "admission f \<longleftrightarrow> stationary_ok f \<and> fresh_ok f"

definition freshness_document :: "fresh_env \<Rightarrow> string \<Rightarrow> string \<Rightarrow> decision_facts \<Rightarrow> json \<Rightarrow> json \<Rightarrow>
    stationarity_report \<Rightarrow> obj" where
  "freshness_document env ex run f doc1 doc2 rep = [
     (''schema'', JStr ''sci_oran_prompt12_precontrol_freshness_v1''),
     (''experiment_id'', JStr ex), (''run_id'', JStr run),
     (''selection'', JStr ''latest_50_complete_contiguous_samples''),
     (''canonical_record_count'', JInt (int (canonical_count f))),
     (''eligible_complete_count'', JInt (int (complete_count f))),
     (''selected_complete_count'', JInt 50),
     (''cutoff_utc_ns'', opt_int (cutoff_utc_ns env)),
     (''decision_utc_ns'', JInt (decision_ns f)),
     (''latest_sample_timestamp_utc_ns'', JInt (latest_ns f)),
     (''latest_sample_age_ms'', JStr (dec_text (per_million (decision_ns f - latest_ns f)))),
     (''maximum_allowed_age_ms'', JStr (dec_text (max_age f))),
     (''w1'', doc1), (''w2'', doc2),
     (''stationarity_window_binding_gate'', JStr (gate (bound_ok f))),
     (''output_stationarity_gate'', JStr (gate (stationary_ok f))),
     (''freshness_gate'', JStr (gate (fresh_ok f))),
     (''precontrol_admission_gate'', JStr (gate (admission f))),
     (''official_stationarity_report'', report_json env rep)]"

definition freshness_files :: "fresh_env \<Rightarrow> unit result" where
  "freshness_files env = seqE [
     (case missing_input env of None \<Rightarrow> Inr ()
      | Some p \<Rightarrow> Inl (Domain (''required input missing: '' @ p))),
     (case existing_output env of None \<Rightarrow> Inr ()
      | Some p \<Rightarrow> Inl (Domain (''output already exists: '' @ p)))]"

text \<open>The exit code and the document written.\<close>

definition freshness_main :: "fresh_env \<Rightarrow> string \<Rightarrow> string \<Rightarrow> (int \<times> obj) result" where
  "freshness_main env ex run =
     bindE (freshness_files env) (\<lambda>_.
     bindE (load_policy (policy_file env)) (\<lambda>values.
     bindE (load_rows ex run (cutoff_utc_ns env) (line_rows env)) (\<lambda>(all_rows, completes).
     bindE (select_windows completes) (\<lambda>(rows1, rows2).
     bindE (run_evaluator (row_ok env) (evaluator_fault env) ex run (rows1 @ rows2)) (\<lambda>rep.
     bindE (binding_matches rep rows1 rows2) (\<lambda>binding_pass.
     (let stationarity_pass = stationarity_holds binding_pass rep;
          decision = (case decision_argument env of None \<Rightarrow> clock_now env | Some d \<Rightarrow> d)
      in bindE (bindE (idx (last rows2) ''timestamp_utc_ns'') py_int) (\<lambda>latest.
         bindE (policy_decimal values ''FINAL_GATE_MAX_AGE_AT_DOCKER_START_MS'') (\<lambda>max_age_ms.
         bindE (policy_age_ns max_age_ms) (\<lambda>limit_ns.
         (let age_ns = decision - latest;
              f = \<lparr>canonical_count = length all_rows, complete_count = length completes,
                bound_ok = binding_pass, stationary_ok = stationarity_pass, decision_ns = decision,
                latest_ns = latest, max_age = max_age_ms,
                fresh_ok = (0 \<le> age_ns \<and> age_ns \<le> limit_ns)\<rparr>
          in bindE (window_document rows1) (\<lambda>doc1. bindE (window_document rows2) (\<lambda>doc2.
             Inr (if admission f then 0 else 10,
                  freshness_document env ex run f doc1 doc2 rep))))))))))))))"

text \<open>The process: the module's own error is exit code 64.\<close>

definition freshness_exit :: "(int \<times> obj) result \<Rightarrow> int result" where
  "freshness_exit r = (case r of Inr (rc, _) \<Rightarrow> Inr rc | Inl (Domain _) \<Rightarrow> Inr 64 | Inl e \<Rightarrow> Inl e)"

subsection \<open>What the loaders promise\<close>

definition ts_of :: "json \<Rightarrow> int" where
  "ts_of row = (case bindE (idx row ''timestamp_utc_ns'') py_int of Inr t \<Rightarrow> t | Inl _ \<Rightarrow> 0)"

text \<open>A row the selection keeps: complete, exactly 0.2 s, not after the cutoff.\<close>

definition kept :: "int option \<Rightarrow> json \<Rightarrow> bool" where
  "kept cutoff row \<longleftrightarrow> getE row ''interval_class'' = Inr (JStr ''complete'') \<and>
     (\<forall>c. cutoff = Some c \<longrightarrow> ts_of row \<le> c) \<and>
     (\<exists>d. field_decimal row ''interval_duration_s'' = Inr d \<and> dec_value d = Some (1 / 5))"

lemma dec_eq_fifth: "dec_eq d (Dec False 2 (- 1)) = Inr True \<Longrightarrow> dec_value d = Some (1 / 5)"
  by (cases d) (auto simp: dec_eq_def dec_value_def pow10_def split: if_splits)

lemma select_step_Inr:
  assumes "select_step cutoff s row = Inr s'"
  shows "(\<forall>t. fst s = Some t \<longrightarrow> t < ts_of row) \<and> fst s' = Some (ts_of row) \<and>
    snd s' = snd s @ filter (kept cutoff) [row]"
proof -
  from assms obtain ts cls where
    ts: "bindE (idx row ''timestamp_utc_ns'') py_int = Inr ts"
      "case fst s of None \<Rightarrow> True | Some t \<Rightarrow> t < ts" and
    cls: "getE row ''interval_class'' = Inr cls" and
    rest: "(if \<not> py_eq cls (JStr ''complete'') \<or> (case cutoff of None \<Rightarrow> False | Some c \<Rightarrow> c < ts)
       then Inr (Some ts, snd s)
       else bindE (bindE (idx row ''interval_duration_s'') to_decimal) (\<lambda>duration.
            bindE (dec_eq duration (Dec False 2 (- 1))) (\<lambda>fifth.
            bindE (require fifth ''eligible complete interval duration is not 0.2 s'') (\<lambda>_.
              Inr (Some ts, snd s @ [row]))))) = Inr s'"
    unfolding select_step_def by (simp only: bindE_Inr_iff require_Inr_iff) blast
  have t: "ts_of row = ts" using ts(1) by (simp add: ts_of_def del: bindE_Inr_iff)
  show ?thesis
  proof (cases "\<not> py_eq cls (JStr ''complete'') \<or> (case cutoff of None \<Rightarrow> False | Some c \<Rightarrow> c < ts)")
    case True
    with rest have "s' = (Some ts, snd s)" by simp
    moreover have "\<not> kept cutoff row" using True cls t by (auto simp: kept_def split: option.splits)
    ultimately show ?thesis using t ts(2) by (auto split: option.splits)
  next
    case False
    with rest obtain d where d: "field_decimal row ''interval_duration_s'' = Inr d"
      "dec_eq d (Dec False 2 (- 1)) = Inr True" "s' = (Some ts, snd s @ [row])"
      by (auto simp: field_decimal_def)
    have "kept cutoff row"
      using False cls t d(1) dec_eq_fifth [OF d(2)] by (auto simp: kept_def split: option.splits)
    then show ?thesis using t ts(2) d(3) by (auto split: option.splits)
  qed
qed

interpretation select_scan: sorted_scan "select_step cutoff" fst ts_of "(<)" for cutoff
proof unfold_locales
  fix s x s' k
  assume "select_step cutoff s x = Inr s'"
  from select_step_Inr [OF this] show "fst s = Some k \<Longrightarrow> k < ts_of x" "fst s' = Some (ts_of x)"
    by simp_all
next
  show "transp ((<) :: int \<Rightarrow> int \<Rightarrow> bool)" by simp
qed

text \<open>The kept rows, in the order of the file.\<close>

lemma select_fold:
  "foldE (select_step cutoff) s rows = Inr s' \<Longrightarrow> snd s' = snd s @ filter (kept cutoff) rows"
proof (induction rows arbitrary: s)
  case Nil
  then show ?case by simp
next
  case (Cons row rows)
  then obtain t where t: "select_step cutoff s row = Inr t" "foldE (select_step cutoff) t rows = Inr s'"
    by auto
  from Cons.IH [OF t(2)] select_step_Inr [OF t(1)] show ?case by simp
qed

lemma load_rows_Inr:
  assumes "load_rows ex run cutoff ls = Inr (all_rows, cs)"
  shows "cs = filter (kept cutoff) all_rows" and "sorted_wrt (<) (map ts_of all_rows)"
proof -
  from assms obtain p where f: "foldE (select_step cutoff) (None, []) all_rows = Inr (p, cs)"
    by (auto simp: load_rows_def)
  from select_fold [OF f] show "cs = filter (kept cutoff) all_rows" by simp
  from select_scan.scan_sorted [OF f] show "sorted_wrt (<) (map ts_of all_rows)" .
qed

lemma sorted_wrt_map_filter: "sorted_wrt R (map f xs) \<Longrightarrow> sorted_wrt R (map f (filter P xs))"
  by (induction xs) auto

text \<open>Adjacent rows of the selection meet exactly.\<close>

definition meets :: "json \<Rightarrow> json \<Rightarrow> bool" where
  "meets l r \<longleftrightarrow> (\<exists>a b. field_decimal l ''interval_end_s'' = Inr a \<and>
     field_decimal r ''interval_start_s'' = Inr b \<and> dec_eq a b = Inr True)"

lemma joined_Inr: "joined l r why = Inr u \<longleftrightarrow> meets l r"
  by (auto simp: joined_def meets_def)

lemma successively_zip: "(\<forall>(a, b) \<in> set (zip xs (tl xs)). R a b) \<longleftrightarrow> successively R xs"
  by (induction xs rule: induct_list012) auto

lemma validate_window_Inr:
  "validate_window w = Inr u \<Longrightarrow> length w = 25 \<and> successively meets w"
proof -
  assume a: "validate_window w = Inr u"
  then have "length w = 25"
    "\<forall>(l, r) \<in> set (zip w (tl w)). joined l r
       ''selected stationarity window contains a logical timing gap'' = Inr ()"
    by (auto simp: validate_window_def)
  then have "\<forall>(l, r) \<in> set (zip w (tl w)). meets l r" by (auto simp: joined_Inr)
  with \<open>length w = 25\<close> show ?thesis by (simp only: successively_zip)
qed

lemma select_windows_Inr:
  assumes "select_windows cs = Inr (a, b)"
  shows "50 \<le> length cs \<and> a @ b = drop (length cs - 50) cs \<and> length a = 25 \<and> length b = 25 \<and>
    successively meets (a @ b)"
proof -
  from assms have n: "50 \<le> length cs" and ab: "a = take 25 (drop (length cs - 50) cs)"
    "b = drop 25 (drop (length cs - 50) cs)" and
    v: "validate_window a = Inr ()" "validate_window b = Inr ()" and
    j: "meets (last a) (hd b)"
    by (auto simp: select_windows_def Let_def joined_Inr)
  from validate_window_Inr [OF v(1)] validate_window_Inr [OF v(2)] j
  have "successively meets (a @ b)" "length a = 25" "length b = 25"
    by (auto simp: successively_append_iff)
  with n ab show ?thesis by (simp only: append_take_drop_id)
qed

subsection \<open>The evaluator judges the selected rows\<close>

lemma load_intervals_rows:
  assumes "load_intervals ex run rs = Inr vs"
  shows "rs = map Interval vs"
proof -
  from assms obtain t where f: "foldE (check_interval ex run) ({}, None) rs = Inr t"
    and vs: "vs = rows_of rs" by (auto simp: load_intervals_def)
  have "foldE (check_interval ex run) s rs = Inr t \<Longrightarrow> rs = map Interval (rows_of rs)" for s
  proof (induction rs arbitrary: s)
    case Nil
    then show ?case by (simp add: rows_of_def)
  next
    case (Cons r rs)
    then obtain u where "check_interval ex run s r = Inr u" "foldE (check_interval ex run) u rs = Inr t"
      by auto
    with Cons.IH check_interval_Inr show ?case by (fastforce simp: rows_of_def)
  qed
  with f vs show ?thesis by simp
qed

lemma official_row_Interval:
  "official_row ok row = Interval v \<longleftrightarrow> ok row \<and> interval_of row = Some v"
  by (auto simp: official_row_def split: option.splits)

lemma interval_of_fields:
  assumes "interval_of row = Some v"
  shows "getE row ''interval_class'' = Inr (JStr (iv_class v)) \<and>
    getE row ''record_id'' = Inr (JStr (iv_record v)) \<and>
    getE row ''interval_duration_s'' = Inr (iv_duration v) \<and>
    getE row ''interval_start_s'' = Inr (iv_start v) \<and> getE row ''interval_end_s'' = Inr (iv_end v)"
proof -
  from assms obtain ob where ob: "row = JObj ob"
    by (cases row) (simp_all add: interval_of_def)
  with assms show ?thesis
    by (auto simp: interval_of_def getE_def split: json.splits)
qed

lemma idx_getE: "idx row k = Inr x \<Longrightarrow> getE row k = Inr y \<Longrightarrow> y = x"
  by (auto simp: idx_JObj_iff getE_iff obj_get_def)

lemma field_decimal_getE:
  "field_decimal row k = Inr d \<Longrightarrow> getE row k = Inr y \<Longrightarrow> to_decimal y = Inr d"
  using idx_getE by (fastforce simp: field_decimal_def)

lemma dec_value_finite:
  "decimal_value v = Inr q \<longleftrightarrow> (\<exists>d. to_decimal v = Inr d \<and> dec_value d = Some q)"
  by (auto simp: decimal_value_def split: option.splits)

lemma kept_eligible:
  assumes "kept cutoff row" and "interval_of row = Some v"
  shows "eligible InitialPreStep v = Inr True"
proof -
  from assms(1) obtain d where d: "getE row ''interval_class'' = Inr (JStr ''complete'')"
    "field_decimal row ''interval_duration_s'' = Inr d" "dec_value d = Some (1 / 5)"
    by (auto simp: kept_def)
  from interval_of_fields [OF assms(2)] d(1,2) have "iv_class v = ''complete''"
    "to_decimal (iv_duration v) = Inr d" using field_decimal_getE by auto
  with d(3) show ?thesis
    by (simp add: eligible_def is_complete_def decimal_value_def PRIMARY_TS_S_def
      CONTIGUITY_TOLERANCE_S_def)
qed

lemma meets_contiguous:
  assumes "meets l r" and "interval_of l = Some a" and "interval_of r = Some b"
    and "contiguous a b = Inr c"
  shows "c"
proof -
  from assms(1) obtain x y where m: "field_decimal l ''interval_end_s'' = Inr x"
    "field_decimal r ''interval_start_s'' = Inr y" "dec_eq x y = Inr True" by (auto simp: meets_def)
  from interval_of_fields [OF assms(2)] interval_of_fields [OF assms(3)] m(1,2) have
    "to_decimal (iv_end a) = Inr x" "to_decimal (iv_start b) = Inr y"
    using field_decimal_getE by blast+
  with assms(4) obtain p q where v: "dec_value x = Some p" "dec_value y = Some q"
    "c \<longleftrightarrow> \<bar>R40 (q - p)\<bar> \<le> CONTIGUITY_TOLERANCE_S"
    by (auto simp: contiguous_def dec_value_finite)
  from dec_eq_value [OF m(3) v(2)] v(1) have "p = q" by simp
  with v(3) show ?thesis by (simp add: CONTIGUITY_TOLERANCE_S_def)
qed

text \<open>When nothing breaks the chain the latest run is the whole file.\<close>

lemma latest_run_whole:
  assumes "latest_eligible_run ph vs = Inr run" and "\<forall>v \<in> set vs. eligible ph v = Inr True"
    and "successively (\<lambda>a b. contiguous a b \<noteq> Inr False) vs"
  shows "run = vs"
proof -
  from latest_run_found [OF assms(1)] obtain pre post where l: "latest_run ph vs pre run post" by blast
  then have vs: "vs = pre @ run @ post" by (simp add: latest_run_def)
  have post: "post = []" using l assms(2) vs by (cases post) (auto simp: latest_run_def)
  have "pre = []"
  proof (rule ccontr)
    assume n: "pre \<noteq> []"
    with l have r: "run \<noteq> []" "run_starts_after ph pre run" by (auto simp: latest_run_def split: if_splits)
    have "eligible ph (last pre) = Inr True" using assms(2) vs n by simp
    with r(2) n have "contiguous (last pre) (hd run) = Inr False" by (simp add: run_starts_after_def)
    moreover have "contiguous (last pre) (hd run) \<noteq> Inr False"
      using assms(3) n r(1) by (simp add: vs post successively_append_iff)
    ultimately show False by blast
  qed
  with vs post show ?thesis by simp
qed

lemma window_metrics_ids:
  "window_metrics w = Inr m \<Longrightarrow> record_id_first m = iv_record (hd w) \<and> record_id_last m = iv_record (last w)"
  by (auto simp: window_metrics_def Let_def split: if_splits)

lemma run_evaluator_Inr:
  assumes "run_evaluator ok fault ex run rows = Inr rep"
  obtains vs where "map interval_of rows = map Some vs" "evaluate InitialPreStep vs = Inr rep"
proof -
  from assms obtain vs where l: "load_intervals ex run (map (official_row ok) rows) = Inr vs"
    and e: "evaluate InitialPreStep vs = Inr rep"
    by (auto simp: run_evaluator_def in_process_def split: sum.splits)
  from load_intervals_rows [OF l] have m: "map (official_row ok) rows = map Interval vs" .
  then have len: "length rows = length vs" by (metis length_map)
  have "map interval_of rows = map Some vs"
  proof (rule nth_equalityI)
    show "length (map interval_of rows) = length (map Some vs)" using len by simp
    fix i assume "i < length (map interval_of rows)"
    with len have i: "i < length rows" "i < length vs" by simp_all
    have "official_row ok (rows ! i) = Interval (vs ! i)"
      using arg_cong [OF m, of "\<lambda>xs. xs ! i"] i by simp
    then show "map interval_of rows ! i = map Some vs ! i" using i by (simp add: official_row_Interval)
  qed
  with e show thesis by (rule that [rotated])
qed

lemma evaluator_on_selection:
  assumes "run_evaluator ok fault ex run (rows1 @ rows2) = Inr rep"
    and "length rows1 = 25" and "length rows2 = 25"
    and "\<forall>r \<in> set (rows1 @ rows2). kept cutoff r" and "successively meets (rows1 @ rows2)"
  obtains vs1 vs2 m1 m2 d where "map interval_of rows1 = map Some vs1"
    "map interval_of rows2 = map Some vs2" "window_metrics vs1 = Inr m1" "window_metrics vs2 = Inr m2"
    "rep = window_report InitialPreStep (vs1 @ vs2) m1 m2 d"
    "phase_duration InitialPreStep (last vs2) = Inr d"
proof -
  from assms(1) obtain vs where vs: "map interval_of (rows1 @ rows2) = map Some vs"
    "evaluate InitialPreStep vs = Inr rep" by (rule run_evaluator_Inr)
  have len: "length vs = 50" using arg_cong [OF vs(1), of length] assms(2,3) by simp
  have nth: "interval_of ((rows1 @ rows2) ! i) = Some (vs ! i)" if "i < 50" for i
    using arg_cong [OF vs(1), of "\<lambda>xs. xs ! i"] that assms(2,3) len
    by (metis length_append length_map nth_map numeral_Bit0)
  have el: "\<forall>v \<in> set vs. eligible InitialPreStep v = Inr True"
  proof
    fix v assume "v \<in> set vs"
    then obtain i where i: "i < 50" "v = vs ! i" by (metis in_set_conv_nth len)
    have "(rows1 @ rows2) ! i \<in> set (rows1 @ rows2)" using i(1) assms(2,3) by (intro nth_mem) simp
    with kept_eligible [OF _ nth [OF i(1)]] assms(4) i(2) show "eligible InitialPreStep v = Inr True"
      by blast
  qed
  have ch: "successively (\<lambda>a b. contiguous a b \<noteq> Inr False) vs"
    unfolding successively_conv_nth
  proof (intro allI impI)
    fix i assume i: "Suc i < length vs"
    then have "meets ((rows1 @ rows2) ! i) ((rows1 @ rows2) ! Suc i)"
      using assms(2,3,5) len by (simp only: successively_conv_nth) simp
    with meets_contiguous nth i len show "contiguous (vs ! i) (vs ! Suc i) \<noteq> Inr False"
      by (metis Suc_lessD)
  qed
  from vs(2) show thesis
  proof (cases rule: evaluate_cases)
    case (1 run)
    from latest_run_whole [OF 1(1) el ch] len 1(2) show ?thesis by (simp add: WINDOW_SAMPLES_def)
  next
    case (2 run n m1 m2 d)
    from latest_run_whole [OF 2(1) el ch] have run: "run = vs" .
    then have n: "n = 2" using 2(2) len by (simp add: WINDOW_SAMPLES_def)
    have sl: "window_slice vs 1 = take 25 vs" "window_slice vs 2 = drop 25 vs"
      using len by (simp_all add: window_slice_def WINDOW_SAMPLES_def)
    have "map interval_of rows1 = map Some (take 25 vs)" "map interval_of rows2 = map Some (drop 25 vs)"
    proof -
      have "map interval_of rows1 @ map interval_of rows2 = map Some (take 25 vs) @ map Some (drop 25 vs)"
        using vs(1) by (simp flip: map_append)
      then show "map interval_of rows1 = map Some (take 25 vs)"
        "map interval_of rows2 = map Some (drop 25 vs)"
        using assms(2) len by (simp_all add: append_eq_append_conv)
    qed
    moreover have "(2::nat) - 1 = 1" by simp
    with 2(4) have "window_metrics (take 25 vs) = Inr m1" by (simp only: run n sl)
    moreover have "window_metrics (drop 25 vs) = Inr m2" using 2(5) by (simp only: run n sl)
    moreover have "rep = window_report InitialPreStep (take 25 vs @ drop 25 vs) m1 m2 d"
      using 2(7) by (simp add: run)
    moreover have "phase_duration InitialPreStep (last (drop 25 vs)) = Inr d"
      using 2(6) by (simp only: run n sl)
    ultimately show ?thesis by (rule that)
  qed
qed

text \<open>What a run of the gate that writes a document rests on.\<close>

lemma freshness_main_Inr:
  assumes "freshness_main env ex run = Inr (rc, doc)"
  obtains pol all_rows cs rows1 rows2 rep bound latest limit d doc1 doc2 decision f where
    "load_policy (policy_file env) = Inr pol"
    "load_rows ex run (cutoff_utc_ns env) (line_rows env) = Inr (all_rows, cs)"
    "select_windows cs = Inr (rows1, rows2)"
    "run_evaluator (row_ok env) (evaluator_fault env) ex run (rows1 @ rows2) = Inr rep"
    "binding_matches rep rows1 rows2 = Inr bound"
    "bindE (idx (last rows2) ''timestamp_utc_ns'') py_int = Inr latest"
    "policy_decimal pol ''FINAL_GATE_MAX_AGE_AT_DOCKER_START_MS'' = Inr d"
    "policy_age_ns d = Inr limit"
    "decision = (case decision_argument env of None \<Rightarrow> clock_now env | Some d \<Rightarrow> d)"
    "f = \<lparr>canonical_count = length all_rows, complete_count = length cs,
        bound_ok = bound, stationary_ok = stationarity_holds bound rep, decision_ns = decision,
        latest_ns = latest, max_age = d,
        fresh_ok = (0 \<le> decision - latest \<and> decision - latest \<le> limit)\<rparr>"
    "rc = (if admission f then 0 else 10)" "doc = freshness_document env ex run f doc1 doc2 rep"
  using assms unfolding freshness_main_def Let_def
  by (simp only: bindE_Inr_iff case_prod_beta split_paired_Ex prod.sel prod.inject sum.inject) blast

subsection \<open>Properties\<close>

lemma expected_binding_typed:
  assumes "expected_binding w = Inr (a, b)" and "map interval_of w = map Some vs" and "w \<noteq> []"
  shows "a = JStr (iv_record (hd vs)) \<and> b = JStr (iv_record (last vs))"
proof -
  have "vs \<noteq> []" using assms(2,3) by auto
  then have "interval_of (hd w) = Some (hd vs)" "interval_of (last w) = Some (last vs)"
    using assms(2,3) by (metis hd_map last_map)+
  then have g: "getE (hd w) ''record_id'' = Inr (JStr (iv_record (hd vs)))"
    "getE (last w) ''record_id'' = Inr (JStr (iv_record (last vs)))"
    using interval_of_fields by blast+
  from assms(1) have "idx (hd w) ''record_id'' = Inr a" "idx (last w) ''record_id'' = Inr b"
    by (auto simp: expected_binding_def)
  from idx_getE [OF this(1) g(1)] idx_getE [OF this(2) g(2)] show ?thesis by simp
qed

lemma selection_kept:
  assumes "load_rows ex run cutoff ls = Inr (all_rows, cs)" and "select_windows cs = Inr (a, b)"
  shows "\<forall>r \<in> set (a @ b). kept cutoff r"
proof -
  have "set (a @ b) \<subseteq> set cs" using select_windows_Inr [OF assms(2)] set_drop_subset by metis
  with load_rows_Inr(1) [OF assms(1)] show ?thesis by auto
qed

text \<open>The two windows of the evaluator are the selected rows.\<close>

lemma freshness_bound:
  assumes "freshness_main env ex run = Inr (rc, doc)"
  shows "obj_get doc ''stationarity_window_binding_gate'' = JStr ''PASS'' \<and>
    obj_get doc ''selected_complete_count'' = JInt 50 \<and> rc \<in> {0, 10}"
  using assms
proof (rule freshness_main_Inr)
  fix pol all_rows cs rows1 rows2 rep bound latest limit d doc1 doc2 decision f
  assume l: "load_rows ex run (cutoff_utc_ns env) (line_rows env) = Inr (all_rows, cs)"
    and w: "select_windows cs = Inr (rows1, rows2)"
    and e: "run_evaluator (row_ok env) (evaluator_fault env) ex run (rows1 @ rows2) = Inr rep"
    and b: "binding_matches rep rows1 rows2 = Inr bound"
    and f: "f = \<lparr>canonical_count = length all_rows, complete_count = length cs,
        bound_ok = bound, stationary_ok = stationarity_holds bound rep, decision_ns = decision,
        latest_ns = latest, max_age = d,
        fresh_ok = (0 \<le> decision - latest \<and> decision - latest \<le> limit)\<rparr>"
    and rc: "rc = (if admission f then 0 else 10)"
    and doc: "doc = freshness_document env ex run f doc1 doc2 rep"
  from select_windows_Inr [OF w] have len: "length rows1 = 25" "length rows2 = 25"
    "successively meets (rows1 @ rows2)" by blast+
  from evaluator_on_selection [OF e len(1,2) selection_kept [OF l w] len(3)]
  obtain vs1 vs2 m1 m2 dp where vs: "map interval_of rows1 = map Some vs1"
    "map interval_of rows2 = map Some vs2" "window_metrics vs1 = Inr m1" "window_metrics vs2 = Inr m2"
    "rep = window_report InitialPreStep (vs1 @ vs2) m1 m2 dp" by metis
  have ne: "rows1 \<noteq> []" "rows2 \<noteq> []" using len(1,2) by auto
  from b obtain a a' c c' where x: "expected_binding rows1 = Inr (a, a')"
    "expected_binding rows2 = Inr (c, c')" and
    bd: "bound \<longleftrightarrow> py_eq (JStr (record_id_first m1)) a \<and> py_eq (JStr (record_id_last m1)) a' \<and>
      py_eq (JStr (record_id_first m2)) c \<and> py_eq (JStr (record_id_last m2)) c'"
    by (auto simp: binding_matches_def vs(5) binding_of_def)
  from expected_binding_typed [OF x(1) vs(1) ne(1)] expected_binding_typed [OF x(2) vs(2) ne(2)]
    window_metrics_ids [OF vs(3)] window_metrics_ids [OF vs(4)] bd
  have "bound" by simp
  with f rc doc show ?thesis by (auto simp: freshness_document_def gate_def)
qed



subsection \<open>A sample admission\<close>

definition sample_policy :: string where
  "sample_policy = ''PRIMARY_OUTPUT_TS_MS=200'' @ [CHR 0x0A] @ ''STATIONARITY_WINDOW_S=5'' @ [CHR 0x0A] @
    ''STATIONARITY_SAMPLES_PER_WINDOW=25'' @ [CHR 0x0A] @ ''STATIONARITY_WINDOW_COUNT=2'' @ [CHR 0x0A] @
    ''FINAL_GATE_SELECTION=LATEST_50_COMPLETE_CONTIGUOUS_SAMPLES'' @ [CHR 0x0A] @
    ''FINAL_GATE_MAX_AGE_AT_DOCKER_START_MS=800''"

definition sample_values :: policy where
  "sample_values = [(''PRIMARY_OUTPUT_TS_MS'', ''200''), (''STATIONARITY_WINDOW_S'', ''5''),
    (''STATIONARITY_SAMPLES_PER_WINDOW'', ''25''), (''STATIONARITY_WINDOW_COUNT'', ''2''),
    (''FINAL_GATE_SELECTION'', ''LATEST_50_COMPLETE_CONTIGUOUS_SAMPLES''),
    (''FINAL_GATE_MAX_AGE_AT_DOCKER_START_MS'', ''800'')]"

lemma sample_policy_loaded: "load_policy sample_policy = Inr sample_values"
  by code_simp

text \<open>The canonical record of the evaluator's sample phase, as JSON.\<close>

definition phase_json :: "nat \<Rightarrow> json" where
  "phase_json k = JObj [(''experiment_id'', JStr sample_ex), (''run_id'', JStr sample_run),
     (''record_id'', JStr (iv_record (phase_row k))), (''timestamp_utc_ns'', JInt (sample_wall k)),
     (''rx_wall_ns'', JInt (sample_wall k)), (''rx_mono_ns'', JInt (1000 + int (Suc k))),
     (''interval_start_s'', JFloat (sample_end k - 1 / 5)), (''interval_end_s'', JFloat (sample_end k)),
     (''interval_duration_s'', JFloat (1 / 5)), (''throughput_kbit_s'', JInt 18000),
     (''loss_pct'', JNull), (''jitter_ms'', JNull), (''bytes_transferred'', JNull),
     (''interval_class'', JStr ''complete'')]"

definition phase_lines :: "line_in list" where
  "phase_lines = map (\<lambda>k. (Suc k, Inr (phase_json k))) [0..<50]"

definition sample_fresh_env :: fresh_env where
  "sample_fresh_env = \<lparr>missing_input = None, existing_output = None, policy_file = sample_policy,
     line_rows = phase_lines, row_ok = (\<lambda>_. True), evaluator_fault = None, cutoff_utc_ns = None,
     decision_argument = None, clock_now = sample_wall 49 + 500000000, report_json = (\<lambda>_. JNull)\<rparr>"

lemma phase_json_fields:
  "idx (phase_json k) ''timestamp_utc_ns'' = Inr (JInt (sample_wall k))"
  "idx (phase_json k) ''record_id'' = Inr (JStr (iv_record (phase_row k)))"
  "idx (phase_json k) ''interval_start_s'' = Inr (JFloat (sample_end k - 1 / 5))"
  "idx (phase_json k) ''interval_end_s'' = Inr (JFloat (sample_end k))"
  "idx (phase_json k) ''interval_duration_s'' = Inr (JFloat (1 / 5))"
  "getE (phase_json k) ''experiment_id'' = Inr (JStr sample_ex)"
  "getE (phase_json k) ''run_id'' = Inr (JStr sample_run)"
  "getE (phase_json k) ''interval_class'' = Inr (JStr ''complete'')"
  by (simp_all add: phase_json_def idx_def obj_idx_def getE_def)

lemma interval_of_phase: "interval_of (phase_json k) = Some (phase_row k)"
  by (simp add: interval_of_def phase_json_def phase_row_def sample_canonical_def)

lemma dec_eq_values:
  "dec_value a = Some x \<Longrightarrow> dec_value b = Some y \<Longrightarrow> dec_eq a b = Inr (x = y)"
  by (cases a; cases b) (simp_all add: dec_eq_def dec_value_def)

lemma fifth_literal: "dec_value (Dec False 2 (- 1)) = Some (1 / 5)"
  by (simp add: dec_value_def pow10_def)

lemma phase_decimal:
  "field_decimal (phase_json k) ''interval_end_s'' = Inr (float_decimal (sample_end k))"
  "field_decimal (phase_json k) ''interval_start_s'' = Inr (float_decimal (sample_end k - 1 / 5))"
  "field_decimal (phase_json k) ''interval_duration_s'' = Inr (float_decimal (1 / 5))"
  by (simp_all add: field_decimal_def phase_json_fields to_decimal_def decimal_of_def)

lemma phase_joined: "joined (phase_json k) (phase_json (Suc k)) why = Inr ()"
proof -
  have "sample_end (Suc k) - 1 / 5 = sample_end k" by (simp add: sample_end_def add_divide_distrib)
  then show ?thesis
    by (simp add: joined_def phase_decimal dec_eq_values [OF tenths_value tenths_value]
      sample_end_Ints)
qed

lemma phase_select:
  "foldE (select_step None) (None, []) (map phase_json [0..<n]) =
     Inr (if n = 0 then None else Some (sample_wall (n - 1)), map phase_json [0..<n])"
proof (induction n)
  case 0
  then show ?case by simp
next
  case (Suc n)
  have "select_step None (if n = 0 then None else Some (sample_wall (n - 1)), map phase_json [0..<n])
      (phase_json n) = Inr (Some (sample_wall n), map phase_json [0..<n] @ [phase_json n])"
    by (cases n) (simp_all add: select_step_def phase_json_fields sample_wall_def to_decimal_def
      decimal_of_def dec_eq_values [OF fifth_value fifth_literal])
  with Suc show ?case by (simp add: foldE_append)
qed

lemma phase_loaded:
  "load_rows sample_ex sample_run None phase_lines = Inr (map phase_json [0..<50], map phase_json [0..<50])"
proof -
  have "mapE (row_of_line sample_ex sample_run) phase_lines = Inr (map (\<lambda>(n, r). projr r) phase_lines)"
    by (rule mapE_total) (auto simp: phase_lines_def row_of_line_def phase_json_fields)
  moreover have "map (\<lambda>(n, r). projr r) phase_lines = map phase_json [0..<50]"
    by (simp add: phase_lines_def)
  ultimately show ?thesis by (simp add: load_rows_def phase_select del: upt_Suc)
qed

lemma phase_window_valid: "validate_window (map phase_json [a..<a + 25]) = Inr ()"
proof -
  have "zip [a..<a + 25] (tl [a..<a + 25]) = map (\<lambda>k. (k, Suc k)) [a..<a + 24]"
    by (rule nth_equalityI) (simp_all add: nth_tl)
  then have z: "zip (map phase_json [a..<a + 25]) (tl (map phase_json [a..<a + 25])) =
      map (\<lambda>k. (phase_json k, phase_json (Suc k))) [a..<a + 24]"
    by (simp add: map_tl [symmetric] zip_map_map)
  have hl: "hd (map phase_json [a..<a + 25]) = phase_json a"
    "last (map phase_json [a..<a + 25]) = phase_json (a + 24)"
    by (simp_all add: hd_map last_map add.commute)
  have "dec_round 28 (of_int 5 * pow10 0) = of_int 5 * pow10 0" by (rule ctx28.rnd_exact) simp
  then have r: "dec_round 28 5 = 5" by (simp add: pow10_def)
  have "sample_end (a + 24) - (sample_end a - 1 / 5) = 5" by (simp add: sample_end_def field_simps)
  then have "minus_is_five (float_decimal (sample_end (a + 24))) (float_decimal (sample_end a - 1 / 5)) = Inr True"
    using tenths_value [OF sample_end_Ints(1), of "a + 24"] tenths_value [OF sample_end_Ints(2), of a] r
    by (cases "float_decimal (sample_end (a + 24))"; cases "float_decimal (sample_end a - 1 / 5)")
      (auto simp: minus_is_five_def dec_value_def)
  then show ?thesis
    by (simp add: validate_window_def z hl phase_decimal phase_joined comp_def del: upt_Suc)
qed

lemma phase_selected:
  "select_windows (map phase_json [0..<50]) =
     Inr (map phase_json [0..<0 + 25], map phase_json [25..<25 + 25])"
proof -
  have w: "take 25 (map phase_json [0..<50]) = map phase_json [0..<0 + 25]"
    "drop 25 (map phase_json [0..<50]) = map phase_json [25..<25 + 25]"
    by (simp_all only: take_map drop_map) simp_all
  have hl: "last (map phase_json [0..<0 + 25]) = phase_json 24"
    "hd (map phase_json [25..<25 + 25]) = phase_json (Suc 24)"
    by (simp_all add: hd_map last_map)
  have n: "(50 :: nat) \<le> 50" "length (map phase_json [0..<50]) = 50" "50 - 50 = (0 :: nat)" by simp_all
  show ?thesis
    unfolding select_windows_def Let_def n drop_0 w phase_window_valid hl phase_joined
    by simp
qed

lemma phase_rows_nonempty: "phase_rows \<noteq> []"
  by (simp add: phase_rows_def)

lemma phase_run_evaluator:
  assumes "evaluate InitialPreStep phase_rows = Inr rep"
  shows "run_evaluator (\<lambda>_. True) None sample_ex sample_run
    (map phase_json [0..<0 + 25] @ map phase_json [25..<25 + 25]) = Inr rep"
proof -
  have eq: "[0..<0 + 25] @ [25..<25 + 25] = [0..<50 :: nat]"
    using upt_add_eq_append [of 0 25 25] by simp
  have m: "map (official_row (\<lambda>_. True)) (map phase_json [0..<0 + 25] @ map phase_json [25..<25 + 25]) =
      map Interval phase_rows"
    by (simp only: map_append [symmetric] eq phase_rows_def)
      (simp add: official_row_def interval_of_phase comp_def del: upt_Suc)
  have d: "distinct (map iv_record phase_rows)"
    by (simp add: phase_rows_def phase_row_def sample_canonical_def comp_def distinct_map inj_on_def
      del: upt_Suc)
  have "loadable sample_ex sample_run phase_rows"
    by (rule canonical_loadable [OF phase_file])
  from load_ordered [OF this, of "({}, None)"] d have
    "load_intervals sample_ex sample_run (map Interval phase_rows) = Inr phase_rows"
    using phase_rows_nonempty by (auto simp: load_intervals_def)
  then show ?thesis
    by (simp only: run_evaluator_def m in_process_def assms option.case bindE_simps sum.case)
qed

lemma phase_bound:
  assumes "window_metrics (map phase_row [0..<0 + 25]) = Inr m1"
    and "window_metrics (map phase_row [25..<25 + 25]) = Inr m2"
  shows "binding_matches (window_report ph run m1 m2 d) (map phase_json [0..<0 + 25])
    (map phase_json [25..<25 + 25]) = Inr True"
proof -
  have "hd (map f [0..<0 + 25]) = f 0 \<and> last (map f [0..<0 + 25]) = f 24 \<and>
      hd (map f [25..<25 + 25]) = f 25 \<and> last (map f [25..<25 + 25]) = f 49" for f :: "nat \<Rightarrow> 'a"
    by (simp add: hd_map last_map)
  moreover have "hd (map f [0..<0 + 25]) = f 0 \<and> last (map f [0..<0 + 25]) = f 24 \<and>
      hd (map f [25..<25 + 25]) = f 25 \<and> last (map f [25..<25 + 25]) = f 49" for f :: "nat \<Rightarrow> json"
    by (simp add: hd_map last_map)
  moreover have "hd (map f [0..<0 + 25]) = f 0 \<and> last (map f [0..<0 + 25]) = f 24 \<and>
      hd (map f [25..<25 + 25]) = f 25 \<and> last (map f [25..<25 + 25]) = f 49"
      for f :: "nat \<Rightarrow> interval_row"
    by (simp add: hd_map last_map)
  ultimately show ?thesis
    using window_metrics_ids [OF assms(1)] window_metrics_ids [OF assms(2)]
    by (simp only: binding_matches_def expected_binding_def phase_json_fields bindE_simps
      window_report_fields binding_of_def option.case prod.case) simp
qed

lemma sample_limit:
  "policy_decimal sample_values ''FINAL_GATE_MAX_AGE_AT_DOCKER_START_MS'' = Inr (Dec False 800 0)"
  "policy_age_ns (Dec False 800 0) = Inr 800000000"
proof -
  show "policy_decimal sample_values ''FINAL_GATE_MAX_AGE_AT_DOCKER_START_MS'' = Inr (Dec False 800 0)"
    by code_simp
  have "R40 (of_int 8 * pow10 8) = of_int 8 * pow10 8" by (rule R40_exact) simp
  then have "R40 800000000 = 800000000" by (simp add: pow10_def)
  then show "policy_age_ns (Dec False 800 0) = Inr 800000000"
    by (simp add: policy_age_ns_def dec_value_def pow10_def)
qed

lemma sample_admitted:
  "\<exists>f doc1 doc2 rep. freshness_main sample_fresh_env sample_ex sample_run =
     Inr (0, freshness_document sample_fresh_env sample_ex sample_run f doc1 doc2 rep) \<and>
   admission f \<and> latest_ns f = sample_wall 49 \<and> decision_ns f = sample_wall 49 + 500000000 \<and>
   max_age f = Dec False 800 0 \<and> bound_ok f"
proof -
  from phase_report [of InitialPreStep] obtain m1 m2 where
    ev: "evaluate InitialPreStep phase_rows = Inr (window_report InitialPreStep phase_rows m1 m2 True)"
    and m: "window_metrics (map phase_row [0..<0 + 25]) = Inr m1"
      "window_metrics (map phase_row [25..<25 + 25]) = Inr m2"
    and z: "cv_pct m1 = 0" "cv_pct m2 = 0" "mean_shift m1 m2 = 0" by (auto simp: sample_phase_def)
  let ?rep = "window_report InitialPreStep phase_rows m1 m2 True"
  have st: "stationarity_holds True ?rep"
    by (simp add: stationarity_holds_def z CV_MAX_PCT_def MEAN_SHIFT_MAX_PCT_def window_report_def
      Let_def gate_def)
  have l: "last (map phase_json [25..<25 + 25]) = phase_json 49"
    "hd (map phase_json [25..<25 + 25]) = phase_json 25"
    "last (map phase_json [0..<0 + 25]) = phase_json 24"
    "hd (map phase_json [0..<0 + 25]) = phase_json 0"
    by (simp_all add: hd_map last_map)
  have fields: "freshness_files sample_fresh_env = Inr ()" "policy_file sample_fresh_env = sample_policy"
    "cutoff_utc_ns sample_fresh_env = None" "line_rows sample_fresh_env = phase_lines"
    "row_ok sample_fresh_env = (\<lambda>_. True)" "evaluator_fault sample_fresh_env = None"
    "decision_argument sample_fresh_env = None" "clock_now sample_fresh_env = sample_wall 49 + 500000000"
    by (simp_all add: sample_fresh_env_def freshness_files_def)
  define f where "f = \<lparr>canonical_count = length (map phase_json [0..<50]),
    complete_count = length (map phase_json [0..<50]), bound_ok = True,
    stationary_ok = stationarity_holds True ?rep, decision_ns = sample_wall 49 + 500000000,
    latest_ns = sample_wall 49, max_age = Dec False 800 0,
    fresh_ok = (0 \<le> sample_wall 49 + 500000000 - sample_wall 49 \<and>
      sample_wall 49 + 500000000 - sample_wall 49 \<le> (800000000 :: int))\<rparr>"
  have ad: "admission f" by (simp add: f_def admission_def st)
  have flds: "latest_ns f = sample_wall 49" "decision_ns f = sample_wall 49 + 500000000"
    "max_age f = Dec False 800 0" "bound_ok f" by (simp_all add: f_def)
  have "\<exists>doc1 doc2. freshness_main sample_fresh_env sample_ex sample_run =
      Inr (if admission f then 0 else 10, freshness_document sample_fresh_env sample_ex sample_run f doc1 doc2 ?rep)"
    unfolding freshness_main_def fields sample_policy_loaded phase_loaded phase_selected Let_def
      bindE_simps prod.case phase_run_evaluator [OF ev] phase_bound [OF m] l phase_json_fields
      window_document_def py_int_JInt sample_limit option.case f_def
    by blast
  then obtain doc1 doc2 where "freshness_main sample_fresh_env sample_ex sample_run =
      Inr (0, freshness_document sample_fresh_env sample_ex sample_run f doc1 doc2 ?rep)"
    by (simp only: ad if_True) blast
  with ad flds show ?thesis by blast
qed

lemma sample_admission:
  obtains doc where "freshness_main sample_fresh_env sample_ex sample_run = Inr (0, doc)"
  using sample_admitted by blast



end
