(* ===== verification/Ratio_Binding.thy ===== *)
theory Ratio_Binding
  imports Actuator_Timeline Critical_Section
begin

section \<open>Ratio bindings: the writer and the local FIFO reader\<close>

text \<open>
  \<^verbatim>\<open>scripts/experiment-harness/prompt12-pretrigger-ratio-binding-writer.py\<close> leaves the ratio of
  the next transition in a binding file, and
  \<^verbatim>\<open>scripts/experiment-harness/prompt12-production-local-fifo-reader.py\<close>, for every trigger line
  it reads from the FIFO, validates the binding of the next transition, consumes it (a hard link
  to \<open>T<i>.binding.json.consumed.json\<close>, then the removal of the binding) and runs the actuator
  once.  Both are processes over one file store: a step is one call that changes the store or
  starts the actuator.  What the machine answers (clock, failing calls, the lines of the FIFO,
  how the actuator ends) is part of the process, so a lone run is a function and several runs
  interleave.
\<close>

named_theorems binding_simps \<open>one step of the writer or of the reader\<close>

subsection \<open>Files\<close>

text \<open>A regular file is known by what \<open>json.loads\<close> makes of its bytes.\<close>

datatype node = SymLink | Special | Regular loaded

type_synonym files = "path \<rightharpoonup> node"

definition path_text :: "path \<Rightarrow> string" where
  "path_text p = root p @ join_with (CHR ''/'') (parts p)"

definition BINDING_SCHEMA :: string where
  "BINDING_SCHEMA = ''sci_oran_prompt12_v2_pretrigger_ratio_binding_v1''"

definition ALLOWED_RATIOS :: "int list" where
  "ALLOWED_RATIOS = [25, 50, 75, 100]"

text \<open>\<open>IDENTITY_PATTERN.fullmatch\<close>, the same in both scripts.\<close>

definition identity_ok :: "string \<Rightarrow> bool" where
  "identity_ok s \<longleftrightarrow> 1 \<le> length s \<and> length s \<le> 128 \<and> id_char (hd s) \<and>
     list_all (\<lambda>c. id_char c \<or> c \<in> set ''._:-'') (tl s)"

definition transition_name :: "int \<Rightarrow> string" where
  "transition_name i = ''T'' @ show_int i"

subsection \<open>The writer\<close>

definition nonempty_identity :: "string \<Rightarrow> string \<Rightarrow> unit result" where
  "nonempty_identity v name = require (identity_ok v) (name @ ''_INVALID'')"

definition validate_transition_label :: "string \<Rightarrow> int \<Rightarrow> unit result" where
  "validate_transition_label label index =
     seqE [require (1 \<le> index \<and> index \<le> 6) ''TRANSITION_INDEX_INVALID'',
           require (label = transition_name index)
             (''TRANSITION_LABEL_INDEX_MISMATCH:'' @ label @ '':'' @ show_int index)]"

definition validate_ratio :: "int \<Rightarrow> unit result" where
  "validate_ratio v = require (v \<in> set ALLOWED_RATIOS) (''REQUESTED_RATIO_INVALID:'' @ show_int v)"

text \<open>\<open>utc_now\<close>: \<open>isoformat\<close> of a moment without a fraction, its offset written as \<open>Z\<close>.\<close>

definition utc_text :: "stamp \<Rightarrow> string" where
  "utc_text t = zero_pad 4 (year t) @ ''-'' @ zero_pad 2 (month t) @ ''-'' @ zero_pad 2 (day t) @
     ''T'' @ zero_pad 2 (hour t) @ '':'' @ zero_pad 2 (minute t) @ '':'' @ zero_pad 2 (second t) @ ''Z''"

definition make_binding_id :: "string \<Rightarrow> string \<Rightarrow> string \<Rightarrow> int \<Rightarrow> string \<Rightarrow> string" where
  "make_binding_id ex run label index uuid =
     ex @ '':'' @ run @ '':'' @ label @ '':'' @ show_int index @ '':'' @ uuid"

record binding_args =
  ba_experiment :: string
  ba_run :: string
  ba_label :: string
  ba_index :: int
  ba_ratio :: int
  ba_output :: path

definition build_binding :: "binding_args \<Rightarrow> string \<Rightarrow> stamp \<Rightarrow> obj result" where
  "build_binding a uuid now =
     bindE (nonempty_identity (ba_experiment a) ''EXPERIMENT_ID'') (\<lambda>_.
     bindE (nonempty_identity (ba_run a) ''RUN_ID'') (\<lambda>_.
     bindE (validate_transition_label (ba_label a) (ba_index a)) (\<lambda>_.
     bindE (validate_ratio (ba_ratio a)) (\<lambda>_.
     Inr [(''schema'', JStr BINDING_SCHEMA),
       (''binding_id'', JStr (make_binding_id (ba_experiment a) (ba_run a) (ba_label a) (ba_index a) uuid)),
       (''experiment_id'', JStr (ba_experiment a)),
       (''run_id'', JStr (ba_run a)),
       (''transition_label'', JStr (ba_label a)),
       (''transition_index'', JInt (ba_index a)),
       (''requested_ratio_pct'', JInt (ba_ratio a)),
       (''created_utc'', JStr (utc_text now))]))))"

text \<open>
  \<open>json.dumps(binding, indent=2, sort_keys=True)\<close> and a line end.  The strings of a binding are
  identities, labels and timestamps, in which nothing is escaped.
\<close>

definition quoted :: "string \<Rightarrow> string" where
  "quoted s = CHR 0x22 # s @ [CHR 0x22]"

definition json_scalar :: "json \<Rightarrow> string" where
  "json_scalar v = (case v of JStr s \<Rightarrow> quoted s | JInt i \<Rightarrow> show_int i | _ \<Rightarrow> ''null'')"

definition member_line :: "string \<times> json \<Rightarrow> string" where
  "member_line kv = ''  '' @ quoted (fst kv) @ '': '' @ json_scalar (snd kv)"

fun member_lines :: "obj \<Rightarrow> string" where
  "member_lines [] = []"
| "member_lines [kv] = member_line kv @ [CHR 0x0A]"
| "member_lines (kv # kv' # kvs) = member_line kv @ '','' @ [CHR 0x0A] @ member_lines (kv' # kvs)"

definition encode_binding :: "obj \<Rightarrow> string" where
  "encode_binding ob = ''{'' @ [CHR 0x0A] @ member_lines (sort_key fst ob) @ ''}'' @ [CHR 0x0A]"

text \<open>
  The loop over \<open>os.write\<close>: \<open>left\<close> bytes are left, the list holds what the first calls return or
  raise; when it is used up, a call writes all that is left.
\<close>

fun write_loop :: "nat \<Rightarrow> (string + int) list \<Rightarrow> unit result" where
  "write_loop left [] = Inr ()"
| "write_loop left (w # ws) = (if left = 0 then Inr ()
     else (case w of Inl t \<Rightarrow> Inl (PyExn t)
       | Inr n \<Rightarrow> if n \<le> 0 then Inl (Domain ''OUTPUT_SHORT_WRITE'') else write_loop (left - nat n) ws))"

record writer_env =
  parent_is_dir :: bool
  uuid_hex :: string
  now_stamp :: stamp
  create_error :: "string option"
  os_write_results :: "(string + int) list"
  write_fsync_error :: "string option"
  close_fails :: "string option"
  discard_error :: "string option"
  chmod_error :: "string option"

datatype wphase = WBegin | WOpen obj | WCreated obj | WWritten obj | WEnded "int result"

record writer =
  w_name :: nat
  w_args :: binding_args
  w_env :: writer_env
  w_phase :: wphase

definition opt_error :: "string option \<Rightarrow> unit result" where
  "opt_error e = (case e of None \<Rightarrow> Inr () | Some t \<Rightarrow> Inl (PyExn t))"

definition validate_output_path :: "path \<Rightarrow> bool \<Rightarrow> unit result" where
  "validate_output_path p dir = seqE [require (is_absolute p) ''OUTPUT_PATH_NOT_ABSOLUTE'',
     require dir ''OUTPUT_PARENT_NOT_DIRECTORY'']"

definition writer_check :: "writer \<Rightarrow> writer" where
  "writer_check w = w \<lparr>w_phase := (case
     bindE (validate_output_path (ba_output (w_args w)) (parent_is_dir (w_env w))) (\<lambda>_.
       build_binding (w_args w) (uuid_hex (w_env w)) (now_stamp (w_env w)))
     of Inl e \<Rightarrow> WEnded (Inl e) | Inr ob \<Rightarrow> WOpen ob)\<rparr>"

text \<open>The exclusive creation leaves an empty file, which is not JSON.\<close>

definition writer_create :: "writer \<Rightarrow> obj \<Rightarrow> files \<Rightarrow> writer \<times> files" where
  "writer_create w ob s =
     (if s (ba_output (w_args w)) \<noteq> None
      then (w \<lparr>w_phase := WEnded (Inl (Domain ''OUTPUT_ALREADY_EXISTS''))\<rparr>, s)
      else case create_error (w_env w) of
        Some t \<Rightarrow> (w \<lparr>w_phase := WEnded (Inl (Domain (''OUTPUT_CREATE_FAILED:'' @ t)))\<rparr>, s)
      | None \<Rightarrow> (w \<lparr>w_phase := WCreated ob\<rparr>,
          s(ba_output (w_args w) \<mapsto> Regular (FileRaises ''JSONDecodeError''))))"

text \<open>Filling the file; a failure removes it again and goes on.  The mode is set at the end.\<close>

definition writer_discard :: "writer \<Rightarrow> exn \<Rightarrow> files \<Rightarrow> writer \<times> files" where
  "writer_discard w e s = (let e' = (case close_fails (w_env w) of None \<Rightarrow> e | Some t \<Rightarrow> PyExn t)
     in case discard_error (w_env w) of
        None \<Rightarrow> (w \<lparr>w_phase := WEnded (Inl e')\<rparr>, s(ba_output (w_args w) := None))
      | Some t \<Rightarrow> (w \<lparr>w_phase := WEnded (Inl (PyExn t))\<rparr>, s))"

definition writer_fill :: "writer \<Rightarrow> obj \<Rightarrow> files \<Rightarrow> writer \<times> files" where
  "writer_fill w ob s =
     (case bindE (write_loop (length (encode_binding ob)) (os_write_results (w_env w)))
             (\<lambda>_. opt_error (write_fsync_error (w_env w))) of
        Inl e \<Rightarrow> writer_discard w e s
      | Inr _ \<Rightarrow> (w \<lparr>w_phase := (case seqE [opt_error (close_fails (w_env w)),
              opt_error (chmod_error (w_env w))] of
            Inl e \<Rightarrow> WEnded (Inl e) | Inr _ \<Rightarrow> WWritten ob)\<rparr>,
          s(ba_output (w_args w) \<mapsto> Regular (FileJson (JObj ob)))))"

text \<open>The file is read back; equal digests stand for equal contents.\<close>

definition writer_verify :: "writer \<Rightarrow> obj \<Rightarrow> files \<Rightarrow> writer" where
  "writer_verify w ob s = w \<lparr>w_phase := WEnded (case s (ba_output (w_args w)) of
       None \<Rightarrow> Inl (PyExn ''FileNotFoundError'')
     | Some f \<Rightarrow> if f = Regular (FileJson (JObj ob)) then Inr 0
         else Inl (Domain ''OUTPUT_SHA256_VERIFICATION_FAILED''))\<rparr>"

definition writer_step :: "writer \<Rightarrow> files \<Rightarrow> writer \<times> files" where
  "writer_step w s = (case w_phase w of
       WBegin \<Rightarrow> (writer_check w, s)
     | WOpen ob \<Rightarrow> writer_create w ob s
     | WCreated ob \<Rightarrow> writer_fill w ob s
     | WWritten ob \<Rightarrow> (writer_verify w ob s, s)
     | WEnded _ \<Rightarrow> (w, s))"

text \<open>The code the command ends with: its own errors give 2.\<close>

definition domain_exit :: "'a result \<Rightarrow> 'a result \<Rightarrow> 'a result" where
  "domain_exit rc v = (case v of Inl (Domain _) \<Rightarrow> rc | _ \<Rightarrow> v)"

definition writer_exit :: "wphase \<Rightarrow> int result option" where
  "writer_exit ph = (case ph of WEnded v \<Rightarrow> Some (domain_exit (Inr 2) v) | _ \<Rightarrow> None)"

subsection \<open>The reader's start\<close>

definition parse_actuator_argv :: "json option \<Rightarrow> string list result" where
  "parse_actuator_argv v = (case v of
       None \<Rightarrow> Inl (Domain ''ACTUATOR_ARGV_JSON_INVALID'')
     | Some v \<Rightarrow> (case strings_of v of
         None \<Rightarrow> Inl (Domain ''ACTUATOR_ARGV_INVALID'')
       | Some argv \<Rightarrow> if argv \<noteq> [] \<and> list_all (\<lambda>x. x \<noteq> []) argv then Inr argv
           else Inl (Domain ''ACTUATOR_ARGV_INVALID'')))"

definition binding_name :: "nat \<Rightarrow> string" where
  "binding_name i = ''T'' @ show_nat i @ ''.binding.json''"

definition binding_path_item :: "nat \<times> json \<Rightarrow> path result" where
  "binding_path_item = (\<lambda>(i, v). case v of
       JStr (c # cs) \<Rightarrow> (let p = to_path (c # cs) in
         bindE (require (is_absolute p) ''RATIO_BINDING_PATH_NOT_ABSOLUTE'') (\<lambda>_.
         bindE (require (base_name p = binding_name i)
           (''RATIO_BINDING_PATH_ORDER_INVALID:'' @ base_name p @ '':'' @ binding_name i)) (\<lambda>_. Inr p)))
     | _ \<Rightarrow> Inl (Domain ''RATIO_BINDING_PATH_INVALID''))"

definition parse_ratio_binding_paths :: "json option \<Rightarrow> path list result" where
  "parse_ratio_binding_paths v = (case v of
       None \<Rightarrow> Inl (Domain ''RATIO_BINDING_PATHS_JSON_INVALID'')
     | Some (JArr xs) \<Rightarrow>
         if length xs \<noteq> 6 then Inl (Domain ''RATIO_BINDING_PATH_COUNT_INVALID'')
         else bindE (mapE binding_path_item (zip [1..<7] xs)) (\<lambda>paths.
           bindE (require (distinct paths) ''RATIO_BINDING_PATH_DUPLICATE'') (\<lambda>_. Inr paths))
     | Some _ \<Rightarrow> Inl (Domain ''RATIO_BINDING_PATH_COUNT_INVALID''))"

datatype fifo_stat = StatFails string | StatOther | StatFifo

definition validate_existing_fifo :: "path \<Rightarrow> fifo_stat \<Rightarrow> unit result" where
  "validate_existing_fifo p st = (case st of
       StatFails t \<Rightarrow> Inl (Domain (''FIFO_STAT_FAILED:'' @ path_text p @ '':'' @ t))
     | StatOther \<Rightarrow> Inl (Domain (''FIFO_PATH_NOT_FIFO:'' @ path_text p))
     | StatFifo \<Rightarrow> Inr ())"

subsection \<open>Creation times\<close>

text \<open>
  \<open>datetime.fromisoformat\<close> on a text that ends in \<open>+00:00\<close>, by its documented form
  \<open>YYYY-MM-DD[*HH[:MM[:SS[.fff[fff]]]]]\<close>, where \<open>*\<close> is any character.  The date alone takes the
  \<open>+\<close> for that character and gives a naive moment, which the reader refuses as well.
\<close>

definition iso_time :: "string \<Rightarrow> (nat \<times> nat \<times> nat \<times> string) option" where
  "iso_time s = Option.bind (digits_at 2 s) (\<lambda>(h, s). if s = [] then Some (h, 0, 0, []) else
     Option.bind (char_at (CHR '':'') s) (\<lambda>s. Option.bind (digits_at 2 s) (\<lambda>(mi, s).
     if s = [] then Some (h, mi, 0, []) else
     Option.bind (char_at (CHR '':'') s) (\<lambda>s. Option.bind (digits_at 2 s) (\<lambda>(sec, s).
     if s = [] then Some (h, mi, sec, []) else
     Option.bind (char_at (CHR ''.'') s) (\<lambda>f.
       if length f \<in> {3, 6} \<and> list_all is_digit f then Some (h, mi, sec, f) else None))))))"

definition iso_moment :: "string \<Rightarrow> stamp option" where
  "iso_moment s =
     Option.bind (digits_at 4 s) (\<lambda>(y, s). Option.bind (char_at (CHR ''-'') s) (\<lambda>s.
     Option.bind (digits_at 2 s) (\<lambda>(mo, s). Option.bind (char_at (CHR ''-'') s) (\<lambda>s.
     Option.bind (digits_at 2 s) (\<lambda>(d, s). case s of [] \<Rightarrow> None | sep # s \<Rightarrow>
     Option.bind (iso_time s) (\<lambda>(h, mi, sec, f).
       let t = \<lparr>year = y, month = mo, day = d, hour = h, minute = mi, second = sec, fraction = f\<rparr>
       in if valid_stamp t then Some t else None))))))"

text \<open>A moment as microseconds since 1970.\<close>

definition stamp_us :: "stamp \<Rightarrow> int" where
  "stamp_us t = timegm t * 1000000 + (if fraction t = [] then 0
     else int (nat_of_digits (fraction t @ replicate (6 - length (fraction t)) (CHR ''0''))))"

definition parse_created_utc :: "json \<Rightarrow> int result" where
  "parse_created_utc v = (case v of
       JStr s \<Rightarrow> if \<not> ends_with ''Z'' s then Inl (Domain ''BINDING_CREATED_UTC_INVALID'')
         else (case iso_moment (butlast s) of
             None \<Rightarrow> Inl (Domain ''BINDING_CREATED_UTC_INVALID'')
           | Some t \<Rightarrow> Inr (stamp_us t))
     | _ \<Rightarrow> Inl (Domain ''BINDING_CREATED_UTC_INVALID''))"

subsection \<open>The reader's turns\<close>

text \<open>
  One turn of the loop: what \<open>readline\<close> gives (nothing is left: end of file), and what the
  machine answers to the calls of the turn.
\<close>

datatype line_read = Line string | LineRaises string

datatype actuator_end = SpawnRaises string | Returned int

record turn =
  tn_read :: line_read
  tn_lstat :: "string option"
  tn_now :: stamp
  tn_link :: "string option"
  tn_sync1 :: "string option"
  tn_unlink :: "string option"
  tn_sync2 :: "string option"
  tn_actuator :: actuator_end

definition TRIGGER_LINE :: string where
  "TRIGGER_LINE = ''TRIGGER'' @ [CHR 0x0A]"

definition consumed_path_for :: "path \<Rightarrow> path" where
  "consumed_path_for p = with_name p (base_name p @ ''.consumed.json'')"

definition REQUIRED_BINDING_KEYS :: "string list" where
  "REQUIRED_BINDING_KEYS = [''schema'', ''binding_id'', ''experiment_id'', ''run_id'',
     ''transition_label'', ''transition_index'', ''requested_ratio_pct'', ''created_utc'']"

text \<open>What the reader expects of the next binding.\<close>

record expectation =
  want_experiment :: string
  want_run :: string
  want_index :: nat
  started_us :: int
  consumed_ids :: "string list"

definition binding_id_of :: "obj \<Rightarrow> string" where
  "binding_id_of b = (case obj_get b ''binding_id'' of JStr s \<Rightarrow> s | _ \<Rightarrow> [])"

definition ratio_of :: "obj \<Rightarrow> int" where
  "ratio_of b = (case obj_get b ''requested_ratio_pct'' of JInt i \<Rightarrow> i | _ \<Rightarrow> 0)"

text \<open>The checks on the parsed document, in their order.\<close>

definition check_binding :: "expectation \<Rightarrow> stamp \<Rightarrow> obj \<Rightarrow> unit result" where
  "check_binding x now b =
     seqE [
       require (set (keys_of b) = set REQUIRED_BINDING_KEYS) ''BINDING_KEYS_INVALID'',
       require (py_eq (obj_get b ''schema'') (JStr BINDING_SCHEMA)) ''BINDING_SCHEMA_INVALID'',
       require (is_str (obj_get b ''binding_id'') \<and> binding_id_of b \<noteq> []) ''BINDING_ID_INVALID'',
       require (binding_id_of b \<notin> set (consumed_ids x)) (''BINDING_ID_REUSED:'' @ binding_id_of b),
       require (py_eq (obj_get b ''experiment_id'') (JStr (want_experiment x)))
         ''BINDING_EXPERIMENT_ID_MISMATCH'',
       require (py_eq (obj_get b ''run_id'') (JStr (want_run x))) ''BINDING_RUN_ID_MISMATCH'',
       require (py_eq (obj_get b ''transition_label'') (JStr (transition_name (int (want_index x)))))
         ''BINDING_TRANSITION_LABEL_MISMATCH'',
       require (py_eq (obj_get b ''transition_index'') (JInt (int (want_index x))))
         ''BINDING_TRANSITION_INDEX_MISMATCH'',
       require (\<exists>r \<in> set ALLOWED_RATIOS. obj_get b ''requested_ratio_pct'' = JInt r)
         (''BINDING_RATIO_INVALID:'' @ py_str (obj_get b ''requested_ratio_pct'')),
       bindE (parse_created_utc (obj_get b ''created_utc'')) (\<lambda>created.
         bindE (require (started_us x \<le> created) ''BINDING_STALE'') (\<lambda>_.
           require (created \<le> timegm now * 1000000 + 5 * 1000000) ''BINDING_CREATED_IN_FUTURE''))]"

definition load_and_validate_binding :: "path \<Rightarrow> expectation \<Rightarrow> turn \<Rightarrow> files \<Rightarrow> obj result" where
  "load_and_validate_binding p x t s =
     bindE (require (s (consumed_path_for p) = None) (''BINDING_ALREADY_CONSUMED:'' @ path_text p)) (\<lambda>_.
     case tn_lstat t of
       Some e \<Rightarrow> Inl (Domain (''BINDING_STAT_FAILED:'' @ path_text p @ '':'' @ e))
     | None \<Rightarrow> (case s p of
         None \<Rightarrow> Inl (Domain (''BINDING_MISSING:'' @ path_text p))
       | Some f \<Rightarrow> (case f of
           SymLink \<Rightarrow> Inl (Domain (''BINDING_SYMLINK_PROHIBITED:'' @ path_text p))
         | Special \<Rightarrow> Inl (Domain (''BINDING_NOT_REGULAR_FILE:'' @ path_text p))
         | Regular FileMissing \<Rightarrow> Inl (PyExn ''FileNotFoundError'')
         | Regular (FileRaises e) \<Rightarrow>
             if e \<in> {''UnicodeDecodeError'', ''JSONDecodeError''}
             then Inl (Domain (''BINDING_JSON_INVALID:'' @ path_text p)) else Inl (PyExn e)
         | Regular (FileJson (JObj b)) \<Rightarrow> bindE (check_binding x (tn_now t) b) (\<lambda>_. Inr b)
         | Regular (FileJson _) \<Rightarrow> Inl (Domain ''BINDING_OBJECT_INVALID''))))"

subsection \<open>The reader as a process\<close>

text \<open>Between two readlines the reader validates, links, removes, starts the actuator and waits
  for its return code.\<close>

datatype rphase = RWait | RValid obj | RLinked obj | RConsumed obj | RRunning obj
  | REnded "unit result"

record reader =
  r_name :: nat
  r_paths :: "path list"
  r_experiment :: string
  r_run :: string
  r_started :: stamp
  r_next :: nat
  r_used :: "string list"
  r_feed :: "turn list"
  r_phase :: rphase

datatype bevent = ActuatorRun nat path nat int

definition r_path :: "reader \<Rightarrow> path" where
  "r_path r = r_paths r ! (r_next r - 1)"

definition r_expects :: "reader \<Rightarrow> expectation" where
  "r_expects r = \<lparr>want_experiment = r_experiment r, want_run = r_run r, want_index = r_next r,
     started_us = timegm (r_started r) * 1000000, consumed_ids = r_used r\<rparr>"

definition r_stop :: "reader \<Rightarrow> exn \<Rightarrow> reader" where
  "r_stop r e = r \<lparr>r_phase := REnded (Inl e)\<rparr>"

definition reader_readline :: "reader \<Rightarrow> files \<Rightarrow> reader" where
  "reader_readline r s = (case r_feed r of
       [] \<Rightarrow> r_stop r (Domain ''FIFO reached EOF; automatic reader restart prohibited'')
     | t # ts \<Rightarrow> (case tn_read t of
         LineRaises e \<Rightarrow> r_stop r (PyExn e)
       | Line l \<Rightarrow>
           if l = [] then r_stop r (Domain ''FIFO reached EOF; automatic reader restart prohibited'')
           else if l \<noteq> TRIGGER_LINE then r \<lparr>r_feed := ts\<rparr>
           else if 6 < r_next r then r_stop r (Domain ''NO_REMAINING_RATIO_BINDING'')
           else (case load_and_validate_binding (r_path r) (r_expects r) t s of
               Inl e \<Rightarrow> r_stop r e
             | Inr b \<Rightarrow> r \<lparr>r_phase := RValid b\<rparr>)))"

text \<open>\<open>consume_binding_once\<close>, its two calls that change the store being two steps.\<close>

definition reader_link :: "reader \<Rightarrow> turn \<Rightarrow> obj \<Rightarrow> files \<Rightarrow> reader \<times> files" where
  "reader_link r t b s = (let p = r_path r; q = consumed_path_for p in
     if s q \<noteq> None then (r_stop r (Domain (''BINDING_ALREADY_CONSUMED:'' @ path_text p)), s)
     else case (tn_link t, s p) of
       (None, Some f) \<Rightarrow> (r \<lparr>r_phase := RLinked b\<rparr>, s(q \<mapsto> f))
     | (Some e, _) \<Rightarrow> (r_stop r (Domain (''BINDING_CONSUME_LINK_FAILED:'' @ path_text p @ '':'' @ e)), s)
     | (None, None) \<Rightarrow> (r_stop r (Domain (''BINDING_CONSUME_LINK_FAILED:'' @ path_text p @
         '':FileNotFoundError'')), s))"

definition reader_unlink :: "reader \<Rightarrow> turn \<Rightarrow> obj \<Rightarrow> files \<Rightarrow> reader \<times> files" where
  "reader_unlink r t b s = (let p = r_path r;
       uncertain = (\<lambda>e. r_stop r (Domain (''BINDING_CONSUME_UNCERTAIN:'' @ path_text p @ '':'' @ e)))
     in case tn_sync1 t of Some e \<Rightarrow> (uncertain e, s)
      | None \<Rightarrow> (case tn_unlink t of Some e \<Rightarrow> (uncertain e, s)
      | None \<Rightarrow> if s p = None then (uncertain ''FileNotFoundError'', s)
          else (case tn_sync2 t of Some e \<Rightarrow> (uncertain e, s(p := None))
            | None \<Rightarrow> (r \<lparr>r_phase := RConsumed b, r_used := binding_id_of b # r_used r\<rparr>,
                s(p := None)))))"

text \<open>\<open>execute_actuator_once\<close>: the start, with the ratio in the environment, and the wait.\<close>

definition reader_spawn :: "reader \<Rightarrow> obj \<Rightarrow> reader \<times> bevent list" where
  "reader_spawn r b = (r \<lparr>r_phase := RRunning b\<rparr>,
     [ActuatorRun (r_name r) (consumed_path_for (r_path r)) (r_next r) (ratio_of b)])"

definition reader_finish :: "reader \<Rightarrow> turn \<Rightarrow> reader" where
  "reader_finish r t = (case tn_actuator t of
       SpawnRaises e \<Rightarrow> r_stop r (PyExn e)
     | Returned rc \<Rightarrow> if rc \<noteq> 0
         then r_stop r (Domain (''actuator execution failed with returncode='' @ show_int rc @
           ''; replay prohibited''))
         else r \<lparr>r_phase := RWait, r_next := r_next r + 1, r_feed := tl (r_feed r)\<rparr>)"

definition reader_step :: "reader \<Rightarrow> files \<Rightarrow> reader \<times> files \<times> bevent list" where
  "reader_step r s = (case r_phase r of
       RWait \<Rightarrow> (reader_readline r s, s, [])
     | RValid b \<Rightarrow> (case reader_link r (hd (r_feed r)) b s of (r', s') \<Rightarrow> (r', s', []))
     | RLinked b \<Rightarrow> (case reader_unlink r (hd (r_feed r)) b s of (r', s') \<Rightarrow> (r', s', []))
     | RConsumed b \<Rightarrow> (case reader_spawn r b of (r', es) \<Rightarrow> (r', s, es))
     | RRunning b \<Rightarrow> (reader_finish r (hd (r_feed r)), s, [])
     | REnded _ \<Rightarrow> (r, s, []))"

record reader_args =
  ra_argv :: "json option"
  ra_paths :: "json option"
  ra_experiment :: string
  ra_run :: string
  ra_index :: int
  ra_fifo :: path

record reader_env =
  fifo_state :: fifo_stat
  fifo_open_error :: "string option"
  started_stamp :: stamp
  feed :: "turn list"

text \<open>\<open>main\<close> and \<open>run_reader\<close> up to the loop.\<close>

definition start_reader :: "reader_args \<Rightarrow> reader_env \<Rightarrow> nat \<Rightarrow> reader result" where
  "start_reader a env name =
     bindE (parse_actuator_argv (ra_argv a)) (\<lambda>_.
     bindE (parse_ratio_binding_paths (ra_paths a)) (\<lambda>paths.
     bindE (nonempty_identity (ra_experiment a) ''EXPERIMENT_ID'') (\<lambda>_.
     bindE (nonempty_identity (ra_run a) ''RUN_ID'') (\<lambda>_.
     bindE (validate_existing_fifo (ra_fifo a) (fifo_state env)) (\<lambda>_.
     bindE (require (1 \<le> ra_index a \<and> ra_index a \<le> 6) ''INITIAL_TRANSITION_INDEX_INVALID'') (\<lambda>_.
     bindE (case fifo_open_error env of None \<Rightarrow> Inr ()
       | Some e \<Rightarrow> Inl (Domain (''cannot open FIFO for reading: '' @ path_text (ra_fifo a) @ '': '' @ e))) (\<lambda>_.
     Inr \<lparr>r_name = name, r_paths = paths, r_experiment = ra_experiment a, r_run = ra_run a,
       r_started = started_stamp env, r_next = nat (ra_index a), r_used = [], r_feed = feed env,
       r_phase = RWait\<rparr>)))))))"

text \<open>A lone reader: every turn takes at most five steps.\<close>

definition run_reader :: "reader \<Rightarrow> files \<Rightarrow> unit result \<times> files \<times> bevent list" where
  "run_reader r s = (case iterate reader_step (5 * length (r_feed r) + 1) r s of
     (r', s', es) \<Rightarrow> ((case r_phase r' of REnded v \<Rightarrow> v | _ \<Rightarrow> Inr ()), s', es))"

definition reader_main :: "reader_args \<Rightarrow> reader_env \<Rightarrow> files \<Rightarrow> int result \<times> files \<times> bevent list" where
  "reader_main a env s = (case start_reader a env 0 of
       Inl e \<Rightarrow> (domain_exit (Inr 2) (Inl e), s, [])
     | Inr r \<Rightarrow> (case run_reader r s of (v, s', es) \<Rightarrow>
         (domain_exit (Inr 2) (bindE v (\<lambda>_. Inr 0)), s', es)))"

subsection \<open>Writers and readers together\<close>

datatype agent = Reader reader | Writer writer

definition agent_step :: "agent \<Rightarrow> files \<Rightarrow> agent \<times> files \<times> bevent list" where
  "agent_step a s = (case a of
       Reader r \<Rightarrow> (case reader_step r s of (r', s', es) \<Rightarrow> (Reader r', s', es))
     | Writer w \<Rightarrow> (case writer_step w s of (w', s') \<Rightarrow> (Writer w', s', [])))"

definition agent_crash :: "agent \<Rightarrow> agent" where
  "agent_crash a = (case a of
       Reader r \<Rightarrow> Reader (r_stop r (PyExn ''crash''))
     | Writer w \<Rightarrow> Writer (w \<lparr>w_phase := WEnded (Inl (PyExn ''crash''))\<rparr>))"

subsection \<open>One consumption per binding\<close>

definition agent_name :: "agent \<Rightarrow> nat" where
  "agent_name a = (case a of Reader r \<Rightarrow> r_name r | Writer w \<Rightarrow> w_name w)"

definition ran_by :: "bevent \<Rightarrow> nat" where
  "ran_by e = (case e of ActuatorRun n q i ratio \<Rightarrow> n)"

definition ran_for :: "path \<Rightarrow> bevent \<Rightarrow> bool" where
  "ran_for q e \<longleftrightarrow> (case e of ActuatorRun n p i ratio \<Rightarrow> p = q)"

text \<open>What a reader knows of itself: six binding names, and a valid binding in hand while it
  handles a trigger.\<close>

definition active :: "rphase \<Rightarrow> obj option" where
  "active ph = (case ph of RValid b \<Rightarrow> Some b | RLinked b \<Rightarrow> Some b | RConsumed b \<Rightarrow> Some b
     | RRunning b \<Rightarrow> Some b | _ \<Rightarrow> None)"

definition reader_fit :: "reader \<Rightarrow> bool" where
  "reader_fit r \<longleftrightarrow> length (r_paths r) = 6 \<and> 1 \<le> r_next r \<and> r_next r \<le> 7 \<and>
     (\<forall>i<6. base_name (r_paths r ! i) = binding_name (Suc i)) \<and>
     (\<forall>b. active (r_phase r) = Some b \<longrightarrow> r_next r \<le> 6 \<and> ratio_of b \<in> set ALLOWED_RATIOS \<and> r_feed r \<noteq> [])"

definition agent_fit :: "agent \<Rightarrow> bool" where
  "agent_fit a = (case a of Reader r \<Rightarrow> reader_fit r | Writer w \<Rightarrow> True)"

text \<open>Who holds the consumed file \<open>q\<close>: the reader that linked it and has not yet started the
  actuator, and a writer that has just created it and may still remove it.\<close>

definition holds_consumed :: "path \<Rightarrow> agent \<Rightarrow> bool" where
  "holds_consumed q a = (case a of
       Reader r \<Rightarrow> consumed_path_for (r_path r) = q \<and>
         (case r_phase r of RLinked b \<Rightarrow> True | RConsumed b \<Rightarrow> True | _ \<Rightarrow> False)
     | Writer w \<Rightarrow> ba_output (w_args w) = q \<and> (case w_phase w of WCreated ob \<Rightarrow> True | _ \<Rightarrow> False))"

lemma last_append_neq: "s \<noteq> [] \<Longrightarrow> t \<noteq> [] \<Longrightarrow> last s \<noteq> last t \<Longrightarrow> a @ s \<noteq> b @ t"
  by (metis last_appendR)

lemma base_name_consumed [simp]: "base_name (consumed_path_for p) = base_name p @ ''.consumed.json''"
  by (simp add: consumed_path_for_def with_name_def)

text \<open>A binding is not the consumed file of any path: the names end differently.\<close>

lemma binding_not_consumed: "base_name p = binding_name i \<Longrightarrow> p \<noteq> consumed_path_for q"
proof
  assume "base_name p = binding_name i" "p = consumed_path_for q"
  then have eq: "''T'' @ show_nat i @ ''.binding.json'' = base_name q @ ''.consumed.json''"
    by (simp add: binding_name_def)
  have "drop 7 (rev (''T'' @ show_nat i @ ''.binding.json'')) \<noteq> drop 7 (rev (base_name q @ ''.consumed.json''))"
    by simp
  with eq show False by metis
qed

lemma r_path_name: "reader_fit r \<Longrightarrow> r_next r \<le> 6 \<Longrightarrow> base_name (r_path r) = binding_name (r_next r)"
  by (cases "r_next r") (auto simp: reader_fit_def r_path_def)

lemma reader_simps [simp]:
  "r_path (r \<lparr>r_phase := x\<rparr>) = r_path r" "r_path (r \<lparr>r_phase := x, r_used := u\<rparr>) = r_path r"
  "r_path (r_stop r e) = r_path r" "r_next (r_stop r e) = r_next r"
  "r_phase (r_stop r e) = REnded (Inl e)" "r_name (r_stop r e) = r_name r"
  "r_paths (r_stop r e) = r_paths r" "r_feed (r_stop r e) = r_feed r"
  by (simp_all add: r_path_def r_stop_def)

lemma active_simps [simp]:
  "active RWait = None" "active (RValid b) = Some b" "active (RLinked b) = Some b"
  "active (RConsumed b) = Some b" "active (RRunning b) = Some b" "active (REnded v) = None"
  by (simp_all add: active_def)

lemma check_binding_ratio: "check_binding x now b = Inr u \<Longrightarrow> ratio_of b \<in> set ALLOWED_RATIOS"
  by (auto simp: check_binding_def ratio_of_def)

lemma load_ratio:
  "load_and_validate_binding p x t s = Inr b \<Longrightarrow> ratio_of b \<in> set ALLOWED_RATIOS"
  by (auto simp: load_and_validate_binding_def dest: check_binding_ratio
    split: option.splits node.splits loaded.splits json.splits if_splits)

lemmas reader_unfold = reader_readline_def reader_link_def reader_unlink_def reader_spawn_def
  reader_finish_def

text \<open>The shape of a reader's step.\<close>

lemma readline_shape:
  "reader_readline r s = r' \<Longrightarrow> (\<exists>e. r' = r_stop r e) \<or> (\<exists>t ts. r_feed r = t # ts \<and>
     (r' = r \<lparr>r_feed := ts\<rparr> \<or> (\<exists>b. r' = r \<lparr>r_phase := RValid b\<rparr> \<and> r_next r \<le> 6 \<and>
        tn_read t = Line TRIGGER_LINE \<and> load_and_validate_binding (r_path r) (r_expects r) t s = Inr b)))"
  by (auto simp: reader_readline_def split: list.splits line_read.splits if_splits sum.splits)

lemma link_shape:
  "reader_link r t b s = (r', s') \<Longrightarrow> (s' = s \<and> (\<exists>e. r' = r_stop r e)) \<or>
     (r' = r \<lparr>r_phase := RLinked b\<rparr> \<and> s (consumed_path_for (r_path r)) = None \<and>
      (\<exists>f. s (r_path r) = Some f \<and> s' = s(consumed_path_for (r_path r) \<mapsto> f)))"
  by (auto simp: reader_link_def Let_def split: if_splits option.splits)

lemma unlink_shape:
  "reader_unlink r t b s = (r', s') \<Longrightarrow> (s' = s \<or> s' = s(r_path r := None)) \<and>
     ((\<exists>e. r' = r_stop r e) \<or> r' = r \<lparr>r_phase := RConsumed b, r_used := binding_id_of b # r_used r\<rparr>)"
  by (auto simp: reader_unlink_def Let_def split: if_splits option.splits)

lemma finish_shape:
  "(\<exists>e. reader_finish r t = r_stop r e) \<or>
   reader_finish r t = r \<lparr>r_phase := RWait, r_next := r_next r + 1, r_feed := tl (r_feed r)\<rparr>"
  by (auto simp: reader_finish_def split: actuator_end.splits)

lemma reader_step_cases:
  assumes "reader_step r s = (r', s', es)"
  obtains (wait) "r_phase r = RWait" "reader_readline r s = r'" "s' = s" "es = []"
  | (valid) b where "r_phase r = RValid b" "reader_link r (hd (r_feed r)) b s = (r', s')" "es = []"
  | (linked) b where "r_phase r = RLinked b" "reader_unlink r (hd (r_feed r)) b s = (r', s')" "es = []"
  | (consumed) b where "r_phase r = RConsumed b" "r' = r \<lparr>r_phase := RRunning b\<rparr>" "s' = s"
      "es = [ActuatorRun (r_name r) (consumed_path_for (r_path r)) (r_next r) (ratio_of b)]"
  | (running) b where "r_phase r = RRunning b" "reader_finish r (hd (r_feed r)) = r'" "s' = s" "es = []"
  | (ended) v where "r_phase r = REnded v" "r' = r" "s' = s" "es = []"
proof (cases "r_phase r")
  case RWait
  show thesis
    by (rule wait) (use assms RWait in \<open>auto simp: reader_step_def reader_spawn_def split: prod.splits\<close>)
next
  case (RValid b)
  show thesis
    by (rule valid) (use assms RValid in \<open>auto simp: reader_step_def reader_spawn_def split: prod.splits\<close>)
next
  case (RLinked b)
  show thesis
    by (rule linked) (use assms RLinked in \<open>auto simp: reader_step_def reader_spawn_def split: prod.splits\<close>)
next
  case (RConsumed b)
  show thesis
    by (rule consumed) (use assms RConsumed in \<open>auto simp: reader_step_def reader_spawn_def split: prod.splits\<close>)
next
  case (RRunning b)
  show thesis
    by (rule running) (use assms RRunning in \<open>auto simp: reader_step_def reader_spawn_def split: prod.splits\<close>)
next
  case (REnded v)
  show thesis
    by (rule ended) (use assms REnded in \<open>auto simp: reader_step_def reader_spawn_def split: prod.splits\<close>)
qed

lemma reader_step_fit:
  assumes "reader_step r s = (r', s', es)" and "reader_fit r"
  shows "reader_fit r'"
  using assms(1)
proof (cases rule: reader_step_cases)
  case wait
  from readline_shape [OF wait(2)] assms(2) wait(1) show ?thesis
    by (auto simp: reader_fit_def dest: load_ratio)
next
  case (valid b)
  from link_shape [OF valid(2)] assms(2) valid(1) show ?thesis by (auto simp: reader_fit_def)
next
  case (linked b)
  from unlink_shape [OF linked(2)] show ?thesis
    by (elim conjE disjE exE) (use assms(2) linked(1) in \<open>simp_all add: reader_fit_def\<close>)
next
  case (consumed b)
  with assms(2) show ?thesis by (auto simp: reader_fit_def)
next
  case (running b)
  from finish_shape [of r "hd (r_feed r)"] running assms(2) show ?thesis by (auto simp: reader_fit_def)
next
  case (ended v)
  with assms(2) show ?thesis by simp
qed

lemma agent_step_fit: "agent_step a s = (a', s', es) \<Longrightarrow> agent_fit a \<Longrightarrow> agent_fit a'"
  by (auto simp: agent_step_def agent_fit_def split: agent.splits prod.splits dest: reader_step_fit)

lemma tally_simps [simp]: "tally P [] = 0" "tally P (x # xs) = of_bool (P x) + tally P xs"
  by (simp_all add: tally_def)

lemma reader_budget:
  assumes "reader_step r s = (r', s', es)" and "reader_fit r" and q: "q = consumed_path_for p"
  shows "of_bool (holds_consumed q (Reader r')) + of_bool (s' q = None) + tally (ran_for q) es
    \<le> of_bool (holds_consumed q (Reader r)) + (of_bool (s q = None) :: nat)"
  using assms(1)
proof (cases rule: reader_step_cases)
  case wait
  from readline_shape [OF wait(2)] wait show ?thesis by (auto simp: holds_consumed_def)
next
  case (valid b)
  from link_shape [OF valid(2)] valid show ?thesis by (auto simp: holds_consumed_def)
next
  case (linked b)
  from assms(2) linked(1) have "r_next r \<le> 6" by (auto simp: reader_fit_def)
  with assms(2) have "r_path r \<noteq> q"
    using r_path_name binding_not_consumed unfolding q by blast
  then have kept: "s' q = s q" using unlink_shape [OF linked(2)] by auto
  from unlink_shape [OF linked(2)] have "holds_consumed q (Reader r') \<Longrightarrow> holds_consumed q (Reader r)"
    by (elim conjE disjE exE) (simp_all add: holds_consumed_def linked(1))
  then show ?thesis by (simp add: kept linked(3) del: not_None_eq)
next
  case (consumed b)
  then show ?thesis by (auto simp: holds_consumed_def ran_for_def)
next
  case (running b)
  from finish_shape [of r "hd (r_feed r)"] running show ?thesis by (auto simp: holds_consumed_def)
next
  case (ended v)
  then show ?thesis by simp
qed

lemmas writer_unfold = writer_step_def writer_check_def writer_create_def writer_fill_def
  writer_discard_def writer_verify_def

text \<open>The shape of a writer's step.\<close>

lemma writer_step_shape:
  assumes "writer_step w s = (w', s')"
  shows "w_args w' = w_args w \<and> w_name w' = w_name w \<and>
    (s' = s \<and> (\<forall>ob. w_phase w' \<noteq> WCreated ob) \<or>
     s (ba_output (w_args w)) = None \<and> s' (ba_output (w_args w)) \<noteq> None \<and>
       (\<exists>ob. w_phase w' = WCreated ob) \<and> (\<forall>p. p \<noteq> ba_output (w_args w) \<longrightarrow> s' p = s p) \<or>
     (\<exists>ob. w_phase w = WCreated ob) \<and> (\<forall>ob. w_phase w' \<noteq> WCreated ob) \<and>
       (\<forall>p. p \<noteq> ba_output (w_args w) \<longrightarrow> s' p = s p))"
proof (cases "w_phase w")
  case WBegin
  with assms show ?thesis
    by (auto simp: writer_step_def writer_check_def simp del: bindE_Inr_iff split: sum.splits)
next
  case (WOpen ob)
  with assms show ?thesis
    by (auto simp: writer_step_def writer_create_def split: if_splits option.splits)
next
  case (WCreated ob)
  with assms show ?thesis
    by (auto simp: writer_step_def writer_fill_def writer_discard_def Let_def
      simp del: bindE_Inr_iff seqE_Inr_iff split: sum.splits option.splits)
next
  case (WWritten ob)
  with assms show ?thesis by (auto simp: writer_step_def writer_verify_def)
next
  case (WEnded v)
  with assms show ?thesis by (auto simp: writer_step_def)
qed

lemma writer_budget:
  "writer_step w s = (w', s') \<Longrightarrow>
   of_bool (holds_consumed q (Writer w')) + of_bool (s' q = None)
    \<le> of_bool (holds_consumed q (Writer w)) + (of_bool (s q = None) :: nat)"
proof (cases "ba_output (w_args w) = q")
  case True
  assume "writer_step w s = (w', s')"
  from writer_step_shape [OF this] True show ?thesis
    by (elim conjE disjE exE) (simp_all add: holds_consumed_def split: wphase.splits)
next
  case False
  assume "writer_step w s = (w', s')"
  from writer_step_shape [OF this] False show ?thesis by (auto simp: holds_consumed_def)
qed

interpretation consumption: guarded_one_shot agent_step agent_crash agent_fit
  "holds_consumed (consumed_path_for p)" "\<lambda>s. s (consumed_path_for p) = None"
  "ran_for (consumed_path_for p)" for p
proof
  fix a s a' s' es
  assume st: "agent_step a s = (a', s', es)" and fit: "agent_fit a"
  show "of_bool (holds_consumed (consumed_path_for p) a') + of_bool (s' (consumed_path_for p) = None)
      + tally (ran_for (consumed_path_for p)) es
    \<le> of_bool (holds_consumed (consumed_path_for p) a) + of_bool (s (consumed_path_for p) = None)"
  proof (cases a)
    case (Reader r)
    from st obtain r' where r: "a' = Reader r'" "reader_step r s = (r', s', es)"
      unfolding agent_step_def Reader agent.case by (cases "reader_step r s") simp
    from fit have "reader_fit r" by (simp add: agent_fit_def Reader)
    from reader_budget [OF r(2) this refl] show ?thesis unfolding Reader r(1) .
  next
    case (Writer w)
    from st obtain w' where w: "a' = Writer w'" "writer_step w s = (w', s')" "es = []"
      unfolding agent_step_def Writer agent.case by (cases "writer_step w s") simp
    from writer_budget [OF w(2), of "consumed_path_for p"] show ?thesis unfolding Writer w(1,3) by simp
  qed
next
  fix a assume "agent_fit a"
  then show "agent_fit (agent_crash a)"
    by (auto simp: agent_crash_def agent_fit_def reader_fit_def split: agent.splits)
next
  fix a show "\<not> holds_consumed (consumed_path_for p) (agent_crash a)"
    by (auto simp: agent_crash_def holds_consumed_def split: agent.splits)
qed (rule agent_step_fit)

text \<open>How an agent enters the system: a reader that \<open>main\<close> has started, a writer at its
  beginning.\<close>

definition newcomer :: "agent \<Rightarrow> bool" where
  "newcomer a = (case a of
       Reader r \<Rightarrow> (\<exists>args env n. start_reader args env n = Inr r)
     | Writer w \<Rightarrow> w_phase w = WBegin)"

lemma binding_path_item_Inr: "binding_path_item (i, v) = Inr p \<Longrightarrow> base_name p = binding_name i"
  by (auto simp: binding_path_item_def Let_def split: json.splits list.splits)

lemma parse_paths_Inr:
  assumes "parse_ratio_binding_paths v = Inr paths"
  shows "length paths = 6 \<and> distinct paths \<and> (\<forall>i<6. base_name (paths ! i) = binding_name (Suc i))"
proof -
  from assms obtain xs where xs: "length xs = 6" "mapE binding_path_item (zip [1..<7] xs) = Inr paths"
    "distinct paths"
    by (auto simp: parse_ratio_binding_paths_def split: option.splits json.splits if_splits)
  then have l: "length paths = 6" by (simp add: mapE_Inr_length)
  have "base_name (paths ! i) = binding_name (Suc i)" if "i < 6" for i
    using mapE_Inr_nth [OF xs(2), of i] that xs(1) by (auto intro!: binding_path_item_Inr)
  with l xs(3) show ?thesis by blast
qed

lemma started_fit:
  assumes "start_reader a env n = Inr r"
  shows "reader_fit r \<and> r_phase r = RWait \<and> r_feed r = feed env"
  using assms parse_paths_Inr [of "ra_paths a"]
  by (auto simp: start_reader_def reader_fit_def nat_le_iff)

lemma newcomer_fit: "newcomer a \<Longrightarrow> agent_fit a \<and> \<not> holds_consumed q a"
  using started_fit by (auto simp: newcomer_def agent_fit_def holds_consumed_def split: agent.splits)

text \<open>C29: however many readers and writers run at the same time, in whatever interleaving and
  with whatever crashes, restarts and failing calls, the actuator is started at most once for one
  binding path, and never when the binding had been consumed before.\<close>

theorem binding_drives_actuator_once:
  assumes "interleaved agent_step agent_crash (ps0, s0, []) (ps, s, es)"
    and "\<forall>a \<in> set ps0. newcomer a"
  shows "tally (ran_for (consumed_path_for p)) es \<le> (if s0 (consumed_path_for p) = None then 1 else 0)"
  by (rule consumption.at_most_once [OF assms(1)]) (use assms(2) newcomer_fit in blast)+

subsection \<open>What one reader did\<close>

definition transition_of :: "bevent \<Rightarrow> nat" where
  "transition_of e = (case e of ActuatorRun n q i ratio \<Rightarrow> i)"

definition faithful_run :: "reader \<Rightarrow> bevent \<Rightarrow> bool" where
  "faithful_run r e = (case e of ActuatorRun n q i ratio \<Rightarrow>
     q = consumed_path_for (r_paths r ! (i - 1)) \<and> ratio \<in> set ALLOWED_RATIOS)"

text \<open>The history of a reader that started as \<open>r0\<close>: the transitions it ran are consecutive, up
  to the next one it expects or, while the actuator runs or after it failed, including it.\<close>

definition history_fits :: "reader \<Rightarrow> reader \<Rightarrow> bevent list \<Rightarrow> bool" where
  "history_fits r0 r h \<longleftrightarrow> reader_fit r \<and> r_paths r = r_paths r0 \<and> r_next r0 \<le> r_next r \<and>
     list_all (faithful_run r0) h \<and>
     (case r_phase r of
        RRunning b \<Rightarrow> map transition_of h = [r_next r0..<Suc (r_next r)]
      | REnded v \<Rightarrow> map transition_of h = [r_next r0..<r_next r] \<or>
          map transition_of h = [r_next r0..<Suc (r_next r)] \<and> r_next r \<le> 6
      | _ \<Rightarrow> map transition_of h = [r_next r0..<r_next r])"

lemma reader_history_step:
  assumes "reader_step r s = (r', s', es)" and h: "history_fits r0 r h"
  shows "history_fits r0 r' (h @ es)"
proof -
  from h have fit: "reader_fit r" by (simp add: history_fits_def)
  note fit' = reader_step_fit [OF assms(1) fit]
  from assms(1) show ?thesis
  proof (cases rule: reader_step_cases)
    case wait
    from readline_shape [OF wait(2)] wait h fit' show ?thesis by (auto simp: history_fits_def)
  next
    case (valid b)
    from link_shape [OF valid(2)] valid h fit' show ?thesis by (auto simp: history_fits_def)
  next
    case (linked b)
    from unlink_shape [OF linked(2)] show ?thesis
      by (elim conjE disjE exE) (use linked h fit' in \<open>simp_all add: history_fits_def\<close>)
  next
    case (consumed b)
    from consumed(1) fit have "ratio_of b \<in> set ALLOWED_RATIOS" by (simp add: reader_fit_def)
    with consumed h fit' show ?thesis
      by (simp add: history_fits_def faithful_run_def transition_of_def r_path_def)
  next
    case (running b)
    from running(1) fit have "r_next r \<le> 6" by (simp add: reader_fit_def)
    with finish_shape [of r "hd (r_feed r)"] running h fit' show ?thesis
      by (auto simp: history_fits_def)
  next
    case (ended v)
    with h show ?thesis by simp
  qed
qed

lemma history_crash: "history_fits r0 r h \<Longrightarrow> history_fits r0 (r_stop r e) h"
  by (cases "r_phase r") (auto simp: history_fits_def reader_fit_def)

lemma history_start: "reader_fit r \<Longrightarrow> r_phase r = RWait \<Longrightarrow> history_fits r r []"
  by (simp add: history_fits_def)

lemma history_bound:
  assumes "history_fits r0 r h"
  shows "\<exists>k \<le> 7. map transition_of h = [r_next r0..<k]"
proof -
  have "r_next r \<le> 7" "\<And>b. r_phase r = RRunning b \<Longrightarrow> r_next r \<le> 6"
    using assms by (auto simp: history_fits_def reader_fit_def)
  with assms show ?thesis
    by (cases "r_phase r") (auto simp: history_fits_def Suc_le_eq intro: exI [of _ "r_next r"]
      exI [of _ "Suc (r_next r)"])
qed

definition agent_history :: "agent \<Rightarrow> agent \<Rightarrow> bevent list \<Rightarrow> bool" where
  "agent_history a0 a h = (case (a0, a) of
       (Reader r0, Reader r) \<Rightarrow> history_fits r0 r h
     | (Writer w0, Writer w) \<Rightarrow> h = []
     | _ \<Rightarrow> False)"

lemma reader_step_name:
  assumes "reader_step r s = (r', s', es)"
  shows "r_name r' = r_name r \<and> (\<forall>e \<in> set es. ran_by e = r_name r)"
  using assms
proof (cases rule: reader_step_cases)
  case wait
  from readline_shape [OF wait(2)] wait show ?thesis by auto
next
  case (valid b)
  from link_shape [OF valid(2)] valid show ?thesis by auto
next
  case (linked b)
  from unlink_shape [OF linked(2)] show ?thesis
    by (elim conjE disjE exE) (simp_all add: linked(3))
next
  case (consumed b)
  then show ?thesis by (simp add: ran_by_def)
next
  case (running b)
  from finish_shape [of r "hd (r_feed r)"] running show ?thesis by auto
next
  case (ended v)
  then show ?thesis by simp
qed

lemma agent_step_name:
  assumes "agent_step a s = (a', s', es)"
  shows "agent_name a' = agent_name a \<and> (\<forall>e \<in> set es. ran_by e = agent_name a)"
proof (cases a)
  case (Reader r)
  obtain r' t fs where st: "reader_step r s = (r', t, fs)" by (cases "reader_step r s")
  with assms Reader have "a' = Reader r'" "es = fs" by (simp_all add: agent_step_def)
  with reader_step_name [OF st] Reader show ?thesis by (simp add: agent_name_def)
next
  case (Writer w)
  obtain w' t where st: "writer_step w s = (w', t)" by (cases "writer_step w s")
  with assms Writer have "a' = Writer w'" "es = []" by (simp_all add: agent_step_def)
  with writer_step_shape [OF st] Writer show ?thesis by (simp add: agent_name_def)
qed

lemma agent_history_step:
  assumes "agent_step a s = (a', s', es)" and "agent_history a0 a h"
  shows "agent_history a0 a' (h @ es)"
proof (cases a)
  case (Reader r)
  obtain r' t fs where st: "reader_step r s = (r', t, fs)" by (cases "reader_step r s")
  with assms(1) Reader have e: "a' = Reader r'" "es = fs" by (simp_all add: agent_step_def)
  from assms(2) Reader obtain r0 where "a0 = Reader r0" "history_fits r0 r h"
    by (auto simp: agent_history_def split: agent.splits)
  with reader_history_step [OF st] e show ?thesis by (simp add: agent_history_def)
next
  case (Writer w)
  obtain w' t where st: "writer_step w s = (w', t)" by (cases "writer_step w s")
  with assms Writer show ?thesis by (auto simp: agent_step_def agent_history_def split: agent.splits)
qed

text \<open>C30: in any interleaving of readers and writers with distinct process names, the actuator
  starts of one reader are those of consecutive transitions, in order, from the one it was
  started with up to at most the sixth, each for the binding of that transition and with a ratio
  of 25, 50, 75 or 100.\<close>

theorem reader_runs_transitions_in_order:
  assumes "interleaved agent_step agent_crash (ps0, s0, []) (ps, s, es)"
    and "distinct (map agent_name ps0)" and "\<forall>a \<in> set ps0. newcomer a"
    and "i < length ps0" and "ps0 ! i = Reader r"
  shows "(\<exists>k \<le> 7. map transition_of (filter (\<lambda>e. ran_by e = r_name r) es) = [r_next r..<k]) \<and>
    list_all (faithful_run r) (filter (\<lambda>e. ran_by e = r_name r) es)"
proof -
  have init: "agent_history a a []" if "a \<in> set ps0" for a
    using that assms(3) started_fit
    by (fastforce simp: agent_history_def newcomer_def history_start split: agent.splits)
  have crash: "agent_history a0 (agent_crash a) h" if "agent_history a0 a h" for a0 a h
    using that by (auto simp: agent_history_def agent_crash_def history_crash split: agent.splits)
  have cname: "agent_name (agent_crash a) = agent_name a" for a
    by (auto simp: agent_name_def agent_crash_def split: agent.splits)
  have "length ps = length ps0 \<and> map agent_name ps = map agent_name ps0 \<and>
    (\<forall>i<length ps. agent_history (ps0 ! i) (ps ! i) (filter (\<lambda>e. ran_by e = agent_name (ps ! i)) es))"
    by (rule interleaved_history [OF assms(1,2)])
      (erule agent_step_name, rule cname, erule init, erule (1) agent_history_step, erule crash)
  then have "length ps = length ps0" "map agent_name ps = map agent_name ps0"
    and h: "\<forall>i<length ps. agent_history (ps0 ! i) (ps ! i)
      (filter (\<lambda>e. ran_by e = agent_name (ps ! i)) es)" by blast+
  moreover from this assms(4,5) have "agent_name (ps ! i) = r_name r"
    by (metis agent.simps(5) agent_name_def nth_map)
  ultimately have "agent_history (Reader r) (ps ! i) (filter (\<lambda>e. ran_by e = r_name r) es)"
    using assms(4,5) by metis
  then obtain r' where "history_fits r r' (filter (\<lambda>e. ran_by e = r_name r) es)"
    by (auto simp: agent_history_def split: agent.splits)
  with history_bound [OF this] show ?thesis by (simp add: history_fits_def)
qed

subsection \<open>From the writer to the reader\<close>

lemma ends_with_append: "ends_with p (s @ p)"
  by (simp add: ends_with_def)

lemma show_nat_length: "n < 10 ^ w \<Longrightarrow> 0 < w \<Longrightarrow> length (show_nat n) \<le> w"
proof (induction w arbitrary: n)
  case 0
  then show ?case by simp
next
  case (Suc w)
  show ?case
  proof (cases "n < 10")
    case True
    then show ?thesis by (simp add: show_nat.simps [of n])
  next
    case False
    with Suc.prems have "0 < w" by (cases w) simp_all
    moreover have "n div 10 < 10 ^ w" using Suc.prems(1) by (simp add: less_mult_imp_div_less)
    ultimately have "length (show_nat (n div 10)) \<le> w" by (rule Suc.IH [rotated])
    with False show ?thesis by (simp add: show_nat.simps [of n])
  qed
qed

lemma zero_pad_length: "n < 10 ^ w \<Longrightarrow> 0 < w \<Longrightarrow> length (zero_pad w n) = w"
  using show_nat_length [of n w] by (simp add: zero_pad_def)

lemma digits_at_zero_pad: "n < 10 ^ w \<Longrightarrow> 0 < w \<Longrightarrow> digits_at w (zero_pad w n @ r) = Some (n, r)"
  using zero_pad_length [of n w] zero_pad_digits [of _ w n]
  by (simp add: digits_at_def list_all_iff) (simp add: zero_pad_def)

lemma char_at_simps [simp]: "char_at c (c # r) = Some r"
  by (simp add: char_at_def)

lemma two_digits: "n < 100 \<Longrightarrow> digits_at 2 (zero_pad 2 n @ r) = Some (n, r)"
  by (rule digits_at_zero_pad) simp_all

lemma four_digits: "n < 10000 \<Longrightarrow> digits_at 4 (zero_pad 4 n @ r) = Some (n, r)"
  by (rule digits_at_zero_pad) simp_all

lemma two_digits_end: "n < 100 \<Longrightarrow> digits_at 2 (zero_pad 2 n) = Some (n, [])"
  using two_digits [of n "[]"] by simp

text \<open>The writer's timestamp is read back as the same moment.\<close>

lemma utc_text_read:
  assumes "valid_stamp t" "fraction t = []"
  shows "iso_moment (butlast (utc_text t)) = Some t"
proof -
  have "days_in_month (year t) (month t) \<le> 31" by (simp add: days_in_month_def)
  with assms(1) have b: "year t < 10000" "month t < 100" "day t < 100" "hour t < 100" "minute t < 100"
    "second t < 100" by (simp_all add: valid_stamp_def)
  have body: "butlast (utc_text t) = zero_pad 4 (year t) @ ''-'' @ zero_pad 2 (month t) @ ''-'' @
      zero_pad 2 (day t) @ ''T'' @ zero_pad 2 (hour t) @ '':'' @ zero_pad 2 (minute t) @ '':'' @
      zero_pad 2 (second t)"
    by (simp add: utc_text_def butlast_append)
  have "iso_time (zero_pad 2 (hour t) @ '':'' @ zero_pad 2 (minute t) @ '':'' @ zero_pad 2 (second t)) =
      Some (hour t, minute t, second t, [])"
    by (simp add: iso_time_def two_digits two_digits_end b)
  moreover have "\<lparr>year = year t, month = month t, day = day t, hour = hour t, minute = minute t,
      second = second t, fraction = []\<rparr> = t" using assms(2) by (cases t) simp
  ultimately show ?thesis
    using assms(1) by (simp add: body iso_moment_def four_digits two_digits b Let_def)
qed

lemma created_utc_read:
  assumes "valid_stamp t" "fraction t = []"
  shows "parse_created_utc (JStr (utc_text t)) = Inr (timegm t * 1000000)"
proof -
  have "utc_text t = butlast (utc_text t) @ ''Z''" by (simp add: utc_text_def butlast_append)
  then have "ends_with ''Z'' (utc_text t)" by (metis ends_with_append)
  with utc_text_read [OF assms] assms(2) show ?thesis
    by (simp add: parse_created_utc_def stamp_us_def)
qed

text \<open>What a reader must be waiting for to take what a writer has built.\<close>

definition expects_args :: "expectation \<Rightarrow> binding_args \<Rightarrow> bool" where
  "expects_args x a \<longleftrightarrow> want_experiment x = ba_experiment a \<and> want_run x = ba_run a \<and>
     int (want_index x) = ba_index a"

definition in_time :: "expectation \<Rightarrow> stamp \<Rightarrow> stamp \<Rightarrow> bool" where
  "in_time x created now \<longleftrightarrow> started_us x \<le> timegm created * 1000000 \<and> timegm created \<le> timegm now + 5"

lemma built_binding:
  assumes "build_binding a uuid now = Inr ob"
  shows "ba_label a = transition_name (ba_index a)" "1 \<le> ba_index a" "ba_index a \<le> 6"
    "ba_ratio a \<in> set ALLOWED_RATIOS"
    "obj_get ob ''schema'' = JStr BINDING_SCHEMA"
    "obj_get ob ''binding_id'' =
      JStr (make_binding_id (ba_experiment a) (ba_run a) (ba_label a) (ba_index a) uuid)"
    "obj_get ob ''experiment_id'' = JStr (ba_experiment a)" "obj_get ob ''run_id'' = JStr (ba_run a)"
    "obj_get ob ''transition_label'' = JStr (ba_label a)"
    "obj_get ob ''transition_index'' = JInt (ba_index a)"
    "obj_get ob ''requested_ratio_pct'' = JInt (ba_ratio a)"
    "obj_get ob ''created_utc'' = JStr (utc_text now)"
    "keys_of ob = REQUIRED_BINDING_KEYS"
  using assms
  by (auto simp: build_binding_def nonempty_identity_def validate_transition_label_def
    validate_ratio_def keys_of_def REQUIRED_BINDING_KEYS_def)

lemma built_binding_accepted:
  assumes "build_binding a uuid created = Inr ob" and "valid_stamp created" "fraction created = []"
    and "expects_args x a" and "in_time x created now" and "binding_id_of ob \<notin> set (consumed_ids x)"
  shows "check_binding x now ob = Inr () \<and> ratio_of ob = ba_ratio a"
proof -
  note b = built_binding [OF assms(1)]
  have "binding_id_of ob \<noteq> []" by (simp add: binding_id_of_def b make_binding_id_def)
  with assms(4-6) b(1-4) show ?thesis
    by (simp add: check_binding_def b expects_args_def in_time_def created_utc_read [OF assms(2,3)]
      is_str_def ratio_of_def)
qed

text \<open>A writer that ran alone and ended well has left the document it built.\<close>

lemma writer_alone:
  assumes "iterate agent_step 4 (Writer w) s = (Writer w', s', es)" and "w_phase w = WBegin"
    and "w_phase w' = WEnded (Inr 0)"
  shows "\<exists>ob. build_binding (w_args w) (uuid_hex (w_env w)) (now_stamp (w_env w)) = Inr ob \<and>
    s (ba_output (w_args w)) = None \<and> es = [] \<and>
    s' = s(ba_output (w_args w) \<mapsto> Regular (FileJson (JObj ob)))"
proof -
  have four: "4 = Suc (Suc (Suc (Suc 0)))" by simp
  have ended: "agent_step (Writer (v\<lparr>w_phase := WEnded x\<rparr>)) t = (Writer (v\<lparr>w_phase := WEnded x\<rparr>), t, [])"
    for v x t by (simp add: agent_step_def writer_step_def)
  show ?thesis
  proof (cases "build_binding (w_args w) (uuid_hex (w_env w)) (now_stamp (w_env w))")
    case (Inl e)
    with assms show ?thesis
      by (auto simp: four agent_step_def writer_step_def writer_check_def validate_output_path_def require_def
        split: if_splits)
  next
    case (Inr ob)
    let ?p = "ba_output (w_args w)"
    from assms Inr have ok: "is_absolute ?p" "parent_is_dir (w_env w)"
      by (auto simp: four agent_step_def writer_step_def writer_check_def validate_output_path_def require_def
        split: if_splits)
    have c: "writer_check w = w \<lparr>w_phase := WOpen ob\<rparr>"
      by (simp add: writer_check_def validate_output_path_def ok Inr)
    from assms have free: "s ?p = None" "create_error (w_env w) = None"
      by (auto simp: four agent_step_def writer_step_def c writer_create_def
        split: if_splits option.splits)
    let ?s1 = "s(?p \<mapsto> Regular (FileRaises ''JSONDecodeError''))"
    have "iterate agent_step 2 (w2 :: agent) ?s1 = (Writer w', s', es)"
      if "w2 = Writer (w \<lparr>w_phase := WCreated ob\<rparr>)" for w2
      using assms(1,2) that
      by (simp add: four numeral_2_eq_2 agent_step_def writer_step_def c writer_create_def free
        split: prod.splits)
    then have it: "iterate agent_step (Suc (Suc 0)) (Writer (w \<lparr>w_phase := WCreated ob\<rparr>)) ?s1 =
      (Writer w', s', es)" by (simp add: numeral_2_eq_2)
    have "s' = s(?p \<mapsto> Regular (FileJson (JObj ob))) \<and> es = []"
      using it assms(3)
      by (auto simp: agent_step_def writer_step_def writer_fill_def writer_discard_def
        writer_verify_def Let_def simp del: bindE_Inr_iff seqE_Inr_iff
        split: sum.splits option.splits if_splits)
    with free Inr show ?thesis by simp
  qed
qed

text \<open>The calls of a turn succeed and the actuator returns 0.\<close>

definition smooth_turn :: "turn \<Rightarrow> bool" where
  "smooth_turn t \<longleftrightarrow> tn_read t = Line TRIGGER_LINE \<and> tn_lstat t = None \<and> tn_link t = None \<and>
     tn_sync1 t = None \<and> tn_unlink t = None \<and> tn_sync2 t = None \<and> tn_actuator t = Returned 0"

text \<open>A reader that waits for the binding of \<open>a\<close>.\<close>

definition awaits :: "reader \<Rightarrow> binding_args \<Rightarrow> turn \<Rightarrow> bool" where
  "awaits r a t \<longleftrightarrow> r_phase r = RWait \<and> r_feed r = t # tl (r_feed r) \<and> r_next r \<le> 6 \<and>
     r_path r = ba_output a \<and> expects_args (r_expects r) a \<and> smooth_turn t"

lemma smooth_turn_runs:
  assumes "awaits r a t" and "s (r_path r) = Some (Regular (FileJson (JObj b)))"
    and "s (consumed_path_for (r_path r)) = None" and "r_path r \<noteq> consumed_path_for (r_path r)"
    and "check_binding (r_expects r) (tn_now t) b = Inr ()"
  shows "\<exists>r' s'. iterate reader_step 5 r s = (r', s',
      [ActuatorRun (r_name r) (consumed_path_for (r_path r)) (r_next r) (ratio_of b)]) \<and>
    r_phase r' = RWait \<and> r_next r' = r_next r + 1 \<and> s' (r_path r) = None \<and>
    s' (consumed_path_for (r_path r)) = Some (Regular (FileJson (JObj b)))"
proof -
  obtain ts where f: "r_feed r = t # ts" "r_phase r = RWait" "r_next r \<le> 6" "smooth_turn t"
    using assms(1) by (auto simp: awaits_def)
  note t = f(4) [unfolded smooth_turn_def]
  have l: "load_and_validate_binding (r_path r) (r_expects r) t s = Inr b"
    using assms(2,3,5) t by (simp add: load_and_validate_binding_def)
  have tr: "TRIGGER_LINE \<noteq> []" by (simp add: TRIGGER_LINE_def)
  let ?q = "consumed_path_for (r_path r)"
  let ?f = "Regular (FileJson (JObj b))"
  let ?s2 = "(s(?q \<mapsto> ?f))(r_path r := None)"
  let ?r1 = "r \<lparr>r_phase := RValid b\<rparr>"
  let ?r2 = "?r1 \<lparr>r_phase := RLinked b\<rparr>"
  let ?r3 = "?r2 \<lparr>r_phase := RConsumed b, r_used := binding_id_of b # r_used r\<rparr>"
  let ?r4 = "?r3 \<lparr>r_phase := RRunning b\<rparr>"
  have 1: "reader_step r s = (?r1, s, [])"
    using f t l tr by (simp add: reader_step_def reader_readline_def)
  have 2: "reader_step ?r1 s = (?r2, s(?q \<mapsto> ?f), [])"
    using f t assms(2,3) by (simp add: reader_step_def reader_link_def Let_def)
  have 3: "reader_step ?r2 (s(?q \<mapsto> ?f)) = (?r3, ?s2, [])"
    using f t assms(2,4) by (simp add: reader_step_def reader_unlink_def Let_def)
  have 4: "reader_step ?r3 ?s2 = (?r4, ?s2, [ActuatorRun (r_name r) ?q (r_next r) (ratio_of b)])"
    by (simp add: reader_step_def reader_spawn_def)
  have 5: "reader_step ?r4 ?s2 = (?r4 \<lparr>r_phase := RWait, r_next := r_next r + 1, r_feed := ts\<rparr>, ?s2, [])"
    using f t by (simp add: reader_step_def reader_finish_def)
  have five: "5 = Suc (Suc (Suc (Suc (Suc 0))))" by simp
  show ?thesis
    unfolding five iterate.simps 1 2 3 4 5 prod.case append.simps
    by (intro exI conjI, rule refl) (use assms(4) in simp_all)
qed


subsection \<open>A lone reader ends\<close>

definition reader_rank :: "reader \<Rightarrow> nat" where
  "reader_rank r = (case r_phase r of RWait \<Rightarrow> 5 * length (r_feed r) + 1 | RValid b \<Rightarrow> 5 * length (r_feed r)
     | RLinked b \<Rightarrow> 5 * length (r_feed r) - 1 | RConsumed b \<Rightarrow> 5 * length (r_feed r) - 2
     | RRunning b \<Rightarrow> 5 * length (r_feed r) - 3 | REnded v \<Rightarrow> 0)"

definition only_fails :: "reader \<Rightarrow> bool" where
  "only_fails r \<longleftrightarrow> (\<forall>v. r_phase r = REnded v \<longrightarrow> (\<exists>e. v = Inl e))"

lemma reader_step_rank:
  assumes "reader_step r s = (r', s', es)" and "reader_fit r" and "only_fails r"
  shows "reader_rank r' \<le> reader_rank r - 1 \<and> only_fails r'"
proof -
  have ne: "\<And>b. active (r_phase r) = Some b \<Longrightarrow> \<exists>k. length (r_feed r) = Suc k"
    using assms(2) by (cases "r_feed r") (auto simp: reader_fit_def)
  from assms(1) show ?thesis
  proof (cases rule: reader_step_cases)
    case wait
    from readline_shape [OF wait(2)] wait show ?thesis by (auto simp: reader_rank_def only_fails_def)
  next
    case (valid b)
    from link_shape [OF valid(2)] valid show ?thesis by (auto simp: reader_rank_def only_fails_def)
  next
    case (linked b)
    from unlink_shape [OF linked(2)] show ?thesis
      by (elim conjE disjE exE) (use linked in \<open>simp_all add: reader_rank_def only_fails_def\<close>)
  next
    case (consumed b)
    then show ?thesis by (simp add: reader_rank_def only_fails_def)
  next
    case (running b)
    with ne [of b] obtain k where "length (r_feed r) = Suc k" by auto
    with finish_shape [of r "hd (r_feed r)"] running show ?thesis
      by (auto simp: reader_rank_def only_fails_def)
  next
    case (ended v)
    with assms(3) show ?thesis by (simp add: reader_rank_def)
  qed
qed

lemma iterate_reader_rank:
  "iterate reader_step n r s = (r', s', es) \<Longrightarrow> reader_fit r \<Longrightarrow> only_fails r \<Longrightarrow>
   reader_rank r' \<le> reader_rank r - n \<and> only_fails r'"
proof (induction n arbitrary: r s es)
  case 0
  then show ?case by simp
next
  case (Suc n)
  obtain q t e1 where st: "reader_step r s = (q, t, e1)" by (cases "reader_step r s")
  obtain e2 where it: "iterate reader_step n q t = (r', s', e2)"
    using Suc.prems(1) st by (auto split: prod.splits)
  from reader_step_rank [OF st Suc.prems(2,3)] Suc.IH [OF it reader_step_fit [OF st Suc.prems(2)]]
  show ?case by auto
qed

text \<open>The reader never returns: within five steps a turn it ends with an exception.\<close>

lemma run_reader_ends:
  assumes "reader_fit r" and "r_phase r = RWait"
  shows "\<exists>e s' es. run_reader r s = (Inl e, s', es)"
proof -
  obtain r' s' es where it: "iterate reader_step (5 * length (r_feed r) + 1) r s = (r', s', es)"
    by (cases "iterate reader_step (5 * length (r_feed r) + 1) r s")
  from iterate_reader_rank [OF it assms(1)] assms(2) have "reader_rank r' = 0" "only_fails r'"
    by (simp_all add: only_fails_def reader_rank_def)
  moreover have "reader_fit r'"
    using iterate_invariant [OF it, of reader_fit "\<lambda>_. True"] assms(1) reader_step_fit by blast
  moreover have "\<And>b. active (r_phase r') = Some b \<Longrightarrow> 5 \<le> 5 * length (r_feed r')"
    using \<open>reader_fit r'\<close> by (cases "r_feed r'") (auto simp: reader_fit_def)
  ultimately obtain e where "r_phase r' = REnded (Inl e)"
    by (cases "r_phase r'") (fastforce simp: reader_rank_def only_fails_def)+
  with it show ?thesis by (simp add: run_reader_def)
qed

text \<open>So the command always ends with code 2 or an exception of another kind.\<close>

lemma reader_main_fails: "fst (reader_main a env s) = Inr 2 \<or> (\<exists>e. fst (reader_main a env s) = Inl e)"
proof (cases "start_reader a env 0")
  case (Inl e)
  then show ?thesis by (cases e) (simp_all add: reader_main_def domain_exit_def)
next
  case (Inr r)
  with started_fit [OF Inr] run_reader_ends [of r s] obtain e s' es
    where "run_reader r s = (Inl e, s', es)" by blast
  with Inr show ?thesis by (cases e) (simp_all add: reader_main_def domain_exit_def)
qed

subsection \<open>A sample system\<close>

definition sample_moment :: stamp where
  "sample_moment = \<lparr>year = 2026, month = 1, day = 1, hour = 0, minute = 0, second = 0, fraction = []\<rparr>"

definition sample_binding_args :: binding_args where
  "sample_binding_args = \<lparr>ba_experiment = ''EXP'', ba_run = ''RUN'', ba_label = ''T1'', ba_index = 1,
     ba_ratio = 50, ba_output = to_path ''/b/T1.binding.json''\<rparr>"

definition sample_writer :: writer where
  "sample_writer = \<lparr>w_name = 0, w_args = sample_binding_args,
     w_env = \<lparr>parent_is_dir = True, uuid_hex = ''0a'', now_stamp = sample_moment, create_error = None,
       os_write_results = [Inr 7], write_fsync_error = None, close_fails = None, discard_error = None,
       chmod_error = None\<rparr>, w_phase = WBegin\<rparr>"

definition sample_turn :: turn where
  "sample_turn = \<lparr>tn_read = Line TRIGGER_LINE, tn_lstat = None, tn_now = sample_moment, tn_link = None,
     tn_sync1 = None, tn_unlink = None, tn_sync2 = None, tn_actuator = Returned 0\<rparr>"

definition sample_reader_args :: reader_args where
  "sample_reader_args = \<lparr>ra_argv = Some (JArr [JStr ''act'']),
     ra_paths = Some (JArr (map JStr [''/b/T1.binding.json'', ''/b/T2.binding.json'', ''/b/T3.binding.json'',
       ''/b/T4.binding.json'', ''/b/T5.binding.json'', ''/b/T6.binding.json''])),
     ra_experiment = ''EXP'', ra_run = ''RUN'', ra_index = 1, ra_fifo = to_path ''/f''\<rparr>"

definition sample_reader_env :: reader_env where
  "sample_reader_env = \<lparr>fifo_state = StatFifo, fifo_open_error = None, started_stamp = sample_moment,
     feed = [sample_turn]\<rparr>"

definition sample_reader :: "nat \<Rightarrow> reader" where
  "sample_reader n = \<lparr>r_name = n, r_paths = map (\<lambda>i. to_path (''/b/'' @ binding_name i)) [1..<7],
     r_experiment = ''EXP'', r_run = ''RUN'', r_started = sample_moment, r_next = 1, r_used = [],
     r_feed = [sample_turn], r_phase = RWait\<rparr>"

lemma sample_paths:
  "parse_ratio_binding_paths (ra_paths sample_reader_args) =
     Inr (map (\<lambda>i. to_path (''/b/'' @ binding_name i)) [1..<7])"
  by code_simp

lemma sample_started: "start_reader sample_reader_args sample_reader_env n = Inr (sample_reader n)"
proof -
  have 1: "parse_actuator_argv (ra_argv sample_reader_args) = Inr [''act'']" by code_simp
  have 2: "nonempty_identity ''EXP'' ''EXPERIMENT_ID'' = Inr ()" "nonempty_identity ''RUN'' ''RUN_ID'' = Inr ()"
    by code_simp+
  show ?thesis
    unfolding start_reader_def 1 sample_paths bindE_simps
    by (simp add: 2 sample_reader_args_def sample_reader_env_def validate_existing_fifo_def
      sample_reader_def)
qed

lemma sample_built:
  "\<exists>ob. build_binding sample_binding_args ''0a'' sample_moment = Inr ob"
proof -
  have 2: "nonempty_identity ''EXP'' ''EXPERIMENT_ID'' = Inr ()" "nonempty_identity ''RUN'' ''RUN_ID'' = Inr ()"
    "transition_name 1 = ''T1''" by code_simp+
  then show ?thesis
    by (simp add: build_binding_def sample_binding_args_def validate_transition_label_def
      validate_ratio_def ALLOWED_RATIOS_def)
qed

lemma sample_writer_runs:
  "\<exists>w' s1. iterate agent_step 4 (Writer sample_writer) Map.empty = (Writer w', s1, []) \<and>
     w_phase w' = WEnded (Inr 0)"
proof -
  obtain ob where ob: "build_binding sample_binding_args ''0a'' sample_moment = Inr ob"
    using sample_built by blast
  have p: "is_absolute (to_path ''/b/T1.binding.json'')" by code_simp
  have four: "4 = Suc (Suc (Suc (Suc 0)))" by simp
  have c: "writer_check sample_writer = sample_writer \<lparr>w_phase := WOpen ob\<rparr>"
    using ob p by (simp add: writer_check_def validate_output_path_def sample_writer_def sample_binding_args_def)
  have o: "ba_output (w_args sample_writer) = to_path ''/b/T1.binding.json''"
    "w_phase sample_writer = WBegin" "create_error (w_env sample_writer) = None"
    "write_loop n (os_write_results (w_env sample_writer)) = Inr ()"
    "write_fsync_error (w_env sample_writer) = None" "close_fails (w_env sample_writer) = None"
    "chmod_error (w_env sample_writer) = None" for n
    by (simp_all add: sample_writer_def sample_binding_args_def)
  show ?thesis
    by (simp add: four agent_step_def writer_step_def c writer_create_def writer_fill_def
      writer_verify_def opt_error_def o)
qed

lemma sample_r_path: "r_path (sample_reader n) = to_path ''/b/T1.binding.json''"
  by (simp add: r_path_def sample_reader_def binding_name_def show_nat.simps digit_char_def del: upt_Suc)
    code_simp

lemma sample_reader_name [simp]: "r_name (sample_reader n) = n"
  by (simp add: sample_reader_def)

lemma sample_newcomers: "newcomer (Writer sample_writer)" "newcomer (Reader (sample_reader n))"
  using sample_started by (auto simp: newcomer_def sample_writer_def)

lemma sample_reader_fit: "reader_fit (sample_reader n)"
  using started_fit [OF sample_started] by blast

abbreviation sample_consumed :: path where
  "sample_consumed \<equiv> consumed_path_for (to_path ''/b/T1.binding.json'')"

lemma sample_awaits: "awaits (sample_reader n) sample_binding_args sample_turn"
proof -
  have "r_path (sample_reader n) = ba_output sample_binding_args"
    by (simp add: sample_r_path sample_binding_args_def)
  then show ?thesis
    by (simp add: awaits_def expects_args_def r_expects_def smooth_turn_def sample_turn_def)
      (simp add: sample_reader_def sample_binding_args_def sample_turn_def)
qed

lemma sample_ratio: "ba_ratio sample_binding_args = 50" "r_next (sample_reader n) = 1"
  by (simp_all add: sample_binding_args_def sample_reader_def)

lemma sample_moment_valid: "valid_stamp sample_moment" "fraction sample_moment = []"
  by (simp_all add: valid_stamp_def sample_moment_def days_in_month_def)

lemma sample_writer_args: "w_args sample_writer = sample_binding_args" "w_phase sample_writer = WBegin"
  "now_stamp (w_env sample_writer) = sample_moment"
  by (simp_all add: sample_writer_def)


text \<open>A writer and two readers of the same bindings; the writer runs, then the first reader.\<close>

definition sample_system :: "agent list" where
  "sample_system = [Writer sample_writer, Reader (sample_reader 1), Reader (sample_reader 2)]"

lemma agent_reader_iterate:
  "iterate reader_step n r s = (r', s', es) \<Longrightarrow>
   iterate agent_step n (Reader r) s = (Reader r', s', es)"
  by (induction n arbitrary: r s es) (auto simp: agent_step_def split: prod.splits)

lemma sample_interleaving:
  "\<exists>ps s. interleaved agent_step agent_crash (sample_system, Map.empty, [])
     (ps, s, [ActuatorRun 1 sample_consumed 1 50])"
proof -
  obtain w' s1 where w: "iterate agent_step 4 (Writer sample_writer) Map.empty = (Writer w', s1, [])"
    "w_phase w' = WEnded (Inr 0)" using sample_writer_runs by blast
  from writer_alone [OF w(1) sample_writer_args(2) w(2), unfolded sample_writer_args] obtain ob where
    ob: "build_binding sample_binding_args (uuid_hex (w_env sample_writer)) sample_moment = Inr ob"
    and s1: "s1 = Map.empty(ba_output sample_binding_args \<mapsto> Regular (FileJson (JObj ob)))" by blast
  have p: "r_path (sample_reader 1) = ba_output sample_binding_args"
    using sample_awaits [of 1] by (simp add: awaits_def)
  have x: "expects_args (r_expects (sample_reader 1)) sample_binding_args"
    using sample_awaits [of 1] by (simp add: awaits_def)
  have i: "in_time (r_expects (sample_reader 1)) sample_moment (tn_now sample_turn)"
    "binding_id_of ob \<notin> set (consumed_ids (r_expects (sample_reader 1)))"
    by (simp_all add: in_time_def r_expects_def sample_reader_def sample_turn_def)
  note c = built_binding_accepted [OF ob sample_moment_valid x i]
  have n: "r_path (sample_reader 1) \<noteq> consumed_path_for (r_path (sample_reader 1))"
    by (rule binding_not_consumed) (rule r_path_name [OF sample_reader_fit], simp add: sample_reader_def)
  obtain r' s2 where r: "iterate reader_step 5 (sample_reader 1) s1 = (r', s2, [ActuatorRun 1 sample_consumed 1 50])"
    using smooth_turn_runs [OF sample_awaits [of 1], of s1 ob] c n sample_r_path [of 1]
    by (auto simp: s1 p [symmetric] sample_ratio)
  have 1: "interleaved agent_step agent_crash (sample_system, Map.empty, [])
      (sample_system[0 := Writer w'], s1, [] @ [])"
    by (rule iterate_system [OF interleaved.start]) (use w in \<open>simp_all add: sample_system_def\<close>)
  have "interleaved agent_step agent_crash (sample_system, Map.empty, [])
      (sample_system[0 := Writer w', 1 := Reader r'], s2, ([] @ []) @ [ActuatorRun 1 sample_consumed 1 50])"
    by (rule iterate_system [OF 1])
      (use agent_reader_iterate [OF r] in \<open>simp_all add: sample_system_def\<close>)
  then show ?thesis by auto
qed

lemma sample_system_new: "\<forall>a \<in> set sample_system. newcomer a" "distinct (map agent_name sample_system)"
  using sample_newcomers
  by (simp_all add: sample_system_def agent_name_def sample_writer_def sample_reader_def)

theorem binding_drives_actuator_once_witness:
  "\<exists>ps s es. interleaved agent_step agent_crash (sample_system, Map.empty, []) (ps, s, es) \<and>
     tally (ran_for sample_consumed) es = 1 \<and> tally (ran_for sample_consumed) es \<le> 1"
proof -
  from sample_interleaving obtain ps s where i: "interleaved agent_step agent_crash
    (sample_system, Map.empty, []) (ps, s, [ActuatorRun 1 sample_consumed 1 50])" by blast
  from binding_drives_actuator_once [OF i sample_system_new(1), of "to_path ''/b/T1.binding.json''"] i
  show ?thesis by (intro exI conjI) (auto simp: ran_for_def)
qed

theorem reader_runs_transitions_in_order_witness:
  "\<exists>ps s. interleaved agent_step agent_crash (sample_system, Map.empty, [])
     (ps, s, [ActuatorRun 1 sample_consumed 1 50]) \<and>
     (\<exists>k \<le> 7. map transition_of [ActuatorRun 1 sample_consumed 1 50] = [1..<k])"
proof -
  from sample_interleaving obtain ps s where i: "interleaved agent_step agent_crash
    (sample_system, Map.empty, []) (ps, s, [ActuatorRun 1 sample_consumed 1 50])" by blast
  have 1: "1 < length sample_system" "sample_system ! 1 = Reader (sample_reader 1)"
    by (simp_all add: sample_system_def)
  from reader_runs_transitions_in_order [OF i sample_system_new(2,1) 1] i show ?thesis
    by (auto simp: ran_by_def sample_reader_def)
qed

end
