(* ===== verification/Sequence_Plan.thy ===== *)
theory Sequence_Plan
  imports Critical_Section
begin

section \<open>The bounded sequence: plan builder and plan check\<close>

text \<open>
  \<^verbatim>\<open>scripts/experiment-harness/prompt12-bounded-sequence-plan-builder.py\<close> turns a manifest of
  command bindings into the plan of a six-transition run, and \<open>load_plan\<close> of
  \<^verbatim>\<open>scripts/experiment-harness/prompt12-bounded-orchestration-supervisor.py\<close> checks a plan
  before it is run.  Commands stay JSON values, as the scripts pass them on.
\<close>

subsection \<open>The builder\<close>

definition BINDINGS_SCHEMA :: string where
  "BINDINGS_SCHEMA = ''sci_oran_prompt12_bounded_sequence_bindings_v1''"

definition PLAN_SCHEMA :: string where
  "PLAN_SCHEMA = ''sci_oran_prompt12_bounded_sequence_v1''"

definition label_of :: "nat \<Rightarrow> string" where
  "label_of i = ''T'' @ show_nat i"

definition TRANSITION_LABELS :: "string list" where
  "TRANSITION_LABELS = map label_of [1..<7]"

definition comma_list :: "string list \<Rightarrow> string" where
  "comma_list names = join_with (CHR '','') (sort names)"

definition require_exact_keys :: "json \<Rightarrow> string list \<Rightarrow> string \<Rightarrow> obj result" where
  "require_exact_keys v expected role = (case v of
       JObj ob \<Rightarrow> (let missing = filter (\<lambda>k. k \<notin> set (keys_of ob)) expected;
           extra = filter (\<lambda>k. k \<notin> set expected) (keys_of ob)
         in bindE (require (missing = []) (role @ '' missing keys: '' @ comma_list missing)) (\<lambda>_.
            bindE (require (extra = []) (role @ '' has unexpected keys: '' @ comma_list extra)) (\<lambda>_.
            Inr ob)))
     | _ \<Rightarrow> Inl (Domain (role @ '' must be an object'')))"

definition nonempty_str :: "json \<Rightarrow> bool" where
  "nonempty_str v = (case v of JStr s \<Rightarrow> s \<noteq> [] | _ \<Rightarrow> False)"

definition no_nul :: "json \<Rightarrow> bool" where
  "no_nul v = (case v of JStr s \<Rightarrow> CHR 0x00 \<notin> set s | _ \<Rightarrow> True)"

definition command_item :: "string \<Rightarrow> nat \<times> json \<Rightarrow> unit result" where
  "command_item role = (\<lambda>(i, v). require (nonempty_str v \<and> no_nul v)
     (role @ ''['' @ show_nat i @ ''] must be a non-empty string without NUL''))"

definition validate_command :: "json \<Rightarrow> string \<Rightarrow> json result" where
  "validate_command v role = (case v of
       JArr (x # xs) \<Rightarrow>
         bindE (seqE (map (command_item role) (zip [0..<length (x # xs)] (x # xs)))) (\<lambda>_. Inr v)
     | _ \<Rightarrow> Inl (Domain (role @ '' must be a non-empty argv array'')))"

definition MANIFEST_KEYS :: "string list" where
  "MANIFEST_KEYS = [''schema'', ''traffic_command'', ''initial_stationarity_command'',
     ''finalization_command'', ''transitions'']"

definition TRANSITION_KEYS :: "string list" where
  "TRANSITION_KEYS = [''label'', ''ratio_bind_command'', ''trigger_command'',
     ''post_stationarity_command'']"

definition build_transition :: "nat \<times> json \<Rightarrow> json result" where
  "build_transition = (\<lambda>(i, v). let role = ''transitions['' @ show_nat i @ '']'' in
     bindE (require_exact_keys v TRANSITION_KEYS role) (\<lambda>t.
     bindE (require (py_eq (obj_get t ''label'') (JStr (label_of (Suc i))))
       (role @ ''.label must be '' @ label_of (Suc i))) (\<lambda>_.
     bindE (validate_command (obj_get t ''ratio_bind_command'') (role @ ''.ratio_bind_command'')) (\<lambda>rb.
     bindE (validate_command (obj_get t ''trigger_command'') (role @ ''.trigger_command'')) (\<lambda>tr.
     bindE (validate_command (obj_get t ''post_stationarity_command'')
       (role @ ''.post_stationarity_command'')) (\<lambda>po.
     Inr (JObj [(''label'', JStr (label_of (Suc i))), (''ratio_bind_command'', rb),
       (''trigger_command'', tr), (''post_stationarity_command'', po)])))))))"

definition build_plan :: "json \<Rightarrow> obj result" where
  "build_plan manifest =
     bindE (require_exact_keys manifest MANIFEST_KEYS ''binding manifest'') (\<lambda>ob.
     bindE (require (py_eq (obj_get ob ''schema'') (JStr BINDINGS_SCHEMA))
       ''binding manifest schema is invalid'') (\<lambda>_.
     case obj_get ob ''transitions'' of
       JArr ts \<Rightarrow>
         bindE (require (length ts = length TRANSITION_LABELS) ''exactly six transitions are required'') (\<lambda>_.
         bindE (mapE build_transition (zip [0..<length ts] ts)) (\<lambda>built.
         bindE (validate_command (obj_get ob ''traffic_command'') ''traffic_command'') (\<lambda>tc.
         bindE (validate_command (obj_get ob ''initial_stationarity_command'')
           ''initial_stationarity_command'') (\<lambda>ic.
         bindE (validate_command (obj_get ob ''finalization_command'') ''finalization_command'') (\<lambda>fc.
         Inr [(''schema'', JStr PLAN_SCHEMA), (''traffic_command'', tc),
           (''initial_stationarity_command'', ic), (''finalization_command'', fc),
           (''transitions'', JArr built)])))))
     | _ \<Rightarrow> Inl (Domain ''transitions must be an array'')))"

definition load_bindings :: "loaded \<Rightarrow> json result" where
  "load_bindings f = (case f of
       FileJson v \<Rightarrow> Inr v
     | FileMissing \<Rightarrow> Inl (Domain ''binding manifest cannot be read: FileNotFoundError'')
     | FileRaises t \<Rightarrow>
         if os_error t \<or> t = ''UnicodeDecodeError''
         then Inl (Domain (''binding manifest cannot be read: '' @ t))
         else if t = ''JSONDecodeError'' then Inl (Domain ''binding manifest is not valid JSON'')
         else Inl (PyExn t))"

text \<open>\<open>write_plan\<close>: an exclusive creation; a failing write leaves what it has written.\<close>

record plan_out =
  out_parent_dir :: bool
  out_error :: "string option"

definition write_plan :: "plan_out \<Rightarrow> path \<Rightarrow> obj \<Rightarrow> store \<Rightarrow> store \<times> unit result" where
  "write_plan env p plan s =
     (if s p \<noteq> None then (s, Inl (Domain ''output path already exists''))
      else if \<not> out_parent_dir env then (s, Inl (Domain ''output parent directory does not exist''))
      else case write_exclusive p (JObj plan) (out_error env) s of
        (s', Inl (PyExn t)) \<Rightarrow> (s', Inl (if os_error t
            then Domain (''output plan cannot be written: '' @ t) else PyExn t))
      | (s', r) \<Rightarrow> (s', r))"

definition builder_exit :: "'a result \<Rightarrow> int result" where
  "builder_exit v = (case v of Inr _ \<Rightarrow> Inr 0 | Inl (Domain _) \<Rightarrow> Inr 65 | Inl e \<Rightarrow> Inl e)"

definition builder_main :: "loaded \<Rightarrow> plan_out \<Rightarrow> path \<Rightarrow> store \<Rightarrow> store \<times> int result" where
  "builder_main f env p s = (case bindE (load_bindings f) build_plan of
       Inl e \<Rightarrow> (s, builder_exit (Inl e :: unit result))
     | Inr plan \<Rightarrow> (case write_plan env p plan s of (s', r) \<Rightarrow> (s', builder_exit r)))"

subsection \<open>The supervisor's check\<close>

text \<open>A \<open>SupervisorError\<close> carries its exit code; any other exception escapes.\<close>

datatype sup_error = Sup string int | Escapes string

definition ensure :: "bool \<Rightarrow> string \<Rightarrow> int \<Rightarrow> sup_error + unit" where
  "ensure c reason rc = (if c then Inr () else Inl (Sup reason rc))"

definition plan_command :: "json \<Rightarrow> string \<Rightarrow> sup_error + unit" where
  "plan_command v name = (case v of
       JArr (x # xs) \<Rightarrow> ensure (list_all nonempty_str (x # xs))
         (''INVALID_COMMAND:'' @ name) 64
     | _ \<Rightarrow> Inl (Sup (''INVALID_COMMAND:'' @ name) 64))"

definition plan_transition :: "nat \<times> json \<Rightarrow> sup_error + unit" where
  "plan_transition = (\<lambda>(i, v). case v of
       JObj t \<Rightarrow> seqE [
         ensure (py_eq (obj_get t ''label'') (JStr (label_of i)))
           (''TRANSITION_ORDER_INVALID:'' @ show_nat i) 64,
         plan_command (obj_get t ''trigger_command'') (label_of i @ ''.trigger_command''),
         plan_command (obj_get t ''post_stationarity_command'')
           (label_of i @ ''.post_stationarity_command'')]
     | _ \<Rightarrow> Inl (Sup (''TRANSITION_INVALID:'' @ show_nat i) 64))"

definition load_plan :: "loaded \<Rightarrow> sup_error + obj" where
  "load_plan f = (case f of
       FileMissing \<Rightarrow> Inl (Sup ''PLAN_READ_FAILED:FileNotFoundError'' 64)
     | FileRaises t \<Rightarrow> if os_error t \<or> t = ''JSONDecodeError''
         then Inl (Sup (''PLAN_READ_FAILED:'' @ t) 64) else Inl (Escapes t)
     | FileJson (JObj plan) \<Rightarrow>
         bindE (seqE [
           ensure (py_eq (obj_get plan ''schema'') (JStr PLAN_SCHEMA)) ''PLAN_SCHEMA_INVALID'' 64,
           plan_command (obj_get plan ''traffic_command'') ''traffic_command'',
           plan_command (obj_get plan ''initial_stationarity_command'') ''initial_stationarity_command'',
           plan_command (obj_get plan ''finalization_command'') ''finalization_command'']) (\<lambda>_.
         case obj_get plan ''transitions'' of
           JArr ts \<Rightarrow> bindE (ensure (length ts = 6) ''TRANSITION_COUNT_INVALID'' 64) (\<lambda>_.
             bindE (seqE (map plan_transition (zip [1..<Suc (length ts)] ts))) (\<lambda>_. Inr plan))
         | _ \<Rightarrow> Inl (Sup ''TRANSITION_COUNT_INVALID'' 64))
     | FileJson _ \<Rightarrow> Inl (Escapes ''AttributeError''))"

subsection \<open>A built plan is a good plan\<close>

lemma validate_command_Inr:
  "validate_command v role = Inr w \<longleftrightarrow>
   w = v \<and> (\<exists>x xs. v = JArr (x # xs) \<and> list_all (\<lambda>v. nonempty_str v \<and> no_nul v) (x # xs))"
proof (cases v)
  case (JArr ys)
  show ?thesis
  proof (cases ys)
    case Nil
    with JArr show ?thesis by (simp add: validate_command_def)
  next
    case (Cons x xs)
    have "(\<forall>m \<in> set (map (command_item role) (zip [0..<length ys] ys)). m = Inr ()) \<longleftrightarrow>
      list_all (\<lambda>v. nonempty_str v \<and> no_nul v) ys"
      by (auto simp: command_item_def list_all_length in_set_zip set_conv_nth)
    with JArr Cons show ?thesis by (auto simp: validate_command_def)
  qed
qed (simp_all add: validate_command_def)

text \<open>What the supervisor needs of a command.\<close>

definition runnable :: "json \<Rightarrow> bool" where
  "runnable v = (case v of JArr xs \<Rightarrow> xs \<noteq> [] \<and> list_all nonempty_str xs | _ \<Rightarrow> False)"

lemma validate_command_runnable: "validate_command v role = Inr w \<Longrightarrow> runnable w"
  by (auto simp: validate_command_Inr runnable_def list_all_iff)

lemma ensure_Inr [simp]: "ensure c r rc = Inr u \<longleftrightarrow> c"
  by (simp add: ensure_def)

lemma plan_command_Inr [simp]: "plan_command v name = Inr u \<longleftrightarrow> runnable v"
  by (auto simp: plan_command_def runnable_def split: json.splits list.splits)

text \<open>The shape of one built transition.\<close>

definition good_transition :: "nat \<Rightarrow> json \<Rightarrow> bool" where
  "good_transition i v \<longleftrightarrow> (\<exists>t. v = JObj t \<and> map_of t ''label'' = Some (JStr (label_of i)) \<and>
     (\<forall>k \<in> {''ratio_bind_command'', ''trigger_command'', ''post_stationarity_command''}.
        \<exists>c. map_of t k = Some c \<and> runnable c))"

lemma build_transition_good: "build_transition (i, v) = Inr w \<Longrightarrow> good_transition (Suc i) w"
  by (auto simp: build_transition_def Let_def good_transition_def dest!: validate_command_runnable)

lemma good_transition_passes: "good_transition i v \<Longrightarrow> plan_transition (i, v) = Inr ()"
  by (auto simp: good_transition_def plan_transition_def obj_get_def)

definition good_plan :: "obj \<Rightarrow> bool" where
  "good_plan plan \<longleftrightarrow> obj_get plan ''schema'' = JStr PLAN_SCHEMA \<and>
     (\<forall>k \<in> {''traffic_command'', ''initial_stationarity_command'', ''finalization_command''}.
        \<exists>c. map_of plan k = Some c \<and> runnable c) \<and>
     (\<exists>ts. map_of plan ''transitions'' = Some (JArr ts) \<and> length ts = 6 \<and>
        (\<forall>i<6. good_transition (Suc i) (ts ! i)))"

lemma build_plan_parts:
  assumes "build_plan m = Inr plan"
  obtains ts built tc ic fc where "length ts = 6"
    "mapE build_transition (zip [0..<length ts] ts) = Inr built"
    "runnable tc" "runnable ic" "runnable fc"
    "plan = [(''schema'', JStr PLAN_SCHEMA), (''traffic_command'', tc),
       (''initial_stationarity_command'', ic), (''finalization_command'', fc), (''transitions'', JArr built)]"
proof -
  from assms obtain ob where "(case obj_get ob ''transitions'' of
       JArr ts \<Rightarrow>
         bindE (require (length ts = length TRANSITION_LABELS) ''exactly six transitions are required'') (\<lambda>_.
         bindE (mapE build_transition (zip [0..<length ts] ts)) (\<lambda>built.
         bindE (validate_command (obj_get ob ''traffic_command'') ''traffic_command'') (\<lambda>tc.
         bindE (validate_command (obj_get ob ''initial_stationarity_command'')
           ''initial_stationarity_command'') (\<lambda>ic.
         bindE (validate_command (obj_get ob ''finalization_command'') ''finalization_command'') (\<lambda>fc.
         Inr [(''schema'', JStr PLAN_SCHEMA), (''traffic_command'', tc),
           (''initial_stationarity_command'', ic), (''finalization_command'', fc),
           (''transitions'', JArr built)])))))
     | _ \<Rightarrow> Inl (Domain ''transitions must be an array'')) = Inr plan"
    unfolding build_plan_def bindE_Inr_iff by blast
  note built = this
  show thesis
  proof (cases "obj_get ob ''transitions''")
    case (JArr ts)
    from built [unfolded JArr json.case bindE_Inr_iff] obtain u v tc ic fc where
      "require (length ts = length TRANSITION_LABELS) ''exactly six transitions are required'' = Inr u"
      and b: "mapE build_transition (zip [0..<length ts] ts) = Inr v"
      and c: "validate_command (obj_get ob ''traffic_command'') ''traffic_command'' = Inr tc"
        "validate_command (obj_get ob ''initial_stationarity_command'')
           ''initial_stationarity_command'' = Inr ic"
        "validate_command (obj_get ob ''finalization_command'') ''finalization_command'' = Inr fc"
      and p: "Inr [(''schema'', JStr PLAN_SCHEMA), (''traffic_command'', tc),
           (''initial_stationarity_command'', ic), (''finalization_command'', fc),
           (''transitions'', JArr v)] = (Inr plan :: obj result)"
      by blast
    then have "length ts = 6" by (simp add: TRANSITION_LABELS_def)
    from that [OF this b validate_command_runnable [OF c(1)] validate_command_runnable [OF c(2)]
        validate_command_runnable [OF c(3)]] p show thesis by simp
  qed (use built in simp_all)
qed

lemma build_plan_good: "build_plan m = Inr plan \<Longrightarrow> good_plan plan"
proof -
  assume "build_plan m = Inr plan"
  then obtain ts built tc ic fc where b: "length ts = 6" "mapE build_transition (zip [0..<length ts] ts) = Inr built"
    "runnable tc" "runnable ic" "runnable fc"
    "plan = [(''schema'', JStr PLAN_SCHEMA), (''traffic_command'', tc),
       (''initial_stationarity_command'', ic), (''finalization_command'', fc), (''transitions'', JArr built)]"
    by (rule build_plan_parts)
  have "length built = 6" using mapE_Inr_length [OF b(2)] b(1) by simp
  moreover have "good_transition (Suc i) (built ! i)" if "i < 6" for i
    using mapE_Inr_nth [OF b(2), of i] that b(1) by (auto intro: build_transition_good)
  ultimately show ?thesis using b(3-6) by (simp add: good_plan_def)
qed

lemma good_plan_loads: "good_plan plan \<Longrightarrow> load_plan (FileJson (JObj plan)) = Inr plan"
proof -
  assume g: "good_plan plan"
  then obtain ts where ts: "map_of plan ''transitions'' = Some (JArr ts)" "length ts = 6"
    "\<forall>i<6. good_transition (Suc i) (ts ! i)" by (auto simp: good_plan_def)
  have "plan_transition (i, v) = Inr ()" if "(i, v) \<in> set (zip [1..<7] ts)" for i v
    using that ts(2,3) good_transition_passes by (auto simp: in_set_zip)
  then have "seqE (map plan_transition (zip [1..<Suc (length ts)] ts)) = Inr ()"
    by (auto simp: ts(2))
  with g ts(1,2) show ?thesis
    by (auto simp: good_plan_def load_plan_def obj_get_def)
qed

end
