(* ===== verification/Sequence_Supervisor.thy ===== *)
theory Sequence_Supervisor
  imports Sequence_Plan
begin

section \<open>The bounded orchestration supervisor\<close>

text \<open>
  \<open>run_live\<close> and \<open>main\<close> of
  \<^verbatim>\<open>scripts/experiment-harness/prompt12-bounded-orchestration-supervisor.py\<close>: start the
  traffic, wait for stationarity, and for each of six transitions bind the ratio, dispatch the
  trigger and wait for stationarity again, all within 180 seconds.  The report is mutated while
  the run goes on and survives a failure, so a computation is a state transformer with an
  exceptional result; its state holds the report and the trace of what was started.  Clock
  readings are floating-point seconds; \<open>rnd\<close> is the rounding of the machine's subtraction.
\<close>

named_theorems sup_simps \<open>running a supervised computation\<close>

subsection \<open>Bounds\<close>

definition PRE_MIN_S :: int where "PRE_MIN_S = 11"

definition POST_MIN_S :: int where "POST_MIN_S = 10"

definition EXTENSION_S :: int where "EXTENSION_S = 5"

definition MAX_EXTENSIONS :: nat where "MAX_EXTENSIONS = 2"

definition PRE_MAX_S :: int where "PRE_MAX_S = 21"

definition POST_MAX_S :: int where "POST_MAX_S = 20"

definition OBSERVATION_MAX_S :: int where "OBSERVATION_MAX_S = 141"

definition EXPERIMENT_MAX_S :: int where "EXPERIMENT_MAX_S = 180"

definition SUP_LIVE_TOKEN :: string where
  "SUP_LIVE_TOKEN = ''AUTHORISE_PROMPT12_BOUNDED_SEQUENCE_LIVE''"

subsection \<open>Computations\<close>

text \<open>What the run does to the outside: it sleeps, starts a command with the time it leaves it,
  starts and ends the traffic.  A dispatched trigger is marked as such.\<close>

datatype sup_event = Slept rat | Ran json rat | Dispatched nat json rat | TrafficStarted json | TrafficEnded

record live_state =
  lreport :: obj
  ltrace :: "sup_event list"

type_synonym 'a sup = "live_state \<Rightarrow> (sup_error + 'a) \<times> live_state"

definition retS :: "'a \<Rightarrow> 'a sup" where
  "retS x s = (Inr x, s)"

definition failS :: "sup_error \<Rightarrow> 'a sup" where
  "failS e s = (Inl e, s)"

definition bindS :: "'a sup \<Rightarrow> ('a \<Rightarrow> 'b sup) \<Rightarrow> 'b sup" where
  "bindS m f s = (case m s of (Inl e, s') \<Rightarrow> (Inl e, s') | (Inr x, s') \<Rightarrow> f x s')"

definition liftS :: "sup_error + 'a \<Rightarrow> 'a sup" where
  "liftS r s = (r, s)"

definition emit :: "sup_event \<Rightarrow> unit sup" where
  "emit e s = (Inr (), s \<lparr>ltrace := ltrace s @ [e]\<rparr>)"

definition note_report :: "(obj \<Rightarrow> obj) \<Rightarrow> unit sup" where
  "note_report f s = (Inr (), s \<lparr>lreport := f (lreport s)\<rparr>)"

text \<open>\<open>try: m finally: fin\<close>: an exception of \<open>fin\<close> replaces the outcome of \<open>m\<close>.\<close>

definition finallyS :: "'a sup \<Rightarrow> unit sup \<Rightarrow> 'a sup" where
  "finallyS m fin s = (case m s of (r, s') \<Rightarrow>
     (case fin s' of (Inl e, s'') \<Rightarrow> (Inl e, s'') | (Inr _, s'') \<Rightarrow> (r, s'')))"

subsection \<open>The world\<close>

text \<open>A command ends with a code, its standard output and that output read as JSON, or its time
  runs out, or starting it raises.\<close>

datatype child_end = TimedOut | SpawnFails string | Exited int string "json option"

record cmd_answer =
  ca_clock :: rat
  ca_end :: child_end

record gate_try =
  gt_elapsed_clock :: rat
  gt_budget_clock :: rat
  gt_command :: cmd_answer

record transition_env =
  traffic_dead :: bool
  bind_answer :: cmd_answer
  trigger_answer :: cmd_answer
  post_started :: rat
  post_tries :: "nat \<Rightarrow> gate_try"

record live_env =
  live_enabled :: bool
  run_started :: rat
  traffic_error :: "string option"
  pre_started :: rat
  pre_tries :: "nat \<Rightarrow> gate_try"
  transition_envs :: "nat \<Rightarrow> transition_env"
  final_dead :: bool
  final_answer :: cmd_answer
  end_error :: "string option"

subsection \<open>Time\<close>

definition remaining :: "(rat \<Rightarrow> rat) \<Rightarrow> rat \<Rightarrow> rat \<Rightarrow> rat" where
  "remaining rnd t0 now = rnd (of_int EXPERIMENT_MAX_S - rnd (now - t0))"

definition require_remaining :: "(rat \<Rightarrow> rat) \<Rightarrow> rat \<Rightarrow> rat \<Rightarrow> string \<Rightarrow> rat sup" where
  "require_remaining rnd t0 now why =
     (if remaining rnd t0 now \<le> 0 then failS (Sup why 124) else retS (remaining rnd t0 now))"

definition phase_limit :: "string \<Rightarrow> sup_error + int" where
  "phase_limit role = (if role = ''pre'' then Inr PRE_MAX_S else if role = ''post'' then Inr POST_MAX_S
     else Inl (Sup (''PHASE_ROLE_INVALID:'' @ role) 64))"

definition validate_extension_count :: "nat \<Rightarrow> sup_error + unit" where
  "validate_extension_count n = ensure (n \<le> MAX_EXTENSIONS) ''MAX_STATIONARITY_EXTENSIONS_EXCEEDED'' 125"

definition wait_for_observation ::
    "(rat \<Rightarrow> rat) \<Rightarrow> rat \<Rightarrow> int \<Rightarrow> rat \<Rightarrow> string \<Rightarrow> gate_try \<Rightarrow> unit sup" where
  "wait_for_observation rnd t0 target phase_t0 role g =
     bindS (liftS (phase_limit role)) (\<lambda>limit.
     if limit < target then failS (Sup (if role = ''pre'' then ''PRE_STEP_TIMEOUT'' else ''POST_STEP_TIMEOUT'') 124)
     else (let elapsed = rnd (gt_elapsed_clock g - phase_t0);
               seconds = max 0 (rnd (of_int target - elapsed))
       in bindS (require_remaining rnd t0 (gt_budget_clock g) ''EXPERIMENT_TIMEOUT'') (\<lambda>left.
          if left < seconds then failS (Sup ''EXPERIMENT_TIMEOUT'' 124) else emit (Slept seconds))))"

subsection \<open>Commands\<close>

text \<open>\<open>run_command\<close>, as \<open>run_live\<close> calls it: no limit but the remaining time.  \<open>ev\<close> is the trace
  event of the start.\<close>

definition run_command ::
    "(rat \<Rightarrow> rat) \<Rightarrow> rat \<Rightarrow> (rat \<Rightarrow> sup_event) \<Rightarrow> string \<Rightarrow> cmd_answer \<Rightarrow> (string \<times> json option) sup" where
  "run_command rnd t0 ev why a =
     bindS (require_remaining rnd t0 (ca_clock a) ''EXPERIMENT_TIMEOUT'') (\<lambda>left.
     bindS (emit (ev left)) (\<lambda>_. case ca_end a of
         TimedOut \<Rightarrow> failS (Sup why 124)
       | SpawnFails t \<Rightarrow> failS (Escapes t)
       | Exited rc out js \<Rightarrow>
           if rc \<noteq> 0 then failS (Sup (why @ '':RC_'' @ show_int rc) rc) else retS (out, js)))"

definition read_gate :: "json option \<Rightarrow> sup_error + json" where
  "read_gate js = (case js of
       None \<Rightarrow> Inl (Sup ''STATIONARITY_OUTPUT_INVALID'' 65)
     | Some (JObj ob) \<Rightarrow> Inr (obj_get ob ''output_stationarity_gate'')
     | Some _ \<Rightarrow> Inl (Escapes ''AttributeError''))"

definition gate_attempt ::
    "(rat \<Rightarrow> rat) \<Rightarrow> rat \<Rightarrow> json \<Rightarrow> rat \<Rightarrow> string \<Rightarrow> (nat \<Rightarrow> gate_try) \<Rightarrow> nat \<Rightarrow> json sup" where
  "gate_attempt rnd t0 argv phase_t0 role tries ext =
     bindS (wait_for_observation rnd t0 ((if role = ''pre'' then PRE_MIN_S else POST_MIN_S)
       + int ext * EXTENSION_S) phase_t0 role (tries ext)) (\<lambda>_.
     bindS (run_command rnd t0 (Ran argv) ''STATIONARITY_EVALUATOR_FAILED'' (gt_command (tries ext)))
       (\<lambda>(out, js). liftS (read_gate js)))"

function stationarity_gate ::
    "(rat \<Rightarrow> rat) \<Rightarrow> rat \<Rightarrow> json \<Rightarrow> rat \<Rightarrow> string \<Rightarrow> (nat \<Rightarrow> gate_try) \<Rightarrow> nat \<Rightarrow> nat sup" where
  "stationarity_gate rnd t0 argv phase_t0 role tries ext =
     bindS (gate_attempt rnd t0 argv phase_t0 role tries ext) (\<lambda>gate.
       if py_eq gate (JStr ''PASS'') then retS ext
       else if \<not> py_eq gate (JStr ''FAIL'') then failS (Sup ''STATIONARITY_GATE_INVALID'' 65)
       else if MAX_EXTENSIONS \<le> ext then failS (Sup ''MAX_STATIONARITY_EXTENSIONS_EXCEEDED'' 125)
       else bindS (liftS (validate_extension_count (ext + 1))) (\<lambda>_.
         stationarity_gate rnd t0 argv phase_t0 role tries (ext + 1)))"
  by pat_completeness auto

termination
  by (relation "measure (\<lambda>(rnd, t0, argv, phase_t0, role, tries, ext). MAX_EXTENSIONS - ext)") auto

declare stationarity_gate.simps [simp del]

subsection \<open>The live run\<close>

definition bump :: "string \<Rightarrow> obj \<Rightarrow> obj" where
  "bump k ob = obj_set k (case obj_get ob k of JInt i \<Rightarrow> JInt (i + 1) | v \<Rightarrow> v) ob"

definition member :: "json \<Rightarrow> string \<Rightarrow> json sup" where
  "member v k = liftS (case v of
       JObj ob \<Rightarrow> (case map_of ob k of None \<Rightarrow> Inl (Escapes ''KeyError'') | Some w \<Rightarrow> Inr w)
     | _ \<Rightarrow> Inl (Escapes ''TypeError''))"

definition label_text :: "json \<Rightarrow> string" where
  "label_text v = (case v of JStr s \<Rightarrow> s | _ \<Rightarrow> [])"

definition dispatch :: "(rat \<Rightarrow> rat) \<Rightarrow> rat \<Rightarrow> nat \<Rightarrow> json \<Rightarrow> string \<Rightarrow> cmd_answer \<Rightarrow> unit sup" where
  "dispatch rnd t0 i t label a =
     bindS (note_report (bump ''TRIGGER_WRITE_ATTEMPT_COUNT'')) (\<lambda>_.
     bindS (note_report (obj_set ''SCIENTIFIC_TRIGGER_REPLAY_DECISION'' (JStr ''NEVER_AUTOMATICALLY_REPLAY''))) (\<lambda>_.
     bindS (member t ''trigger_command'') (\<lambda>trig.
     bindS (run_command rnd t0 (Dispatched i trig) (label @ ''_TRIGGER_FAILED'') a) (\<lambda>(out, js).
     bindS (note_report (bump ''TRIGGER_WRITE_SUCCESS_COUNT'')) (\<lambda>_.
     bindS (note_report (obj_set ''CONTROL_EXECUTED'' (JStr ''YES''))) (\<lambda>_.
     note_report (obj_set (label @ ''_TRIGGER_STDOUT'') (JStr (strip out)))))))))"

definition bind_ratio :: "(rat \<Rightarrow> rat) \<Rightarrow> rat \<Rightarrow> json \<Rightarrow> string \<Rightarrow> cmd_answer \<Rightarrow> unit sup" where
  "bind_ratio rnd t0 argv label a =
     bindS (run_command rnd t0 (Ran argv) (label @ ''_RATIO_BIND_FAILED'') a) (\<lambda>(out, js).
     if ''RATIO_BOUND=PASS'' \<notin> set (splitlines (strip out))
     then failS (Sup (label @ ''_RATIO_BIND_PASS_MARKER_MISSING'') 76)
     else note_report (obj_set (label @ ''_RATIO_BIND_STDOUT'') (JStr (strip out))))"

definition run_transition :: "(rat \<Rightarrow> rat) \<Rightarrow> rat \<Rightarrow> nat \<times> json \<Rightarrow> transition_env \<Rightarrow> nat sup" where
  "run_transition rnd t0 it e = (let i = fst it; t = snd it in
     if traffic_dead e then failS (Sup ''TRAFFIC_TERMINATED_BEFORE_TRIGGER'' 76)
     else bindS (member t ''ratio_bind_command'') (\<lambda>rb.
       bindS (member t ''label'') (\<lambda>l.
       bindS (bind_ratio rnd t0 rb (label_text l) (bind_answer e)) (\<lambda>_.
       bindS (dispatch rnd t0 i t (label_text l) (trigger_answer e)) (\<lambda>_.
       bindS (member t ''post_stationarity_command'') (\<lambda>po.
         stationarity_gate rnd t0 po (post_started e) ''post'' (post_tries e) 0))))))"

fun run_transitions ::
    "(rat \<Rightarrow> rat) \<Rightarrow> rat \<Rightarrow> (nat \<Rightarrow> transition_env) \<Rightarrow> (nat \<times> json) list \<Rightarrow> nat list sup" where
  "run_transitions rnd t0 envs [] = retS []"
| "run_transitions rnd t0 envs (it # its) =
     bindS (run_transition rnd t0 it (envs (fst it))) (\<lambda>n.
     bindS (run_transitions rnd t0 envs its) (\<lambda>ns. retS (n # ns)))"

text \<open>\<open>terminate_process\<close> of the running traffic.\<close>

definition terminate_process :: "string option \<Rightarrow> unit sup" where
  "terminate_process err = bindS (emit TrafficEnded) (\<lambda>_.
     case err of None \<Rightarrow> retS () | Some t \<Rightarrow> failS (Escapes t))"

definition plan_transitions :: "obj \<Rightarrow> json list" where
  "plan_transitions plan = (case obj_get plan ''transitions'' of JArr ts \<Rightarrow> ts | _ \<Rightarrow> [])"

text \<open>The body of the \<open>try\<close> up to and including the end of the traffic, and what comes after it,
  when \<open>traffic\<close> is \<open>None\<close> and the \<open>finally\<close> has nothing left to do.\<close>

definition supervised :: "(rat \<Rightarrow> rat) \<Rightarrow> live_env \<Rightarrow> obj \<Rightarrow> unit sup" where
  "supervised rnd env plan =
     bindS (stationarity_gate rnd (run_started env) (obj_get plan ''initial_stationarity_command'')
       (pre_started env) ''pre'' (pre_tries env) 0) (\<lambda>n.
     bindS (note_report (obj_set ''PRE_STEP_EXTENSION_COUNT'' (JInt (int n)))) (\<lambda>_.
     bindS (run_transitions rnd (run_started env) (transition_envs env)
       (zip [1..<Suc (length (plan_transitions plan))] (plan_transitions plan))) (\<lambda>counts.
     bindS (note_report (obj_set ''POST_STEP_EXTENSION_COUNTS'' (JArr (map (\<lambda>n. JInt (int n)) counts)))) (\<lambda>_.
     if final_dead env then failS (Sup ''TRAFFIC_TERMINATED_BEFORE_FINALIZATION'' 76) else retS ()))))"

definition finalize :: "(rat \<Rightarrow> rat) \<Rightarrow> live_env \<Rightarrow> obj \<Rightarrow> int sup" where
  "finalize rnd env plan =
     bindS (run_command rnd (run_started env) (Ran (obj_get plan ''finalization_command''))
       ''FINALIZATION_FAILED'' (final_answer env)) (\<lambda>_.
     bindS (note_report (obj_set ''SUPERVISOR_GATE'' (JStr ''PASS''))) (\<lambda>_.
     bindS (note_report (obj_set ''FAIL_CLOSED_REASON'' (JStr ''NONE''))) (\<lambda>_. retS 0)))"

definition sup_live :: "(rat \<Rightarrow> rat) \<Rightarrow> live_env \<Rightarrow> obj \<Rightarrow> string option \<Rightarrow> int sup" where
  "sup_live rnd env plan token =
     bindS (liftS (seqE [ensure (live_enabled env) ''LIVE_CONTROL_NOT_ENABLED'' 77,
       ensure (token = Some SUP_LIVE_TOKEN) ''LIVE_CONTROL_AUTHORIZATION_TOKEN_INVALID'' 77])) (\<lambda>_.
     bindS (case traffic_error env of Some t \<Rightarrow> failS (Escapes t)
       | None \<Rightarrow> emit (TrafficStarted (obj_get plan ''traffic_command''))) (\<lambda>_.
     bindS (finallyS (supervised rnd env plan) (terminate_process (end_error env))) (\<lambda>_.
       finalize rnd env plan)))"

subsection \<open>The command\<close>

datatype sup_mode = NoControlRun | LiveRun

definition sup_mode_name :: "sup_mode \<Rightarrow> string" where
  "sup_mode_name m = (case m of NoControlRun \<Rightarrow> ''no-control'' | LiveRun \<Rightarrow> ''live'')"

definition base_report :: "sup_mode \<Rightarrow> obj" where
  "base_report m = [
     (''schema'', JStr PLAN_SCHEMA),
     (''mode'', JStr (sup_mode_name m)),
     (''PRE_STEP_MAXIMUM_DURATION_S'', JInt PRE_MAX_S),
     (''POST_STEP_MAXIMUM_DURATION_S'', JInt POST_MAX_S),
     (''MAX_STATIONARITY_EXTENSIONS'', JInt (int MAX_EXTENSIONS)),
     (''OBSERVATION_BUDGET_MAXIMUM_S'', JInt OBSERVATION_MAX_S),
     (''EXPERIMENT_MAXIMUM_DURATION_S'', JInt EXPERIMENT_MAX_S),
     (''CONTROL_EXECUTED'', JStr ''NO''),
     (''TRIGGER_WRITE_ATTEMPT_COUNT'', JInt 0),
     (''TRIGGER_WRITE_SUCCESS_COUNT'', JInt 0),
     (''SCIENTIFIC_TRIGGER_REPLAY_DECISION'', JStr ''NOT_APPLICABLE_NO_WRITE_ATTEMPT''),
     (''SUPERVISOR_GATE'', JStr ''FAIL_CLOSED''),
     (''FAIL_CLOSED_REASON'', JStr ''NOT_STARTED'')]"

definition no_control_run :: "int sup" where
  "no_control_run =
     bindS (note_report (obj_set ''SUPERVISOR_GATE'' (JStr ''PASS''))) (\<lambda>_.
     bindS (note_report (obj_set ''FAIL_CLOSED_REASON'' (JStr ''NONE''))) (\<lambda>_.
     bindS (note_report (obj_set ''NO_CONTROL_DRY_RUN_GATE'' (JStr ''PASS''))) (\<lambda>_. retS 0)))"

text \<open>The exit code or the escaping exception, the report that was written, and the trace.  A
  report replaces an older one; an escaping exception writes none.\<close>

definition sup_main :: "(rat \<Rightarrow> rat) \<Rightarrow> live_env \<Rightarrow> loaded \<Rightarrow> sup_mode \<Rightarrow> string option \<Rightarrow> string option \<Rightarrow>
    (string + int) \<times> obj option \<times> sup_event list" where
  "sup_main rnd env file m token write_error =
     (let run = bindS (liftS (load_plan file)) (\<lambda>plan.
            case m of NoControlRun \<Rightarrow> no_control_run | LiveRun \<Rightarrow> sup_live rnd env plan token);
          finish = (\<lambda>rc s. case write_error of
              Some t \<Rightarrow> (Inl t, None, ltrace s) | None \<Rightarrow> (Inr rc, Some (lreport s), ltrace s))
      in case run \<lparr>lreport = base_report m, ltrace = []\<rparr> of
           (Inr rc, s) \<Rightarrow> finish rc s
         | (Inl (Sup why rc), s) \<Rightarrow> finish rc (s \<lparr>lreport := obj_set ''FAIL_CLOSED_REASON'' (JStr why)
               (obj_set ''SUPERVISOR_GATE'' (JStr ''FAIL_CLOSED'') (lreport s))\<rparr>)
         | (Inl (Escapes t), s) \<Rightarrow> (Inl t, None, ltrace s))"

subsection \<open>Results and events\<close>

text \<open>No decision of the run reads the report, so a computation has a result and a list of events
  of its own, whatever the state it is started in.\<close>

definition result_of :: "'a sup \<Rightarrow> sup_error + 'a" where
  "result_of m = fst (m \<lparr>lreport = [], ltrace = []\<rparr>)"

definition trace_of :: "'a sup \<Rightarrow> sup_event list" where
  "trace_of m = ltrace (snd (m \<lparr>lreport = [], ltrace = []\<rparr>))"

definition oblivious :: "'a sup \<Rightarrow> bool" where
  "oblivious m \<longleftrightarrow> (\<forall>s. fst (m s) = result_of m \<and> ltrace (snd (m s)) = ltrace s @ trace_of m)"

lemma obliviousI:
  "(\<And>s. fst (m s) = r) \<Longrightarrow> (\<And>s. ltrace (snd (m s)) = ltrace s @ es) \<Longrightarrow>
   oblivious m \<and> result_of m = r \<and> trace_of m = es"
  by (simp add: oblivious_def result_of_def trace_of_def)

lemma oblivious_basic:
  "oblivious (retS x) \<and> result_of (retS x) = Inr x \<and> trace_of (retS x) = []"
  "oblivious (failS e :: 'a sup) \<and> result_of (failS e :: 'a sup) = Inl e \<and> trace_of (failS e :: 'a sup) = []"
  "oblivious (liftS r) \<and> result_of (liftS r) = r \<and> trace_of (liftS r) = []"
  "oblivious (emit ev) \<and> result_of (emit ev) = Inr () \<and> trace_of (emit ev) = [ev]"
  "oblivious (note_report g) \<and> result_of (note_report g) = Inr () \<and> trace_of (note_report g) = []"
  by (rule obliviousI; simp add: retS_def failS_def liftS_def emit_def note_report_def)+

lemmas oblivious_rules [simp, sup_simps] = oblivious_basic [THEN conjunct1]
  oblivious_basic [THEN conjunct2, THEN conjunct1] oblivious_basic [THEN conjunct2, THEN conjunct2]

lemma oblivious_bindS:
  assumes "oblivious m" and "\<And>x. oblivious (f x)"
  shows "oblivious (bindS m f) \<and>
    result_of (bindS m f) = (case result_of m of Inl e \<Rightarrow> Inl e | Inr x \<Rightarrow> result_of (f x)) \<and>
    trace_of (bindS m f) = trace_of m @ (case result_of m of Inl e \<Rightarrow> [] | Inr x \<Rightarrow> trace_of (f x))"
proof (rule obliviousI)
  fix s :: live_state
  obtain r t where m: "m s = (r, t)" by (cases "m s")
  with assms(1) have mt: "r = result_of m" "ltrace t = ltrace s @ trace_of m"
    by (metis fst_conv oblivious_def, metis oblivious_def snd_conv)
  show "fst (bindS m f s) = (case result_of m of Inl e \<Rightarrow> Inl e | Inr x \<Rightarrow> result_of (f x))"
    using assms(2) by (cases r) (simp_all add: bindS_def m mt [symmetric] oblivious_def)
  show "ltrace (snd (bindS m f s)) =
    ltrace s @ trace_of m @ (case result_of m of Inl e \<Rightarrow> [] | Inr x \<Rightarrow> trace_of (f x))"
    using assms(2) mt by (cases r) (simp_all add: bindS_def m mt(1) [symmetric] oblivious_def)
qed

lemmas bindS_rules [simp, sup_simps] = oblivious_bindS [THEN conjunct1]
  oblivious_bindS [THEN conjunct2, THEN conjunct1] oblivious_bindS [THEN conjunct2, THEN conjunct2]

lemma oblivious_finallyS:
  assumes "oblivious m" and "oblivious fin"
  shows "oblivious (finallyS m fin) \<and>
    result_of (finallyS m fin) = (case result_of fin of Inl e \<Rightarrow> Inl e | Inr _ \<Rightarrow> result_of m) \<and>
    trace_of (finallyS m fin) = trace_of m @ trace_of fin"
proof (rule obliviousI)
  fix s :: live_state
  obtain r t where m: "m s = (r, t)" by (cases "m s")
  obtain r' t' where f: "fin t = (r', t')" by (cases "fin t")
  have mt: "r = result_of m" "ltrace t = ltrace s @ trace_of m"
    using assms(1) m by (metis fst_conv oblivious_def, metis oblivious_def snd_conv)
  have ft: "r' = result_of fin" "ltrace t' = ltrace t @ trace_of fin"
    using assms(2) f by (metis fst_conv oblivious_def, metis oblivious_def snd_conv)
  show "fst (finallyS m fin s) = (case result_of fin of Inl e \<Rightarrow> Inl e | Inr _ \<Rightarrow> result_of m)"
    by (cases r') (simp_all add: finallyS_def m f mt(1) [symmetric] ft(1) [symmetric])
  show "ltrace (snd (finallyS m fin s)) = ltrace s @ trace_of m @ trace_of fin"
    by (cases r') (simp_all add: finallyS_def m f mt(2) ft(2))
qed

lemmas finallyS_rules [simp, sup_simps] = oblivious_finallyS [THEN conjunct1]
  oblivious_finallyS [THEN conjunct2, THEN conjunct1] oblivious_finallyS [THEN conjunct2, THEN conjunct2]

lemma oblivious_if [simp]: "oblivious m \<Longrightarrow> oblivious m' \<Longrightarrow> oblivious (if c then m else m')"
  by simp

lemma oblivious_require_remaining [simp]: "oblivious (require_remaining rnd t0 now why)"
  by (simp add: require_remaining_def)

lemma result_require_remaining [simp]:
  "result_of (require_remaining rnd t0 now why) =
     (if remaining rnd t0 now \<le> 0 then Inl (Sup why 124) else Inr (remaining rnd t0 now))"
  "trace_of (require_remaining rnd t0 now why) = []"
  by (simp_all add: require_remaining_def)

lemma oblivious_wait [simp]: "oblivious (wait_for_observation rnd t0 target p0 role g)"
  by (simp add: wait_for_observation_def Let_def)

lemma oblivious_command_tail [simp]:
  "oblivious (case a of TimedOut \<Rightarrow> failS (Sup why 124) | SpawnFails t \<Rightarrow> failS (Escapes t)
     | Exited rc out js \<Rightarrow> if rc \<noteq> 0 then failS (Sup (why @ '':RC_'' @ show_int rc) rc) else retS (out, js))"
  by (cases a) simp_all

lemma oblivious_run_command [simp]: "oblivious (run_command rnd t0 ev why a)"
  by (simp add: run_command_def)

lemma oblivious_pair [simp]: "(\<And>x y. oblivious (f x y)) \<Longrightarrow> oblivious (case z of (x, y) \<Rightarrow> f x y)"
  by (cases z) simp

lemma oblivious_attempt [simp]: "oblivious (gate_attempt rnd t0 argv p0 role tries ext)"
  by (simp add: gate_attempt_def)

lemma oblivious_gate [simp]: "oblivious (stationarity_gate rnd t0 argv p0 role tries ext)"
proof (induction rnd t0 argv p0 role tries ext rule: stationarity_gate.induct)
  case (1 rnd t0 argv p0 role tries ext)
  then show ?case by (subst stationarity_gate.simps) (simp add: not_le)
qed

lemma oblivious_member [simp]: "oblivious (member v k)"
  by (simp add: member_def)

lemma oblivious_dispatch [simp]: "oblivious (dispatch rnd t0 i t label a)"
  by (simp add: dispatch_def)

lemma oblivious_bind_ratio [simp]: "oblivious (bind_ratio rnd t0 argv label a)"
  by (simp add: bind_ratio_def)

lemma oblivious_transition [simp]: "oblivious (run_transition rnd t0 it e)"
  by (simp add: run_transition_def Let_def)

lemma oblivious_transitions [simp]: "oblivious (run_transitions rnd t0 envs its)"
  by (induction its) simp_all

lemma oblivious_terminate [simp]: "oblivious (terminate_process err)"
  by (simp add: terminate_process_def split: option.splits)

lemma terminate_simps [simp]:
  "trace_of (terminate_process err) = [TrafficEnded]"
  "result_of (terminate_process err) = (case err of None \<Rightarrow> Inr () | Some t \<Rightarrow> Inl (Escapes t))"
  by (cases err; simp add: terminate_process_def)+

lemma oblivious_supervised [simp]: "oblivious (supervised rnd env plan)"
  by (simp add: supervised_def)

lemma oblivious_finalize [simp]: "oblivious (finalize rnd env plan)"
  by (simp add: finalize_def)

lemma oblivious_live [simp]: "oblivious (sup_live rnd env plan token)"
  by (simp add: sup_live_def split: option.splits)

end
