(* ===== verification/Six_Transitions.thy ===== *)
theory Six_Transitions
  imports Receiver_Canonical
begin

section \<open>The six-transition dry run\<close>

text \<open>
  \<^verbatim>\<open>scripts/experiment-harness/prompt12-six-transition-orchestrator.py\<close>: given the gate of the
  initial phase and the gates of the six post-step phases, which of the six controls would be
  admitted, and whether the sequence is complete.  It starts nothing; it is the specification of
  the order in which gates admit controls.
\<close>

definition transition_of_plan :: "nat \<Rightarrow> int \<Rightarrow> int \<Rightarrow> int \<Rightarrow> int \<Rightarrow> json" where
  "transition_of_plan i r r' p p' = JObj [(''transition_label'', JStr (''T'' @ show_nat i)),
     (''from_ratio_pct'', JInt r), (''to_ratio_pct'', JInt r'), (''from_prbs'', JInt p),
     (''to_prbs'', JInt p')]"

definition EXPECTED_TRANSITIONS :: "json list" where
  "EXPECTED_TRANSITIONS = [transition_of_plan 1 25 50 13 26, transition_of_plan 2 50 75 26 39,
     transition_of_plan 3 75 100 39 52, transition_of_plan 4 100 75 52 39,
     transition_of_plan 5 75 50 39 26, transition_of_plan 6 50 25 26 13]"

definition REPEAT_TO_MODEL_USE :: "(string \<times> string) list" where
  "REPEAT_TO_MODEL_USE = [(''R01'', ''estimation''), (''R02'', ''estimation''),
     (''R03'', ''estimation''), (''R04'', ''holdout_validation'')]"

record dry_args =
  dry_experiment :: string
  dry_run_id :: string
  dry_repeat :: string
  initial_gate :: string
  post_gates_text :: string

subsection \<open>Inputs\<close>

text \<open>\<open>EXPERIMENT_RE.fullmatch\<close> with its group: the repeat.\<close>

definition experiment_repeat :: "string \<Rightarrow> string option" where
  "experiment_repeat s = (case Option.bind (Option.bind (literal_at ''EXP-'' s) (digits_only 8))
       (literal_at ''-DL-18000K-'') of None \<Rightarrow> None
     | Some r \<Rightarrow> if r \<in> {''R01'', ''R02'', ''R03'', ''R04''} then Some r else None)"

definition validate_dry_identity :: "string \<Rightarrow> string \<Rightarrow> string \<Rightarrow> unit result" where
  "validate_dry_identity ex run rep = (case experiment_repeat ex of
       None \<Rightarrow> Inl (Domain ''invalid Prompt-12 experiment_id'')
     | Some r \<Rightarrow> seqE [
         require (r = rep) ''experiment_id repeat does not match repeat-id'',
         require (RUN_RE run) ''invalid Prompt-12 run_id''])"

text \<open>A \<open>KeyError\<close> on the way to the constant is the script's own error, anything else escapes.\<close>

definition load_schema_transition_plan :: "loaded \<Rightarrow> json list result" where
  "load_schema_transition_plan f = (case f of
       FileMissing \<Rightarrow> Inl (PyExn ''FileNotFoundError'')
     | FileRaises t \<Rightarrow> Inl (PyExn t)
     | FileJson v \<Rightarrow> (case bindE (idx v ''$defs'') (\<lambda>d. bindE (idx d ''transitionPlan'') (\<lambda>p. idx p ''const'')) of
         Inl e \<Rightarrow> Inl (if e = PyExn ''KeyError'' then Domain ''schema transitionPlan contract missing'' else e)
       | Inr plan \<Rightarrow> (case plan of
           JArr ts \<Rightarrow> if py_eq (JArr ts) (JArr EXPECTED_TRANSITIONS) then Inr ts
             else Inl (Domain ''schema transitionPlan differs from frozen T1-T6 contract'')
         | _ \<Rightarrow> Inl (Domain ''schema transitionPlan differs from frozen T1-T6 contract''))))"

text \<open>\<open>str.upper\<close>: of the characters beyond ASCII only the sharp s, which becomes two letters,
  can contribute to one of the two gate values; the others are left as they are.\<close>

definition upper_char :: "char \<Rightarrow> string" where
  "upper_char c = (let n = (of_char c :: nat) in
     if 97 \<le> n \<and> n \<le> 122 then [char_of (n - 32)] else if n = 223 then ''SS'' else [c])"

definition upper :: "string \<Rightarrow> string" where
  "upper s = concat (map upper_char s)"

definition gate_value :: "nat \<times> string \<Rightarrow> unit result" where
  "gate_value = (\<lambda>(i, v). require (v \<in> {''PASS'', ''FAIL''})
     (''invalid post-stationarity gate at index '' @ show_nat i))"

definition parse_post_gates :: "string \<Rightarrow> string list result" where
  "parse_post_gates text = (let vs = map (\<lambda>s. upper (strip s)) (split_on (CHR '','') text) in
     bindE (require (length vs = 6) ''post-stationarity-gates must contain exactly six values'') (\<lambda>_.
     bindE (seqE (map gate_value (zip [1..<7] vs))) (\<lambda>_. Inr vs)))"

subsection \<open>The sequence\<close>

definition make_control_plan :: "json \<Rightarrow> nat \<Rightarrow> string \<Rightarrow> string \<Rightarrow> json" where
  "make_control_plan t i source gate = JObj [
     (''control_index'', JInt (int i)),
     (''transition_label'', field_of t ''transition_label''),
     (''from_ratio_pct'', field_of t ''from_ratio_pct''),
     (''to_ratio_pct'', field_of t ''to_ratio_pct''),
     (''from_prbs'', field_of t ''from_prbs''),
     (''to_prbs'', field_of t ''to_prbs''),
     (''admission_source'', JStr source),
     (''admission_gate'', JStr gate),
     (''control_time_origin'', JStr ''applied_readback''),
     (''ack_as_time_origin'', JBool False),
     (''execution_mode'', JStr ''DRY_RUN_NO_CONTROL_EXECUTION'')]"

definition admission_source :: "json list \<Rightarrow> nat \<Rightarrow> string" where
  "admission_source plan i = (if i = 0 then ''initial_pre_step_stationarity''
     else ''post_'' @ py_str (field_of (plan ! (i - 1)) ''transition_label'') @ ''_stationarity'')"

definition blocked_report :: "nat \<Rightarrow> json \<Rightarrow> json \<Rightarrow> string \<Rightarrow> string \<Rightarrow> json list \<Rightarrow> obj" where
  "blocked_report n before completion source gate controls = [
     (''sequence_gate'', JStr ''BLOCKED''), (''sequence_complete'', JBool False),
     (''admitted_control_count'', JInt (int n)), (''blocked_before_control'', before),
     (''blocked_completion_point'', completion), (''blocking_gate_source'', JStr source),
     (''blocking_gate_value'', JStr gate), (''controls'', JArr controls)]"

text \<open>One turn of the loop: the early return is the exceptional result.\<close>

definition admit_step :: "json list \<Rightarrow> string \<Rightarrow> string list \<Rightarrow> json list \<Rightarrow> nat \<times> json \<Rightarrow> obj + json list" where
  "admit_step plan initial posts admitted it = (case it of (i, t) \<Rightarrow>
     let gate = (if i = 0 then initial else posts ! (i - 1)); source = admission_source plan i
     in if gate \<noteq> ''PASS''
        then Inl (blocked_report (length admitted) (field_of t ''transition_label'') JNull source gate admitted)
        else Inr (admitted @ [make_control_plan t (i + 1) source gate]))"

definition evaluate_sequence :: "json list \<Rightarrow> string \<Rightarrow> string list \<Rightarrow> obj" where
  "evaluate_sequence plan initial posts =
     (case foldE (admit_step plan initial posts) [] (zip [0..<length plan] plan) of
        Inl report \<Rightarrow> report
      | Inr controls \<Rightarrow>
          if posts ! 5 \<noteq> ''PASS''
          then blocked_report 6 JNull (JStr ''POST_T6_COMPLETION'') ''post_T6_stationarity'' (posts ! 5) controls
          else [(''sequence_gate'', JStr ''PASS''), (''sequence_complete'', JBool True),
             (''admitted_control_count'', JInt 6), (''blocked_before_control'', JNull),
             (''blocked_completion_point'', JNull), (''blocking_gate_source'', JNull),
             (''blocking_gate_value'', JNull), (''controls'', JArr controls)])"

definition report_head :: "dry_args \<Rightarrow> json list \<Rightarrow> string list \<Rightarrow> obj" where
  "report_head a plan posts = [
     (''schema'', JStr ''sci_oran_prompt12_six_transition_dry_run_orchestration_v1''),
     (''mode'', JStr ''dry-run''),
     (''experiment_id'', JStr (dry_experiment a)),
     (''run_id'', JStr (dry_run_id a)),
     (''repeat_id'', JStr (dry_repeat a)),
     (''model_use_class'', (case map_of REPEAT_TO_MODEL_USE (dry_repeat a) of Some u \<Rightarrow> JStr u | None \<Rightarrow> JNull)),
     (''initial_ratio_pct'', JInt 25),
     (''initial_prbs'', JInt 13),
     (''expected_control_count'', JInt 6),
     (''transition_labels'', JArr (map (\<lambda>t. field_of t ''transition_label'') plan)),
     (''control_target_ratios'', JArr (map (\<lambda>t. field_of t ''to_ratio_pct'') plan)),
     (''control_target_prbs'', JArr (map (\<lambda>t. field_of t ''to_prbs'') plan)),
     (''traffic_stream_count'', JInt 1),
     (''traffic_continuity_required'', JBool True),
     (''receiver_continuity_required'', JBool True),
     (''initial_admission'', JStr ''STARTUP_GUARD_PLUS_OUTPUT_STATIONARITY_PASS''),
     (''intermediate_admission'', JStr ''PREVIOUS_POST_STEP_STATIONARITY_PASS''),
     (''additional_startup_guard_between_transitions'', JBool False),
     (''next_control_without_stationarity_pass'', JBool False),
     (''control_time_origin'', JStr ''applied_readback''),
     (''ack_as_time_origin'', JBool False),
     (''live_control_allowed'', JBool False),
     (''live_traffic_allowed'', JBool False),
     (''docker_mutation_allowed'', JBool False),
     (''initial_stationarity_gate'', JStr (initial_gate a)),
     (''post_stationarity_gates'', JArr (map JStr posts))]"

definition build_report :: "dry_args \<Rightarrow> json list \<Rightarrow> string list \<Rightarrow> obj" where
  "build_report a plan posts =
     obj_update (report_head a plan posts) (evaluate_sequence plan (initial_gate a) posts)"

text \<open>The command: \<open>argparse\<close> has checked the repeat and the initial gate.  An output that exists
  is refused after everything else.\<close>

definition dry_main :: "loaded \<Rightarrow> bool \<Rightarrow> string option \<Rightarrow> dry_args \<Rightarrow> int result \<times> obj option" where
  "dry_main schema exists write_error a =
     (case bindE (validate_dry_identity (dry_experiment a) (dry_run_id a) (dry_repeat a)) (\<lambda>_.
        bindE (load_schema_transition_plan schema) (\<lambda>plan.
        bindE (parse_post_gates (post_gates_text a)) (\<lambda>posts.
        bindE (require (\<not> exists) ''output already exists'') (\<lambda>_.
          case write_error of Some t \<Rightarrow> Inl (PyExn t)
          | None \<Rightarrow> Inr (build_report a plan posts)))))
      of Inl (Domain m) \<Rightarrow> (Inr 64, None)
       | Inl e \<Rightarrow> (Inl e, None)
       | Inr r \<Rightarrow> (Inr (if obj_get r ''sequence_gate'' = JStr ''PASS'' then 0 else 20), Some r))"

subsection \<open>What is admitted\<close>

text \<open>The number of gates that are passed in a row, the initial one first.\<close>

definition passed_in_a_row :: "string list \<Rightarrow> nat" where
  "passed_in_a_row gates = length (takeWhile (\<lambda>g. g = ''PASS'') gates)"

lemma passed_Cons [simp]:
  "passed_in_a_row (g # gs) = (if g = ''PASS'' then Suc (passed_in_a_row gs) else 0)"
  "passed_in_a_row [] = 0"
  by (simp_all add: passed_in_a_row_def)

lemma foldE_admit:
  assumes "length plan = 6" "length posts = 6"
  shows "foldE (admit_step plan initial posts) [] (zip [0..<6] plan) =
    (let n = passed_in_a_row (initial # posts);
         control = (\<lambda>i. make_control_plan (plan ! i) (i + 1) (admission_source plan i) ''PASS'')
     in if 6 \<le> n then Inr (map control [0..<6])
        else Inl (blocked_report n (field_of (plan ! n) ''transition_label'') JNull
          (admission_source plan n) ((initial # posts) ! n) (map control [0..<n])))"
proof -
  from assms(1) obtain t0 t1 t2 t3 t4 t5 where p: "plan = [t0, t1, t2, t3, t4, t5]"
    by (auto simp: numeral_eq_Suc length_Suc_conv)
  from assms(2) obtain g1 g2 g3 g4 g5 g6 where g: "posts = [g1, g2, g3, g4, g5, g6]"
    by (auto simp: numeral_eq_Suc length_Suc_conv)
  have u: "[0..<6] = [0, 1, 2, 3, 4, 5 :: nat]" by (simp add: upt_rec)
  show ?thesis
    unfolding u by (simp add: p g admit_step_def Let_def upt_rec numeral_eq_Suc)
qed

definition admitted_control :: "json list \<Rightarrow> nat \<Rightarrow> json" where
  "admitted_control plan i = make_control_plan (plan ! i) (i + 1) (admission_source plan i) ''PASS''"

lemma passed_le: "passed_in_a_row gs \<le> length gs"
  by (simp add: passed_in_a_row_def length_takeWhile_le)

lemma passed_last: "length gs = Suc n \<Longrightarrow> n \<le> passed_in_a_row gs \<Longrightarrow> gs ! n = ''PASS'' \<longleftrightarrow> passed_in_a_row gs = Suc n"
proof (induction gs arbitrary: n)
  case Nil
  then show ?case by simp
next
  case (Cons g gs)
  then show ?case by (cases n) (auto split: if_splits)
qed

text \<open>The report of the sequence, from the number of gates passed in a row.\<close>

lemma evaluate_sequence_prefix:
  fixes initial :: string
  assumes "length plan = 6" "length posts = 6"
  defines "n \<equiv> passed_in_a_row (initial # posts)"
  shows "obj_get (evaluate_sequence plan initial posts) ''admitted_control_count'' = JInt (int (min 6 n)) \<and>
    obj_get (evaluate_sequence plan initial posts) ''controls'' =
      JArr (map (admitted_control plan) [0..<min 6 n]) \<and>
    (obj_get (evaluate_sequence plan initial posts) ''sequence_gate'' = JStr ''PASS'' \<longleftrightarrow> n = 7)"
proof -
  have f: "foldE (admit_step plan initial posts) [] (zip [0..<6] plan) =
    (if 6 \<le> n then Inr (map (admitted_control plan) [0..<6])
     else Inl (blocked_report n (field_of (plan ! n) ''transition_label'') JNull (admission_source plan n)
       ((initial # posts) ! n) (map (admitted_control plan) [0..<n])))"
    unfolding n_def admitted_control_def [abs_def] using foldE_admit [OF assms(1,2), of initial]
    by (simp only: Let_def)
  show ?thesis
  proof (cases "6 \<le> n")
    case True
    have "(initial # posts) ! 6 = ''PASS'' \<longleftrightarrow> n = Suc 6"
      unfolding n_def by (rule passed_last) (use True assms(2) in \<open>simp_all add: n_def\<close>)
    then have "posts ! 5 = ''PASS'' \<longleftrightarrow> n = 7" by (simp add: numeral_eq_Suc)
    with True show ?thesis by (simp add: evaluate_sequence_def assms(1) f blocked_report_def)
  next
    case False
    then show ?thesis by (simp add: evaluate_sequence_def assms(1) f blocked_report_def)
  qed
qed

lemma schema_plan_length:
  assumes "load_schema_transition_plan f = Inr plan"
  shows "length plan = 6 \<and> py_eq (JArr plan) (JArr EXPECTED_TRANSITIONS)"
proof -
  from assms have e: "py_eq (JArr plan) (JArr EXPECTED_TRANSITIONS)"
    by (auto simp: load_schema_transition_plan_def simp del: bindE_Inr_iff
      split: loaded.splits sum.splits json.splits if_splits)
  then have "length plan = length EXPECTED_TRANSITIONS" by (auto dest: list_all2_lengthD)
  with e show ?thesis by (simp add: EXPECTED_TRANSITIONS_def)
qed

lemma post_gates_length: "parse_post_gates text = Inr posts \<Longrightarrow> length posts = 6"
  by (auto simp: parse_post_gates_def Let_def)

lemma build_report_get:
  assumes "length plan = 6" "length posts = 6"
    and k: "k \<in> {''controls'', ''admitted_control_count'', ''sequence_gate''}"
  shows "obj_get (build_report a plan posts) k = obj_get (evaluate_sequence plan (initial_gate a) posts) k"
proof -
  define ev where "ev = evaluate_sequence plan (initial_gate a) posts"
  have d: "distinct (map fst ev)"
    using foldE_admit [OF assms(1,2), of "initial_gate a"] assms(1)
    by (auto simp: ev_def evaluate_sequence_def blocked_report_def Let_def)
  have "k \<notin> fst ` set (report_head a plan posts)" using k by (auto simp: report_head_def)
  then have "obj_get (report_head a plan posts) k = JNull"
    by (simp add: obj_get_def map_of_eq_None_iff [symmetric])
  then show ?thesis
    unfolding build_report_def ev_def [symmetric] obj_get_update [OF d]
    by (simp add: obj_get_def [of ev] split: option.split)
qed

text \<open>C32: the dry run admits exactly the controls before the first gate that is not \<open>PASS\<close>, in
  the order of the plan, and ends with code 0 exactly when all seven gates are \<open>PASS\<close>, with 20
  otherwise.\<close>

theorem dry_run_admits_prefix:
  assumes "dry_main schema exists err a = (Inr rc, Some r)"
  shows "\<exists>plan posts n. load_schema_transition_plan schema = Inr plan \<and>
    parse_post_gates (post_gates_text a) = Inr posts \<and> n = passed_in_a_row (initial_gate a # posts) \<and>
    obj_get r ''controls'' = JArr (map (admitted_control plan) [0..<min 6 n]) \<and>
    obj_get r ''admitted_control_count'' = JInt (int (min 6 n)) \<and> rc = (if n = 7 then 0 else 20)"
proof -
  from assms obtain plan posts where
    p: "load_schema_transition_plan schema = Inr plan" "parse_post_gates (post_gates_text a) = Inr posts"
    and r: "r = build_report a plan posts"
    and rc: "rc = (if obj_get r ''sequence_gate'' = JStr ''PASS'' then 0 else 20)"
    by (auto simp: dry_main_def simp del: bindE_Inr_iff split: sum.splits exn.splits option.splits)
      (auto split: option.splits)
  note e = evaluate_sequence_prefix [OF conjunct1 [OF schema_plan_length [OF p(1)]]
      post_gates_length [OF p(2)], of "initial_gate a"]
  have g: "obj_get r k = obj_get (evaluate_sequence plan (initial_gate a) posts) k"
    if "k \<in> {''controls'', ''admitted_control_count'', ''sequence_gate''}" for k
    unfolding r by (rule build_report_get [OF conjunct1 [OF schema_plan_length [OF p(1)]]
      post_gates_length [OF p(2)] that])
  define n where "n = passed_in_a_row (initial_gate a # posts)"
  from e [folded n_def] have e1:
      "obj_get (evaluate_sequence plan (initial_gate a) posts) ''admitted_control_count'' = JInt (int (min 6 n))"
    and e2: "obj_get (evaluate_sequence plan (initial_gate a) posts) ''controls'' =
      JArr (map (admitted_control plan) [0..<min 6 n])"
    and e3: "obj_get (evaluate_sequence plan (initial_gate a) posts) ''sequence_gate'' = JStr ''PASS'' \<longleftrightarrow> n = 7"
    by blast+
  have "obj_get r ''controls'' = JArr (map (admitted_control plan) [0..<min 6 n])"
    by (rule trans [OF g e2]) blast
  moreover have "obj_get r ''admitted_control_count'' = JInt (int (min 6 n))"
    by (rule trans [OF g e1]) blast
  moreover have "rc = (if n = 7 then 0 else 20)"
    unfolding rc e3 [symmetric] by (subst g) (blast, rule refl)
  ultimately show ?thesis using p n_def by blast
qed

text \<open>A dry run whose third phase fails.\<close>

definition sample_schema :: loaded where
  "sample_schema = FileJson (JObj [(''$defs'', JObj [(''transitionPlan'',
     JObj [(''const'', JArr EXPECTED_TRANSITIONS)])])])"

definition sample_dry :: dry_args where
  "sample_dry = \<lparr>dry_experiment = ''EXP-20260101-DL-18000K-R01'',
     dry_run_id = ''RUN-20260101T000000Z-001'', dry_repeat = ''R01'', initial_gate = ''PASS'',
     post_gates_text = ''pass, PASS,FAIL,PASS,PASS,PASS''\<rparr>"

lemma sample_dry_inputs:
  "validate_dry_identity (dry_experiment sample_dry) (dry_run_id sample_dry) (dry_repeat sample_dry) = Inr ()"
  "load_schema_transition_plan sample_schema = Inr EXPECTED_TRANSITIONS"
  "parse_post_gates (post_gates_text sample_dry) =
     Inr [''PASS'', ''PASS'', ''FAIL'', ''PASS'', ''PASS'', ''PASS'']"
proof -
  show "validate_dry_identity (dry_experiment sample_dry) (dry_run_id sample_dry) (dry_repeat sample_dry) = Inr ()"
    by (simp add: validate_dry_identity_def experiment_repeat_def RUN_RE_def literal_at_def digits_only_def
      digits_at_def starts_with_def is_digit_def sample_dry_def)
  have "py_eq (JArr EXPECTED_TRANSITIONS) (JArr EXPECTED_TRANSITIONS)"
    by (simp add: EXPECTED_TRANSITIONS_def transition_of_plan_def)
  then show "load_schema_transition_plan sample_schema = Inr EXPECTED_TRANSITIONS"
    by (simp add: load_schema_transition_plan_def sample_schema_def idx_def obj_idx_def del: py_eq.simps)
  show "parse_post_gates (post_gates_text sample_dry) =
     Inr [''PASS'', ''PASS'', ''FAIL'', ''PASS'', ''PASS'', ''PASS'']"
    by code_simp
qed

lemma sample_dry_blocked:
  "\<exists>r. dry_main sample_schema False None sample_dry = (Inr 20, Some r) \<and>
     obj_get r ''admitted_control_count'' = JInt 3"
proof -
  let ?posts = "[''PASS'', ''PASS'', ''FAIL'', ''PASS'', ''PASS'', ''PASS'']"
  let ?r = "build_report sample_dry EXPECTED_TRANSITIONS ?posts"
  have l: "length EXPECTED_TRANSITIONS = 6" "length ?posts = 6" by (simp_all add: EXPECTED_TRANSITIONS_def)
  let ?ev = "evaluate_sequence EXPECTED_TRANSITIONS (initial_gate sample_dry) ?posts"
  have n: "passed_in_a_row (initial_gate sample_dry # ?posts) = 3" by (simp add: sample_dry_def)
  note e = evaluate_sequence_prefix [OF l, of "initial_gate sample_dry", unfolded n]
  have "obj_get ?r ''sequence_gate'' = obj_get ?ev ''sequence_gate''"
    "obj_get ?r ''admitted_control_count'' = obj_get ?ev ''admitted_control_count''"
    by (rule build_report_get [OF l], blast)+
  moreover have "obj_get ?ev ''sequence_gate'' \<noteq> JStr ''PASS''" using e by linarith
  moreover have "obj_get ?ev ''admitted_control_count'' = JInt 3"
    using conjunct1 [OF e] by (rule trans) simp
  ultimately have g: "obj_get ?r ''sequence_gate'' \<noteq> JStr ''PASS''"
    "obj_get ?r ''admitted_control_count'' = JInt 3" by (simp_all only: not_False_eq_True)
  have "dry_main sample_schema False None sample_dry = (Inr 20, Some ?r)"
    unfolding dry_main_def sample_dry_inputs bindE_simps using g(1) by simp
  with g(2) show ?thesis by blast
qed

theorem dry_run_admits_prefix_witness:
  "\<exists>r plan. dry_main sample_schema False None sample_dry = (Inr 20, Some r) \<and>
     obj_get r ''controls'' = JArr (map (admitted_control plan) [0..<3])"
proof -
  from sample_dry_blocked obtain r where r: "dry_main sample_schema False None sample_dry = (Inr 20, Some r)"
    "obj_get r ''admitted_control_count'' = JInt 3"
    by blast
  from dry_run_admits_prefix [OF r(1)] obtain plan n where
    c: "obj_get r ''controls'' = JArr (map (admitted_control plan) [0..<min 6 n])"
    and "obj_get r ''admitted_control_count'' = JInt (int (min 6 n))" by blast
  with r(2) have "int (min 6 n) = 3" by (metis json.inject(2))
  then have "min 6 n = 3" by linarith
  with c have "obj_get r ''controls'' = JArr (map (admitted_control plan) [0..<3])" by metis
  with r(1) show ?thesis by blast
qed

end
