(* ===== verification/Sequence_Properties.thy ===== *)
theory Sequence_Properties
  imports Sequence_Supervisor Six_Transitions
begin

section \<open>Properties of the bounded sequence\<close>

text \<open>
  What a plan of the builder guarantees the supervisor, what the supervisor's trace and report
  look like whatever the world does, and that the controls it dispatches are those the
  six-transition dry run admits on the same gates.
\<close>

subsection \<open>The plan\<close>

definition manifest_transition :: "json \<Rightarrow> nat \<Rightarrow> json" where
  "manifest_transition m i = (case field_of m ''transitions'' of JArr ts \<Rightarrow> ts ! i | _ \<Rightarrow> JNull)"

lemma build_transition_keeps:
  "build_transition (i, v) = Inr w \<Longrightarrow>
   k \<in> {''ratio_bind_command'', ''trigger_command'', ''post_stationarity_command''} \<Longrightarrow>
   field_of w k = field_of v k"
  by (auto simp: build_transition_def Let_def validate_command_Inr require_exact_keys_def field_of_def
    split: json.splits)

lemma build_plan_source:
  assumes "build_plan m = Inr plan"
  shows "\<exists>ts built. field_of m ''transitions'' = JArr ts \<and> length ts = 6 \<and>
    mapE build_transition (zip [0..<length ts] ts) = Inr built \<and>
    plan = [(''schema'', JStr PLAN_SCHEMA), (''traffic_command'', field_of m ''traffic_command''),
       (''initial_stationarity_command'', field_of m ''initial_stationarity_command''),
       (''finalization_command'', field_of m ''finalization_command''), (''transitions'', JArr built)]"
proof -
  from assms obtain ob where m: "require_exact_keys m MANIFEST_KEYS ''binding manifest'' = Inr ob"
    and body: "(case obj_get ob ''transitions'' of
       JArr ts \<Rightarrow>
         bindE (require (length ts = length TRANSITION_LABELS) ''exactly six transitions are required'') (\<lambda>_.
         bindE (mapE build_transition (zip [0..<length ts] ts)) (\<lambda>built.
         bindE (validate_command (obj_get ob ''traffic_command'') ''traffic_command'') (\<lambda>tc.
         bindE (validate_command (obj_get ob ''initial_stationarity_command'')
           ''initial_stationarity_command'') (\<lambda>ic.
         bindE (validate_command (obj_get ob ''finalization_command'') ''finalization_command'') (\<lambda>fc.
         Inr [(''schema'', JStr PLAN_SCHEMA), (''traffic_command'', tc),
           (''initial_stationarity_command'', ic), (''finalization_command'', fc),
           (''transitions'', JArr built)])))))
     | _ \<Rightarrow> Inl (Domain ''transitions must be an array'')) = Inr plan"
    unfolding build_plan_def bindE_Inr_iff by blast
  from m have mo: "m = JObj ob"
    by (cases m) (simp_all add: require_exact_keys_def Let_def)
  show ?thesis
  proof (cases "obj_get ob ''transitions''")
    case (JArr ts)
    from body [unfolded JArr json.case bindE_Inr_iff validate_command_Inr] obtain u v where
      "require (length ts = length TRANSITION_LABELS) ''exactly six transitions are required'' = Inr u"
      and b: "mapE build_transition (zip [0..<length ts] ts) = Inr v"
      and p: "Inr [(''schema'', JStr PLAN_SCHEMA), (''traffic_command'', obj_get ob ''traffic_command''),
           (''initial_stationarity_command'', obj_get ob ''initial_stationarity_command''),
           (''finalization_command'', obj_get ob ''finalization_command''),
           (''transitions'', JArr v)] = (Inr plan :: obj result)"
      by blast
    then have "length ts = 6" by (simp add: TRANSITION_LABELS_def)
    with b p JArr show ?thesis by (simp add: mo field_of_def)
  qed (use body in simp_all)
qed

text \<open>C36: a plan the builder has made passes the supervisor's check unchanged, and carries the
  manifest's commands: the three of the run and, for each of the six transitions, the ratio
  binding, the trigger and the stationarity command, every one a non-empty list of non-empty
  strings.\<close>

theorem built_plan_is_loaded:
  assumes "build_plan m = Inr plan"
  shows "load_plan (FileJson (JObj plan)) = Inr plan \<and> length (plan_transitions plan) = 6 \<and>
    list_all (\<lambda>k. obj_get plan k = field_of m k \<and> runnable (obj_get plan k))
      [''traffic_command'', ''initial_stationarity_command'', ''finalization_command''] \<and>
    list_all (\<lambda>i. list_all (\<lambda>k.
        field_of (plan_transitions plan ! i) k = field_of (manifest_transition m i) k \<and>
        runnable (field_of (plan_transitions plan ! i) k))
      [''ratio_bind_command'', ''trigger_command'', ''post_stationarity_command'']) [0..<6]"
proof -
  from build_plan_source [OF assms] obtain ts built where b: "field_of m ''transitions'' = JArr ts"
    "length ts = 6" "mapE build_transition (zip [0..<length ts] ts) = Inr built"
    and p: "plan = [(''schema'', JStr PLAN_SCHEMA), (''traffic_command'', field_of m ''traffic_command''),
       (''initial_stationarity_command'', field_of m ''initial_stationarity_command''),
       (''finalization_command'', field_of m ''finalization_command''), (''transitions'', JArr built)]"
    by blast
  have pt: "plan_transitions plan = built" by (simp add: p plan_transitions_def)
  have lb: "length built = 6" using mapE_Inr_length [OF b(3)] b(2) by simp
  have g: "good_plan plan" by (rule build_plan_good [OF assms])
  have t: "field_of (built ! i) k = field_of (manifest_transition m i) k \<and> runnable (field_of (built ! i) k)"
    if "i < 6" "k \<in> {''ratio_bind_command'', ''trigger_command'', ''post_stationarity_command''}" for i k
  proof -
    have e: "build_transition (i, ts ! i) = Inr (built ! i)"
      using mapE_Inr_nth [OF b(3), of i] that(1) b(2) by simp
    from build_transition_good [OF e] that(2) have "runnable (field_of (built ! i) k)"
      by (auto simp: good_transition_def field_of_def obj_get_def)
    with build_transition_keeps [OF e that(2)] show ?thesis
      by (simp add: manifest_transition_def b(1))
  qed
  have c: "obj_get plan k = field_of m k \<and> runnable (obj_get plan k)"
    if "k \<in> {''traffic_command'', ''initial_stationarity_command'', ''finalization_command''}" for k
    using that g by (auto simp: good_plan_def p)
  show ?thesis
  proof (intro conjI)
    show "load_plan (FileJson (JObj plan)) = Inr plan" by (rule good_plan_loads [OF g])
    show "length (plan_transitions plan) = 6" by (simp only: pt lb)
    show "list_all (\<lambda>k. obj_get plan k = field_of m k \<and> runnable (obj_get plan k))
      [''traffic_command'', ''initial_stationarity_command'', ''finalization_command'']"
      unfolding list_all_iff by (rule ballI, rule c) simp
    show "list_all (\<lambda>i. list_all (\<lambda>k.
        field_of (plan_transitions plan ! i) k = field_of (manifest_transition m i) k \<and>
        runnable (field_of (plan_transitions plan ! i) k))
      [''ratio_bind_command'', ''trigger_command'', ''post_stationarity_command'']) [0..<6]"
      unfolding list_all_iff pt using t by (metis atLeastLessThan_iff list.set(1,2) set_upt insert_iff)
  qed
qed

subsection \<open>The trace\<close>

definition dispatched :: "sup_event list \<Rightarrow> nat list" where
  "dispatched es = concat (map (\<lambda>e. case e of Dispatched i c l \<Rightarrow> [i] | _ \<Rightarrow> []) es)"

lemma dispatched_simps [simp]:
  "dispatched [] = []" "dispatched (es @ fs) = dispatched es @ dispatched fs"
  "dispatched (Slept q # es) = dispatched es" "dispatched (Ran c q # es) = dispatched es"
  "dispatched (Dispatched i c q # es) = i # dispatched es"
  "dispatched (TrafficStarted c # es) = dispatched es" "dispatched (TrafficEnded # es) = dispatched es"
  by (simp_all add: dispatched_def)

text \<open>What happens between the start and the end of the traffic: sleeping and commands, each with
  time left.\<close>

definition inner :: "sup_event \<Rightarrow> bool" where
  "inner e = (case e of Slept q \<Rightarrow> 0 \<le> q | Ran c l \<Rightarrow> 0 < l | Dispatched i c l \<Rightarrow> 0 < l | _ \<Rightarrow> False)"

lemma events_if [simp]: "trace_of (if c then m else m') = (if c then trace_of m else trace_of m')"
  "result_of (if c then m else m') = (if c then result_of m else result_of m')"
  by simp_all

lemma events_command_tail [simp]:
  "trace_of (case a of TimedOut \<Rightarrow> failS (Sup why 124) | SpawnFails t \<Rightarrow> failS (Escapes t)
     | Exited rc out js \<Rightarrow> if rc \<noteq> 0 then failS (Sup (why @ '':RC_'' @ show_int rc) rc) else retS (out, js)) = []"
  by (cases a) simp_all

lemma run_command_events:
  "trace_of (run_command rnd t0 ev why a) =
     (if remaining rnd t0 (ca_clock a) \<le> 0 then [] else [ev (remaining rnd t0 (ca_clock a))])"
  by (simp add: run_command_def)

definition answered :: "(rat \<Rightarrow> rat) \<Rightarrow> rat \<Rightarrow> cmd_answer \<Rightarrow> string \<Rightarrow> json option \<Rightarrow> bool" where
  "answered rnd t0 a out js \<longleftrightarrow> 0 < remaining rnd t0 (ca_clock a) \<and> ca_end a = Exited 0 out js"

lemma run_command_result:
  "result_of (run_command rnd t0 ev why a) = Inr (out, js) \<longleftrightarrow> answered rnd t0 a out js"
  by (cases "ca_end a") (auto simp: run_command_def answered_def)

lemma run_command_fails:
  "\<not> answered rnd t0 a out js \<Longrightarrow> result_of (run_command rnd t0 ev why a) \<noteq> Inr (out, js)"
  by (simp add: run_command_result)

lemma wait_events:
  "list_all inner (trace_of (wait_for_observation rnd t0 target p0 role g)) \<and>
   length (trace_of (wait_for_observation rnd t0 target p0 role g)) \<le> 1 \<and>
   dispatched (trace_of (wait_for_observation rnd t0 target p0 role g)) = []"
  by (cases "phase_limit role") (simp_all add: wait_for_observation_def Let_def inner_def)

lemma attempt_events:
  "list_all inner (trace_of (gate_attempt rnd t0 argv p0 role tries ext)) \<and>
   length (trace_of (gate_attempt rnd t0 argv p0 role tries ext)) \<le> 2 \<and>
   dispatched (trace_of (gate_attempt rnd t0 argv p0 role tries ext)) = []"
  using wait_events [of rnd t0 "(if role = ''pre'' then PRE_MIN_S else POST_MIN_S)
       + int ext * EXTENSION_S" p0 role "tries ext"]
  by (auto simp: gate_attempt_def run_command_events inner_def split: sum.splits prod.splits)

lemma gate_events:
  "ext \<le> 2 \<Longrightarrow> list_all inner (trace_of (stationarity_gate rnd t0 argv p0 role tries ext)) \<and>
   length (trace_of (stationarity_gate rnd t0 argv p0 role tries ext)) \<le> 2 * (3 - ext) \<and>
   dispatched (trace_of (stationarity_gate rnd t0 argv p0 role tries ext)) = []"
proof (induction rnd t0 argv p0 role tries ext rule: stationarity_gate.induct)
  case (1 rnd t0 argv p0 role tries ext)
  note a = attempt_events [of rnd t0 argv p0 role tries ext]
  show ?case
  proof (cases "result_of (gate_attempt rnd t0 argv p0 role tries ext)")
    case (Inl e)
    with a 1(2) show ?thesis by (subst (1 2 3) stationarity_gate.simps) auto
  next
    case (Inr gate)
    show ?thesis
    proof (cases "\<not> py_eq gate (JStr ''PASS'') \<and> py_eq gate (JStr ''FAIL'') \<and> \<not> MAX_EXTENSIONS \<le> ext")
      case True
      then have e: "ext + 1 \<le> 2" by (simp add: MAX_EXTENSIONS_def)
      have g: "stationarity_gate rnd t0 argv p0 role tries ext =
          bindS (gate_attempt rnd t0 argv p0 role tries ext) (\<lambda>gate.
            if py_eq gate (JStr ''PASS'') then retS ext
            else if \<not> py_eq gate (JStr ''FAIL'') then failS (Sup ''STATIONARITY_GATE_INVALID'' 65)
            else if MAX_EXTENSIONS \<le> ext then failS (Sup ''MAX_STATIONARITY_EXTENSIONS_EXCEEDED'' 125)
            else bindS (liftS (validate_extension_count (ext + 1))) (\<lambda>_.
              stationarity_gate rnd t0 argv p0 role tries (ext + 1)))"
        by (rule stationarity_gate.simps)
      have ih: "list_all inner (trace_of (stationarity_gate rnd t0 argv p0 role tries (ext + 1))) \<and>
          length (trace_of (stationarity_gate rnd t0 argv p0 role tries (ext + 1))) \<le> 2 * (3 - (ext + 1)) \<and>
          dispatched (trace_of (stationarity_gate rnd t0 argv p0 role tries (ext + 1))) = []"
        using True 1(1) [OF _ _ _ e] by blast
      have v: "validate_extension_count (ext + 1) = Inr ()"
        using e by (simp add: validate_extension_count_def MAX_EXTENSIONS_def)
      have "trace_of (stationarity_gate rnd t0 argv p0 role tries ext) =
          trace_of (gate_attempt rnd t0 argv p0 role tries ext) @
          trace_of (stationarity_gate rnd t0 argv p0 role tries (ext + 1))"
        unfolding g using True by (simp add: Inr v del: Suc_eq_plus1 add_Suc_right One_nat_def)
      with ih a e show ?thesis by auto
    next
      case False
      with a Inr 1(2) show ?thesis by (subst (1 2 3) stationarity_gate.simps) auto
    qed
  qed
qed

text \<open>The gate of a phase, as the dry run takes it: \<open>PASS\<close> when the wait for stationarity returns.\<close>

definition phase_gate ::
    "(rat \<Rightarrow> rat) \<Rightarrow> rat \<Rightarrow> json \<Rightarrow> rat \<Rightarrow> string \<Rightarrow> (nat \<Rightarrow> gate_try) \<Rightarrow> string" where
  "phase_gate rnd t0 argv p0 role tries =
     (case result_of (stationarity_gate rnd t0 argv p0 role tries 0) of Inl _ \<Rightarrow> ''FAIL'' | Inr _ \<Rightarrow> ''PASS'')"

definition post_gate :: "(rat \<Rightarrow> rat) \<Rightarrow> rat \<Rightarrow> (nat \<Rightarrow> transition_env) \<Rightarrow> nat \<times> json \<Rightarrow> string" where
  "post_gate rnd t0 envs it = phase_gate rnd t0 (field_of (snd it) ''post_stationarity_command'')
     (post_started (envs (fst it))) ''post'' (post_tries (envs (fst it)))"

text \<open>Nothing but stationarity stands in the way of a transition.\<close>

definition untroubled :: "(rat \<Rightarrow> rat) \<Rightarrow> rat \<Rightarrow> (nat \<Rightarrow> transition_env) \<Rightarrow> nat \<times> json \<Rightarrow> bool" where
  "untroubled rnd t0 envs it \<longleftrightarrow> (let e = envs (fst it) in \<not> traffic_dead e \<and>
     list_all (\<lambda>k. \<exists>w. result_of (member (snd it) k) = Inr w)
       [''label'', ''ratio_bind_command'', ''trigger_command'', ''post_stationarity_command''] \<and>
     (\<exists>out js. answered rnd t0 (bind_answer e) out js \<and>
        ''RATIO_BOUND=PASS'' \<in> set (splitlines (strip out))) \<and>
     (\<exists>out js. answered rnd t0 (trigger_answer e) out js))"

lemma member_trace [simp]: "trace_of (member v k) = []"
  by (simp add: member_def)

lemma member_Inr:
  "result_of (member v k) = Inr w \<longleftrightarrow> (\<exists>ob. v = JObj ob \<and> map_of ob k = Some w)"
  by (auto simp: member_def split: json.splits option.splits)

lemma member_field: "result_of (member v k) = Inr w \<Longrightarrow> w = field_of v k"
  by (auto simp: member_Inr field_of_def obj_get_def)

lemma bind_ratio_trace:
  "list_all inner (trace_of (bind_ratio rnd t0 argv label a)) \<and>
   length (trace_of (bind_ratio rnd t0 argv label a)) \<le> 1 \<and>
   dispatched (trace_of (bind_ratio rnd t0 argv label a)) = []"
  by (auto simp: bind_ratio_def run_command_events inner_def split: sum.splits prod.splits)

lemma bind_ratio_result:
  "result_of (bind_ratio rnd t0 argv label a) = Inr u \<longleftrightarrow>
   (\<exists>out js. answered rnd t0 a out js \<and> ''RATIO_BOUND=PASS'' \<in> set (splitlines (strip out)))"
proof (cases "result_of (run_command rnd t0 (Ran argv) (label @ ''_RATIO_BIND_FAILED'') a)")
  case (Inl e)
  then have "\<not> answered rnd t0 a out js" for out js
    using run_command_result [of rnd t0 "Ran argv" "label @ ''_RATIO_BIND_FAILED''" a out js] by auto
  with Inl show ?thesis by (auto simp: bind_ratio_def)
next
  case (Inr z)
  then obtain out js where z: "answered rnd t0 a out js" "z = (out, js)"
    by (cases z) (auto simp: run_command_result)
  have r: "result_of (bind_ratio rnd t0 argv label a) = Inr u \<longleftrightarrow>
      ''RATIO_BOUND=PASS'' \<in> set (splitlines (strip out))"
    using Inr z(2) by (simp add: bind_ratio_def)
  have "ca_end a = Exited 0 out js" using z(1) by (simp add: answered_def)
  then have "answered rnd t0 a out' js' \<Longrightarrow> out' = out" for out' js' by (simp add: answered_def)
  with z(1) show ?thesis unfolding r by blast
qed

lemma dispatch_trace:
  "list_all inner (trace_of (dispatch rnd t0 i t label a)) \<and>
   length (trace_of (dispatch rnd t0 i t label a)) \<le> 1 \<and>
   dispatched (trace_of (dispatch rnd t0 i t label a)) \<in> {[], [i]}"
proof (cases "result_of (member t ''trigger_command'')")
  case (Inl e)
  then show ?thesis by (simp add: dispatch_def)
next
  case (Inr w)
  let ?c = "run_command rnd t0 (Dispatched i w) (label @ ''_TRIGGER_FAILED'') a"
  have t: "trace_of (dispatch rnd t0 i t label a) = trace_of ?c"
  proof (cases "result_of ?c")
    case (Inl e)
    with Inr show ?thesis by (simp add: dispatch_def)
  next
    case (Inr z)
    obtain out js where "z = (out, js)" by (cases z)
    with Inr \<open>result_of (member t ''trigger_command'') = Inr w\<close> show ?thesis by (simp add: dispatch_def)
  qed
  show ?thesis unfolding t run_command_events by (simp add: inner_def)
qed

lemma dispatch_result:
  assumes "result_of (member t ''trigger_command'') = Inr trig"
  shows "result_of (dispatch rnd t0 i t label a) = Inr u \<longleftrightarrow> (\<exists>out js. answered rnd t0 a out js)"
    and "result_of (dispatch rnd t0 i t label a) = Inr u \<Longrightarrow>
      dispatched (trace_of (dispatch rnd t0 i t label a)) = [i]"
proof -
  let ?c = "run_command rnd t0 (Dispatched i trig) (label @ ''_TRIGGER_FAILED'') a"
  have r: "result_of (dispatch rnd t0 i t label a) = Inr u \<longleftrightarrow> (\<exists>z. result_of ?c = Inr z)"
    using assms by (cases "result_of ?c") (auto simp: dispatch_def split: prod.splits)
  also have "\<dots> \<longleftrightarrow> (\<exists>out js. answered rnd t0 a out js)"
    using run_command_result by (metis surj_pair)
  finally show "result_of (dispatch rnd t0 i t label a) = Inr u \<longleftrightarrow> (\<exists>out js. answered rnd t0 a out js)" .
  assume "result_of (dispatch rnd t0 i t label a) = Inr u"
  with r obtain out js where z: "result_of ?c = Inr (out, js)" by (metis surj_pair)
  then have "0 < remaining rnd t0 (ca_clock a)" by (simp add: run_command_result answered_def)
  then show "dispatched (trace_of (dispatch rnd t0 i t label a)) = [i]"
    using assms z by (auto simp: dispatch_def run_command_events split: sum.splits)
qed

text \<open>A transition as a chain of stages, each with its own events.\<close>

definition stages :: "(rat \<Rightarrow> rat) \<Rightarrow> rat \<Rightarrow> nat \<times> json \<Rightarrow> transition_env \<Rightarrow> json \<Rightarrow> json \<Rightarrow> json \<Rightarrow> nat sup" where
  "stages rnd t0 it e rb l po =
     bindS (bind_ratio rnd t0 rb (label_text l) (bind_answer e)) (\<lambda>_.
     bindS (dispatch rnd t0 (fst it) (snd it) (label_text l) (trigger_answer e)) (\<lambda>_.
       stationarity_gate rnd t0 po (post_started e) ''post'' (post_tries e) 0))"

lemma stages_facts:
  "list_all inner (trace_of (stages rnd t0 (i, t) e rb l po)) \<and>
   length (trace_of (stages rnd t0 (i, t) e rb l po)) \<le> 8 \<and>
   dispatched (trace_of (stages rnd t0 (i, t) e rb l po)) \<in> {[], [i]}"
proof -
  note b = bind_ratio_trace [of rnd t0 rb "label_text l" "bind_answer e"]
  note d = dispatch_trace [of rnd t0 i t "label_text l" "trigger_answer e"]
  note g = gate_events [of 0 rnd t0 po "post_started e" "''post''" "post_tries e"]
  show ?thesis
  proof (cases "result_of (bind_ratio rnd t0 rb (label_text l) (bind_answer e))")
    case (Inl x)
    with b show ?thesis by (simp add: stages_def)
  next
    case B: (Inr u)
    show ?thesis
    proof (cases "result_of (dispatch rnd t0 i t (label_text l) (trigger_answer e))")
      case (Inl x)
      with B b d show ?thesis by (auto simp: stages_def)
    next
      case (Inr u')
      with B b d g show ?thesis by (auto simp: stages_def)
    qed
  qed
qed

lemma run_transition_stages:
  assumes "\<not> traffic_dead e" and "result_of (member t ''ratio_bind_command'') = Inr rb"
    and "result_of (member t ''label'') = Inr l"
    and "result_of (member t ''post_stationarity_command'') = Inr po"
  shows "trace_of (run_transition rnd t0 (i, t) e) = trace_of (stages rnd t0 (i, t) e rb l po) \<and>
    result_of (run_transition rnd t0 (i, t) e) = result_of (stages rnd t0 (i, t) e rb l po)"
  using assms by (simp add: run_transition_def stages_def Let_def split: sum.split)

lemma run_transition_trace:
  "list_all inner (trace_of (run_transition rnd t0 (i, t) e)) \<and>
   length (trace_of (run_transition rnd t0 (i, t) e)) \<le> 8 \<and>
   dispatched (trace_of (run_transition rnd t0 (i, t) e)) \<in> {[], [i]}"
proof (cases "traffic_dead e")
  case True
  then show ?thesis by (simp add: run_transition_def Let_def)
next
  case F: False
  show ?thesis
  proof (cases "result_of (member t ''ratio_bind_command'')")
    case (Inl x)
    with F show ?thesis by (simp add: run_transition_def Let_def)
  next
    case R: (Inr rb)
    show ?thesis
    proof (cases "result_of (member t ''label'')")
      case (Inl x)
      with F R show ?thesis by (simp add: run_transition_def Let_def)
    next
      case L: (Inr l)
      show ?thesis
      proof (cases "result_of (member t ''post_stationarity_command'')")
        case (Inr po)
        from run_transition_stages [OF F R L this] stages_facts show ?thesis by metis
      next
        case (Inl x)
        note b = bind_ratio_trace [of rnd t0 rb "label_text l" "bind_answer e"]
        note d = dispatch_trace [of rnd t0 i t "label_text l" "trigger_answer e"]
        show ?thesis
        proof (cases "result_of (bind_ratio rnd t0 rb (label_text l) (bind_answer e))")
          case (Inl y)
          with F R L b show ?thesis by (simp add: run_transition_def Let_def)
        next
          case B: (Inr u)
          show ?thesis
            by (cases "result_of (dispatch rnd t0 i t (label_text l) (trigger_answer e))")
              (use F R L B b d Inl in \<open>auto simp: run_transition_def Let_def\<close>)
        qed
      qed
    qed
  qed
qed

lemma run_transition_Inr:
  assumes "result_of (run_transition rnd t0 (i, t) (envs i)) = Inr n"
  shows "dispatched (trace_of (run_transition rnd t0 (i, t) (envs i))) = [i] \<and>
    post_gate rnd t0 envs (i, t) = ''PASS''"
proof -
  let ?e = "envs i"
  have F: "\<not> traffic_dead ?e" using assms by (auto simp: run_transition_def Let_def)
  then obtain rb where R: "result_of (member t ''ratio_bind_command'') = Inr rb"
    using assms by (cases "result_of (member t ''ratio_bind_command'')") (auto simp: run_transition_def Let_def)
  with F obtain l where L: "result_of (member t ''label'') = Inr l"
    using assms by (cases "result_of (member t ''label'')") (auto simp: run_transition_def Let_def)
  with F R obtain u where B: "result_of (bind_ratio rnd t0 rb (label_text l) (bind_answer ?e)) = Inr u"
    using assms by (cases "result_of (bind_ratio rnd t0 rb (label_text l) (bind_answer ?e))")
      (auto simp: run_transition_def Let_def)
  with F R L obtain u' where D: "result_of (dispatch rnd t0 i t (label_text l) (trigger_answer ?e)) = Inr u'"
    using assms by (cases "result_of (dispatch rnd t0 i t (label_text l) (trigger_answer ?e))")
      (auto simp: run_transition_def Let_def)
  with F R L B obtain po where P: "result_of (member t ''post_stationarity_command'') = Inr po"
    using assms by (cases "result_of (member t ''post_stationarity_command'')")
      (auto simp: run_transition_def Let_def)
  have st: "trace_of (run_transition rnd t0 (i, t) ?e) = trace_of (stages rnd t0 (i, t) ?e rb l po)"
    "result_of (run_transition rnd t0 (i, t) ?e) = result_of (stages rnd t0 (i, t) ?e rb l po)"
    using run_transition_stages [OF F R L P] by auto
  obtain trig where T: "result_of (member t ''trigger_command'') = Inr trig"
    using D by (cases "result_of (member t ''trigger_command'')") (auto simp: dispatch_def)
  have "dispatched (trace_of (stages rnd t0 (i, t) ?e rb l po)) = [i]"
    using bind_ratio_trace [of rnd t0 rb "label_text l" "bind_answer ?e"]
      dispatch_result(2) [OF T D]
      gate_events [of 0 rnd t0 po "post_started ?e" "''post''" "post_tries ?e"]
    by (simp add: stages_def B D)
  moreover have "result_of (stationarity_gate rnd t0 po (post_started ?e) ''post'' (post_tries ?e) 0) = Inr n"
    using assms by (simp add: st stages_def B D)
  ultimately show ?thesis
    using member_field [OF P] by (simp add: st post_gate_def phase_gate_def)
qed

lemma run_transition_untroubled:
  assumes "untroubled rnd t0 envs (i, t)"
  shows "dispatched (trace_of (run_transition rnd t0 (i, t) (envs i))) = [i] \<and>
    ((\<exists>n. result_of (run_transition rnd t0 (i, t) (envs i)) = Inr n) \<longleftrightarrow> post_gate rnd t0 envs (i, t) = ''PASS'')"
proof -
  let ?e = "envs i"
  from assms obtain l rb trig po where F: "\<not> traffic_dead ?e"
    and L: "result_of (member t ''label'') = Inr l"
    and R: "result_of (member t ''ratio_bind_command'') = Inr rb"
    and T: "result_of (member t ''trigger_command'') = Inr trig"
    and P: "result_of (member t ''post_stationarity_command'') = Inr po"
    by (auto simp: untroubled_def Let_def)
  have B: "result_of (bind_ratio rnd t0 rb (label_text l) (bind_answer ?e)) = Inr ()"
    unfolding bind_ratio_result using assms by (simp add: untroubled_def Let_def)
  have D: "result_of (dispatch rnd t0 i t (label_text l) (trigger_answer ?e)) = Inr ()"
    unfolding dispatch_result(1) [OF T] using assms by (simp add: untroubled_def Let_def)
  have st: "trace_of (run_transition rnd t0 (i, t) ?e) = trace_of (stages rnd t0 (i, t) ?e rb l po)"
    "result_of (run_transition rnd t0 (i, t) ?e) = result_of (stages rnd t0 (i, t) ?e rb l po)"
    using run_transition_stages [OF F R L P] by auto
  have "dispatched (trace_of (stages rnd t0 (i, t) ?e rb l po)) = [i]"
    using bind_ratio_trace [of rnd t0 rb "label_text l" "bind_answer ?e"]
      dispatch_result(2) [OF T D]
      gate_events [of 0 rnd t0 po "post_started ?e" "''post''" "post_tries ?e"]
    by (simp add: stages_def B D)
  then show ?thesis
    using member_field [OF P]
    by (simp add: st stages_def B D post_gate_def phase_gate_def split: sum.split)
qed

text \<open>The loop over the transitions \<open>a, a + 1, \<dots>\<close>.\<close>

lemma transitions_trace:
  "list_all inner (trace_of (run_transitions rnd t0 envs its)) \<and>
   length (trace_of (run_transitions rnd t0 envs its)) \<le> 8 * length its"
proof (induction its)
  case Nil
  then show ?case by simp
next
  case (Cons it its)
  obtain i t where it: "it = (i, t)" by (cases it)
  note r = run_transition_trace [of rnd t0 i t "envs i"]
  show ?case
  proof (cases "result_of (run_transition rnd t0 (i, t) (envs i))")
    case (Inl e)
    with r show ?thesis by (simp add: it)
  next
    case (Inr n)
    with r Cons.IH show ?thesis
      by (cases "result_of (run_transitions rnd t0 envs its)") (simp_all add: it)
  qed
qed

lemma transitions_dispatched:
  assumes "map fst its = [a..<a + length its]"
  shows "\<exists>d. dispatched (trace_of (run_transitions rnd t0 envs its)) = [a..<a + d] \<and> d \<le> length its \<and>
    d \<le> Suc (passed_in_a_row (map (post_gate rnd t0 envs) its)) \<and>
    ((\<exists>ns. result_of (run_transitions rnd t0 envs its) = Inr ns) \<longrightarrow>
      d = length its \<and> passed_in_a_row (map (post_gate rnd t0 envs) its) = length its)"
  using assms
proof (induction its arbitrary: a)
  case Nil
  then show ?case by simp
next
  case (Cons it its)
  have "fst it = a" using Cons.prems by (simp add: upt_conv_Cons del: upt_Suc)
  then obtain t where it: "it = (a, t)" by (metis prod.collapse)
  have tl: "map fst its = [Suc a..<Suc a + length its]"
    using Cons.prems by (simp add: upt_conv_Cons del: upt_Suc)
  show ?case
  proof (cases "result_of (run_transition rnd t0 (a, t) (envs a))")
    case (Inl e)
    from run_transition_trace [of rnd t0 a t "envs a"]
    have "dispatched (trace_of (run_transition rnd t0 (a, t) (envs a))) \<in> {[], [a]}" by blast
    then show ?thesis
    proof
      assume "dispatched (trace_of (run_transition rnd t0 (a, t) (envs a))) = []"
      with Inl show ?thesis by (intro exI [of _ 0]) (simp add: it)
    next
      assume "dispatched (trace_of (run_transition rnd t0 (a, t) (envs a))) \<in> {[a]}"
      with Inl show ?thesis by (intro exI [of _ 1]) (simp add: it)
    qed
  next
    case (Inr n)
    from run_transition_Inr [of rnd t0 a t envs n, OF Inr] have r: "dispatched (trace_of (run_transition rnd t0 (a, t) (envs a))) = [a]"
      "post_gate rnd t0 envs (a, t) = ''PASS''" by auto
    from Cons.IH [OF tl] obtain d where d: "dispatched (trace_of (run_transitions rnd t0 envs its)) = [Suc a..<Suc a + d]"
      "d \<le> length its" "d \<le> Suc (passed_in_a_row (map (post_gate rnd t0 envs) its))"
      "(\<exists>ns. result_of (run_transitions rnd t0 envs its) = Inr ns) \<longrightarrow>
      d = length its \<and> passed_in_a_row (map (post_gate rnd t0 envs) its) = length its" by blast
    have e: "[a..<Suc (a + k)] = a # [Suc a..<Suc (a + k)]" for k by (simp add: upt_conv_Cons del: upt_Suc)
    from r d Inr e show ?thesis
      by (intro exI [of _ "Suc d"], cases "result_of (run_transitions rnd t0 envs its)")
        (simp_all add: it del: upt_Suc)
  qed
qed

lemma transitions_untroubled:
  assumes "list_all (untroubled rnd t0 envs) its" and "map fst its = [a..<a + length its]"
  shows "dispatched (trace_of (run_transitions rnd t0 envs its)) =
      [a..<a + min (length its) (Suc (passed_in_a_row (map (post_gate rnd t0 envs) its)))]"
  using assms
proof (induction its arbitrary: a)
  case Nil
  then show ?case by simp
next
  case (Cons it its)
  have "fst it = a" using Cons.prems(2) by (simp add: upt_conv_Cons del: upt_Suc)
  then obtain t where it: "it = (a, t)" by (metis prod.collapse)
  have tl: "map fst its = [Suc a..<Suc a + length its]" "list_all (untroubled rnd t0 envs) its"
    using Cons.prems by (simp_all add: upt_conv_Cons del: upt_Suc)
  from Cons.prems(1) it have "untroubled rnd t0 envs (a, t)" by simp
  note u = run_transition_untroubled [OF this]
  show ?case
  proof (cases "result_of (run_transition rnd t0 (a, t) (envs a))")
    case (Inl e)
    with u show ?thesis by (simp add: it)
  next
    case (Inr n)
    have e: "[a..<Suc (a + k)] = a # [Suc a..<Suc (a + k)]" for k by (simp add: upt_conv_Cons del: upt_Suc)
    from u Inr Cons.IH [OF tl(2,1)] e show ?thesis
      by (cases "result_of (run_transitions rnd t0 envs its)") (simp_all add: it del: upt_Suc)
  qed
qed

subsection \<open>The whole run\<close>

definition numbered :: "obj \<Rightarrow> (nat \<times> json) list" where
  "numbered plan = zip [1..<Suc (length (plan_transitions plan))] (plan_transitions plan)"

lemma numbered_fst: "map fst (numbered plan) = [1..<1 + length (numbered plan)]"
  "length (numbered plan) = length (plan_transitions plan)"
  by (simp_all add: numbered_def del: upt_Suc)

lemma supervised_parts:
  fixes rnd env plan
  defines "g \<equiv> stationarity_gate rnd (run_started env) (obj_get plan ''initial_stationarity_command'')
       (pre_started env) ''pre'' (pre_tries env) 0"
  defines "ts \<equiv> run_transitions rnd (run_started env) (transition_envs env) (numbered plan)"
  shows "trace_of (supervised rnd env plan) =
      trace_of g @ (case result_of g of Inl e \<Rightarrow> [] | Inr n \<Rightarrow> trace_of ts)"
    and "result_of (supervised rnd env plan) = (case result_of g of Inl e \<Rightarrow> Inl e | Inr n \<Rightarrow>
      (case result_of ts of Inl e \<Rightarrow> Inl e | Inr ns \<Rightarrow>
        if final_dead env then Inl (Sup ''TRAFFIC_TERMINATED_BEFORE_FINALIZATION'' 76) else Inr ()))"
  unfolding g_def ts_def numbered_def
  by (simp_all add: supervised_def split: sum.split)

definition traffic_runs :: "live_env \<Rightarrow> string option \<Rightarrow> bool" where
  "traffic_runs env token \<longleftrightarrow> live_enabled env \<and> token = Some SUP_LIVE_TOKEN \<and> traffic_error env = None"

lemma finalize_trace:
  "trace_of (finalize rnd env plan) = [] \<or>
   (\<exists>l. 0 < l \<and> trace_of (finalize rnd env plan) = [Ran (obj_get plan ''finalization_command'') l])"
  by (auto simp: finalize_def run_command_events split: sum.splits prod.splits)

lemma live_parts:
  "trace_of (sup_live rnd env plan token) = (if \<not> traffic_runs env token then [] else
     TrafficStarted (obj_get plan ''traffic_command'') # trace_of (supervised rnd env plan) @ TrafficEnded #
     (case (end_error env, result_of (supervised rnd env plan)) of
        (None, Inr _) \<Rightarrow> trace_of (finalize rnd env plan) | _ \<Rightarrow> []))"
  "result_of (sup_live rnd env plan token) = Inr n \<Longrightarrow> traffic_runs env token \<and>
     (\<exists>u. result_of (supervised rnd env plan) = Inr u)"
proof -
  show "trace_of (sup_live rnd env plan token) = (if \<not> traffic_runs env token then [] else
     TrafficStarted (obj_get plan ''traffic_command'') # trace_of (supervised rnd env plan) @ TrafficEnded #
     (case (end_error env, result_of (supervised rnd env plan)) of
        (None, Inr _) \<Rightarrow> trace_of (finalize rnd env plan) | _ \<Rightarrow> []))"
    by (cases "traffic_error env"; cases "end_error env"; cases "result_of (supervised rnd env plan)")
      (simp_all add: sup_live_def traffic_runs_def ensure_def)
  assume "result_of (sup_live rnd env plan token) = Inr n"
  then show "traffic_runs env token \<and> (\<exists>u. result_of (supervised rnd env plan) = Inr u)"
    by (cases "traffic_error env"; cases "end_error env"; cases "result_of (supervised rnd env plan)")
      (auto simp: sup_live_def traffic_runs_def ensure_def split: if_splits)
qed

text \<open>Every code of the supervisor's own errors differs from 0.\<close>

definition nonzero :: "sup_error + 'a \<Rightarrow> bool" where
  "nonzero r \<longleftrightarrow> (\<forall>why rc. r = Inl (Sup why rc) \<longrightarrow> rc \<noteq> 0)"

lemma nonzero_simps [simp]: "nonzero (Inr x)" "nonzero (Inl (Escapes t))"
  "nonzero (Inl (Sup why rc)) \<longleftrightarrow> rc \<noteq> 0"
  by (simp_all add: nonzero_def)

lemma nonzero_bind: "nonzero r \<Longrightarrow> (\<And>x. nonzero (f x)) \<Longrightarrow>
    nonzero (case r of Inl e \<Rightarrow> Inl e | Inr x \<Rightarrow> f x)"
  by (cases r) (auto simp: nonzero_def)

lemma nonzero_command: "nonzero (result_of (run_command rnd t0 ev why a))"
  by (cases "ca_end a") (simp_all add: run_command_def)

lemma nonzero_attempt: "nonzero (result_of (gate_attempt rnd t0 argv p0 role tries ext))"
proof -
  have w: "nonzero (result_of (wait_for_observation rnd t0 target p0 role g))" for target g
    by (simp add: wait_for_observation_def phase_limit_def Let_def)
  have r: "nonzero (read_gate js)" for js
    by (auto simp: read_gate_def split: option.splits json.splits)
  show ?thesis
    using w r nonzero_command
    by (auto simp: gate_attempt_def intro!: nonzero_bind split: prod.splits)
qed

lemma nonzero_gate: "nonzero (result_of (stationarity_gate rnd t0 argv p0 role tries ext))"
proof (induction rnd t0 argv p0 role tries ext rule: stationarity_gate.induct)
  case (1 rnd t0 argv p0 role tries ext)
  show ?case
    using 1 nonzero_attempt [of rnd t0 argv p0 role tries ext]
    by (subst stationarity_gate.simps)
      (auto simp: not_le validate_extension_count_def ensure_def intro!: nonzero_bind)
qed

lemma nonzero_member: "nonzero (result_of (member v k))"
  by (auto simp: member_def split: json.splits option.splits)

lemma nonzero_dispatch: "nonzero (result_of (dispatch rnd t0 i t label a))"
  using nonzero_member nonzero_command by (auto simp: dispatch_def intro!: nonzero_bind split: prod.splits)

lemma nonzero_bind_ratio: "nonzero (result_of (bind_ratio rnd t0 argv label a))"
  using nonzero_command by (auto simp: bind_ratio_def intro!: nonzero_bind split: prod.splits)

lemma nonzero_transitions: "nonzero (result_of (run_transitions rnd t0 envs its))"
proof (induction its)
  case Nil
  then show ?case by simp
next
  case (Cons it its)
  have "nonzero (result_of (run_transition rnd t0 it (envs (fst it))))"
    using nonzero_member nonzero_dispatch nonzero_bind_ratio nonzero_gate
    by (auto simp: run_transition_def Let_def intro!: nonzero_bind)
  with Cons.IH show ?case by (auto intro!: nonzero_bind)
qed

lemma nonzero_live: "nonzero (result_of (sup_live rnd env plan token))"
proof -
  have s: "nonzero (result_of (supervised rnd env plan))"
    unfolding supervised_parts using nonzero_gate nonzero_transitions by (auto intro!: nonzero_bind)
  have f: "nonzero (result_of (finalize rnd env plan))"
    using nonzero_command by (auto simp: finalize_def intro!: nonzero_bind)
  show ?thesis
    using s f by (cases "traffic_error env"; cases "end_error env")
      (auto simp: sup_live_def ensure_def intro!: nonzero_bind)
qed

lemma nonzero_bindE: "nonzero m \<Longrightarrow> (\<And>x. nonzero (f x)) \<Longrightarrow> nonzero (bindE m f)"
  unfolding bindE_def by (rule nonzero_bind)

lemma nonzero_seqE: "\<forall>m \<in> set ms. nonzero m \<Longrightarrow> nonzero (seqE ms)"
  by (induction ms) (auto intro!: nonzero_bindE)

lemma load_plan_nonzero: "nonzero (load_plan pf)"
proof -
  have c: "nonzero (plan_command v name)" for v name
    by (auto simp: plan_command_def ensure_def split: json.splits list.splits)
  have "nonzero (plan_transition iv)" for iv
    unfolding plan_transition_def using c
    by (cases iv) (auto simp: ensure_def intro!: nonzero_bindE split: json.splits)
  then show ?thesis
    unfolding load_plan_def using c
    by (auto simp: ensure_def intro!: nonzero_bindE nonzero_seqE split: loaded.splits json.splits)
qed

lemma supervised_trace:
  assumes "length (plan_transitions plan) = 6"
  shows "list_all inner (trace_of (supervised rnd env plan)) \<and>
    length (trace_of (supervised rnd env plan)) \<le> 54"
  using gate_events [of 0 rnd "run_started env" "obj_get plan ''initial_stationarity_command''"
      "pre_started env" "''pre''" "pre_tries env"]
    transitions_trace [of rnd "run_started env" "transition_envs env" "numbered plan"]
  unfolding supervised_parts numbered_fst assms by (auto split: sum.split)

lemma load_plan_six:
  "load_plan pf = Inr plan \<Longrightarrow> length (plan_transitions plan) = 6"
  by (auto simp: load_plan_def plan_transitions_def simp del: seqE_Inr_iff
    split: loaded.splits json.splits if_splits)

lemma sup_main_live:
  assumes "sup_main rnd env pf LiveRun token werr = (rc, rep, tr)"
  shows "(\<exists>e. load_plan pf = Inl e \<and> tr = [] \<and> rc \<noteq> Inr 0) \<or>
    (\<exists>plan. load_plan pf = Inr plan \<and> tr = trace_of (sup_live rnd env plan token) \<and>
       (rc = Inr 0 \<longrightarrow> (\<exists>n. result_of (sup_live rnd env plan token) = Inr n)))"
proof (cases "load_plan pf")
  case (Inl e)
  then show ?thesis
    using assms load_plan_nonzero [of pf]
    by (cases e) (auto simp: sup_main_def bindS_def liftS_def Let_def split: option.splits)
next
  case (Inr plan)
  let ?s = "\<lparr>lreport = base_report LiveRun, ltrace = []\<rparr>"
  obtain r t where m: "sup_live rnd env plan token ?s = (r, t)" by (cases "sup_live rnd env plan token ?s")
  have "fst (sup_live rnd env plan token ?s) = result_of (sup_live rnd env plan token)"
    "ltrace (snd (sup_live rnd env plan token ?s)) = [] @ trace_of (sup_live rnd env plan token)"
    using oblivious_live [of rnd env plan token] unfolding oblivious_def by simp_all
  with m have rt: "r = result_of (sup_live rnd env plan token)" "ltrace t = trace_of (sup_live rnd env plan token)"
    by simp_all
  have nz: "nonzero r" unfolding rt by (rule nonzero_live)
  have "tr = ltrace t \<and> (rc = Inr 0 \<longrightarrow> (\<exists>n. r = Inr n))"
  proof (cases r)
    case (Inl e)
    with assms m nz Inr show ?thesis
      by (cases e) (auto simp: sup_main_def bindS_def liftS_def Let_def split: option.splits)
  next
    case (Inr n)
    with assms m \<open>load_plan pf = Inr plan\<close> show ?thesis
      by (auto simp: sup_main_def bindS_def liftS_def Let_def split: option.splits)
  qed
  with rt Inr show ?thesis by simp
qed


subsection \<open>The dry run is the specification\<close>

definition initial_phase :: "(rat \<Rightarrow> rat) \<Rightarrow> live_env \<Rightarrow> obj \<Rightarrow> string" where
  "initial_phase rnd env plan = phase_gate rnd (run_started env)
     (obj_get plan ''initial_stationarity_command'') (pre_started env) ''pre'' (pre_tries env)"

definition post_phases :: "(rat \<Rightarrow> rat) \<Rightarrow> live_env \<Rightarrow> obj \<Rightarrow> string list" where
  "post_phases rnd env plan =
     map (post_gate rnd (run_started env) (transition_envs env)) (numbered plan)"

definition smooth_run :: "(rat \<Rightarrow> rat) \<Rightarrow> live_env \<Rightarrow> string option \<Rightarrow> obj \<Rightarrow> bool" where
  "smooth_run rnd env token plan \<longleftrightarrow> traffic_runs env token \<and>
     list_all (untroubled rnd (run_started env) (transition_envs env)) (numbered plan)"

lemma live_dispatched:
  fixes rnd env plan
  assumes "length (plan_transitions plan) = 6"
  defines "n \<equiv> passed_in_a_row (initial_phase rnd env plan # post_phases rnd env plan)"
  shows "\<exists>d. dispatched (trace_of (sup_live rnd env plan token)) = [1..<Suc d] \<and> d \<le> min 6 n \<and>
    (smooth_run rnd env token plan \<longrightarrow> d = min 6 n) \<and>
    ((\<exists>k. result_of (sup_live rnd env plan token) = Inr k) \<longrightarrow> n = 7)"
proof (cases "traffic_runs env token")
  case False
  then have "trace_of (sup_live rnd env plan token) = []" by (simp only: live_parts if_True not_False_eq_True)
  moreover have "\<not> (\<exists>k. result_of (sup_live rnd env plan token) = Inr k)"
    using False live_parts(2) by blast
  ultimately show ?thesis using False by (intro exI [of _ 0]) (simp add: smooth_run_def)
next
  case True
  let ?t0 = "run_started env" let ?envs = "transition_envs env"
  define g where "g = stationarity_gate rnd ?t0 (obj_get plan ''initial_stationarity_command'')
       (pre_started env) ''pre'' (pre_tries env) 0"
  define ts where "ts = run_transitions rnd ?t0 ?envs (numbered plan)"
  define k where "k = passed_in_a_row (post_phases rnd env plan)"
  have six: "length (numbered plan) = 6" using assms(1) by (simp add: numbered_fst)
  have ge: "dispatched (trace_of g) = []"
    using gate_events [of 0 rnd ?t0 "obj_get plan ''initial_stationarity_command''" "pre_started env"
      "''pre''" "pre_tries env"] by (simp add: g_def)
  have fi: "dispatched (case (end_error env, result_of (supervised rnd env plan)) of
        (None, Inr _) \<Rightarrow> trace_of (finalize rnd env plan) | _ \<Rightarrow> []) = []"
    using finalize_trace [of rnd env plan] by (auto split: option.splits sum.splits)
  have tr: "dispatched (trace_of (sup_live rnd env plan token)) =
      (case result_of g of Inl e \<Rightarrow> [] | Inr n \<Rightarrow> dispatched (trace_of ts))"
    using True fi ge unfolding live_parts supervised_parts g_def [symmetric] ts_def [symmetric]
    by (simp split: sum.split)
  show ?thesis
  proof (cases "result_of g")
    case (Inl e)
    then have n: "n = 0" by (simp add: n_def initial_phase_def phase_gate_def g_def)
    have "\<not> (\<exists>k. result_of (sup_live rnd env plan token) = Inr k)"
      using live_parts(2) [of rnd env plan token] Inl
      by (auto simp: supervised_parts g_def)
    with tr Inl n show ?thesis by (intro exI [of _ 0]) simp
  next
    case (Inr x)
    then have n: "n = Suc k"
      by (simp add: n_def initial_phase_def phase_gate_def g_def k_def)
    from transitions_dispatched [OF numbered_fst(1) [of plan], of rnd ?t0 ?envs, unfolded six]
    obtain d where d: "dispatched (trace_of ts) = [1..<1 + d]" "d \<le> 6" "d \<le> Suc k"
      "(\<exists>ns. result_of ts = Inr ns) \<longrightarrow> d = 6 \<and> k = 6"
      unfolding ts_def k_def post_phases_def by blast
    have sm: "smooth_run rnd env token plan \<longrightarrow> d = min 6 n"
    proof
      assume "smooth_run rnd env token plan"
      then have "list_all (untroubled rnd ?t0 ?envs) (numbered plan)" by (simp add: smooth_run_def)
      from transitions_untroubled [OF this numbered_fst(1) [of plan]] six
      have "dispatched (trace_of ts) = [1..<1 + min 6 (Suc k)]"
        by (simp add: ts_def k_def post_phases_def)
      with d(1) have "length [1..<1 + d] = length [1..<1 + min 6 (Suc k)]" by metis
      then show "d = min 6 n" by (simp add: n del: upt_Suc)
    qed
    have "(\<exists>k. result_of (sup_live rnd env plan token) = Inr k) \<longrightarrow> n = 7"
    proof
      assume "\<exists>k. result_of (sup_live rnd env plan token) = Inr k"
      then obtain u where "result_of (supervised rnd env plan) = Inr u" using live_parts(2) by blast
      then have "\<exists>ns. result_of ts = Inr ns"
        using Inr unfolding supervised_parts g_def [symmetric] ts_def [symmetric] by (auto split: sum.splits)
      with d(4) n show "n = 7" by simp
    qed
    with sm d tr Inr n show ?thesis by (intro exI [of _ d]) simp
  qed
qed


subsection \<open>The counters of the report\<close>

text \<open>A Hoare triple with a postcondition for the exceptional end.\<close>

definition triple :: "(live_state \<Rightarrow> bool) \<Rightarrow> 'a sup \<Rightarrow> ('a \<Rightarrow> live_state \<Rightarrow> bool) \<Rightarrow> (live_state \<Rightarrow> bool) \<Rightarrow> bool" where
  "triple P m Q E \<longleftrightarrow> (\<forall>s. P s \<longrightarrow> (case m s of (Inl e, s') \<Rightarrow> E s' | (Inr x, s') \<Rightarrow> Q x s'))"

lemma triple_bindS:
  assumes "triple P m R E" and "\<And>x. triple (R x) (f x) Q E"
  shows "triple P (bindS m f) Q E"
  unfolding triple_def
proof (intro allI impI)
  fix s assume "P s"
  obtain r s' where m: "m s = (r, s')" by (cases "m s")
  show "case bindS m f s of (Inl e, s') \<Rightarrow> E s' | (Inr x, s') \<Rightarrow> Q x s'"
  proof (cases r)
    case (Inl e)
    with assms(1) \<open>P s\<close> m show ?thesis by (fastforce simp: triple_def bindS_def)
  next
    case (Inr x)
    with assms(1) \<open>P s\<close> m have "R x s'" by (fastforce simp: triple_def)
    with assms(2) [of x] m Inr show ?thesis by (simp add: triple_def bindS_def)
  qed
qed

lemma triple_weaken:
  "triple P m Q E \<Longrightarrow> (\<And>s. P' s \<Longrightarrow> P s) \<Longrightarrow> (\<And>x s. Q x s \<Longrightarrow> Q' x s) \<Longrightarrow> (\<And>s. E s \<Longrightarrow> E' s) \<Longrightarrow>
   triple P' m Q' E'"
  unfolding triple_def by (fastforce split: prod.splits sum.splits)

text \<open>\<open>d\<close> triggers dispatched, \<open>a\<close> attempts and \<open>j\<close> successes reported.\<close>

definition counts :: "nat \<Rightarrow> nat \<Rightarrow> nat \<Rightarrow> live_state \<Rightarrow> bool" where
  "counts d a j s \<longleftrightarrow> dispatched (ltrace s) = [1..<Suc d] \<and>
     obj_get (lreport s) ''TRIGGER_WRITE_ATTEMPT_COUNT'' = JInt (int a) \<and>
     obj_get (lreport s) ''TRIGGER_WRITE_SUCCESS_COUNT'' = JInt (int j) \<and>
     obj_get (lreport s) ''CONTROL_EXECUTED'' = JStr (if 0 < j then ''YES'' else ''NO'')"

definition counted :: "nat \<Rightarrow> live_state \<Rightarrow> bool" where
  "counted k s \<longleftrightarrow> (\<exists>d a j. counts d a j s \<and> j \<le> d \<and> d \<le> a \<and> a \<le> Suc j \<and> a \<le> k)"

definition neutral :: "'a sup \<Rightarrow> bool" where
  "neutral m \<longleftrightarrow> (\<forall>d a j. triple (counts d a j) m (\<lambda>_. counts d a j) (counts d a j))"

lemma neutral_bindS [intro]: "neutral m \<Longrightarrow> (\<And>x. neutral (f x)) \<Longrightarrow> neutral (bindS m f)"
  unfolding neutral_def by (intro allI triple_bindS) auto

lemma neutral_basic [simp]: "neutral (retS x)" "neutral (failS e)" "neutral (liftS r)"
  "neutral (emit (Slept q))" "neutral (emit (Ran c l))" "neutral (emit TrafficEnded)"
  "neutral (emit (TrafficStarted c))"
  by (auto simp: neutral_def triple_def retS_def failS_def liftS_def emit_def counts_def split: sum.splits)

lemma neutral_note:
  "k \<notin> {''TRIGGER_WRITE_ATTEMPT_COUNT'', ''TRIGGER_WRITE_SUCCESS_COUNT'', ''CONTROL_EXECUTED''} \<Longrightarrow>
   neutral (note_report (obj_set k v))"
  by (auto simp: neutral_def triple_def note_report_def counts_def)

lemma stdout_keys:
  "l @ ''_RATIO_BIND_STDOUT'' \<notin> {''TRIGGER_WRITE_ATTEMPT_COUNT'', ''TRIGGER_WRITE_SUCCESS_COUNT'', ''CONTROL_EXECUTED''}"
  "l @ ''_TRIGGER_STDOUT'' \<notin> {''TRIGGER_WRITE_ATTEMPT_COUNT'', ''TRIGGER_WRITE_SUCCESS_COUNT'', ''CONTROL_EXECUTED''}"
proof -
  have r: "l @ s = t \<Longrightarrow> take 2 (rev t) = take 2 (rev s)" if "2 \<le> length s" for s t :: string
    using that by auto
  show "l @ ''_RATIO_BIND_STDOUT'' \<notin> {''TRIGGER_WRITE_ATTEMPT_COUNT'', ''TRIGGER_WRITE_SUCCESS_COUNT'', ''CONTROL_EXECUTED''}"
    using r [of "''_RATIO_BIND_STDOUT''"] by force
  show "l @ ''_TRIGGER_STDOUT'' \<notin> {''TRIGGER_WRITE_ATTEMPT_COUNT'', ''TRIGGER_WRITE_SUCCESS_COUNT'', ''CONTROL_EXECUTED''}"
    using r [of "''_TRIGGER_STDOUT''"] by force
qed

lemma neutral_if [intro]: "neutral m \<Longrightarrow> neutral m' \<Longrightarrow> neutral (if c then m else m')"
  by simp

lemma neutral_pair [intro]: "(\<And>x y. neutral (f x y)) \<Longrightarrow> neutral (case z of (x, y) \<Rightarrow> f x y)"
  by (cases z) simp

lemma neutral_require_remaining [simp]: "neutral (require_remaining rnd t0 now why)"
  by (simp add: require_remaining_def)

lemma neutral_tail:
  "neutral (case a of TimedOut \<Rightarrow> failS (Sup why 124) | SpawnFails t \<Rightarrow> failS (Escapes t)
     | Exited rc out js \<Rightarrow> if rc \<noteq> 0 then failS (Sup (why @ '':RC_'' @ show_int rc) rc) else retS (out, js))"
  by (cases a) simp_all

lemma neutral_command: "(\<And>l. neutral (emit (ev l))) \<Longrightarrow> neutral (run_command rnd t0 ev why a)"
  unfolding run_command_def by (intro neutral_bindS neutral_tail) simp_all

lemma neutral_attempt: "neutral (gate_attempt rnd t0 argv p0 role tries ext)"
  unfolding gate_attempt_def wait_for_observation_def Let_def
  by (intro neutral_bindS neutral_if neutral_pair neutral_command) simp_all

lemma neutral_gate: "neutral (stationarity_gate rnd t0 argv p0 role tries ext)"
proof (induction rnd t0 argv p0 role tries ext rule: stationarity_gate.induct)
  case (1 rnd t0 argv p0 role tries ext)
  then show ?case
    by (subst stationarity_gate.simps)
      (intro neutral_bindS neutral_attempt, auto simp: not_le intro!: neutral_bindS)
qed

lemma neutral_member [simp]: "neutral (member v k)"
  by (simp add: member_def)

lemma neutral_bind_ratio: "neutral (bind_ratio rnd t0 argv label a)"
  unfolding bind_ratio_def
  by (intro neutral_bindS neutral_if neutral_pair neutral_command neutral_note stdout_keys) simp_all

lemma neutral_triple:
  "neutral m \<Longrightarrow> (\<And>s. counts d a j s \<Longrightarrow> E s) \<Longrightarrow> triple (counts d a j) m (\<lambda>_. counts d a j) E"
  unfolding neutral_def by (blast intro: triple_weaken)

lemma counted_kept: "neutral m \<Longrightarrow> d \<le> k \<Longrightarrow>
    triple (counts d d d) m (\<lambda>_. counts d d d) (counted k)"
  by (rule neutral_triple, assumption, unfold counted_def, intro exI [of _ d] conjI) simp_all

lemma dispatch_counts:
  "triple (counts d d d) (dispatch rnd t0 (Suc d) t label a)
     (\<lambda>_. counts (Suc d) (Suc d) (Suc d)) (counted (Suc d))"
proof -
  have E: "\<And>s. counts d (Suc d) d s \<Longrightarrow> counted (Suc d) s"
    "\<And>s. counts (Suc d) (Suc d) d s \<Longrightarrow> counted (Suc d) s"
    unfolding counted_def by (blast intro: le_SucI order_refl)+
  have 1: "triple (counts d d d) (note_report (bump ''TRIGGER_WRITE_ATTEMPT_COUNT''))
      (\<lambda>_. counts d (Suc d) d) (counted (Suc d))"
    by (auto simp: triple_def note_report_def counts_def bump_def)
  have 2: "triple (counts d (Suc d) d) (note_report (obj_set ''SCIENTIFIC_TRIGGER_REPLAY_DECISION'' v))
      (\<lambda>_. counts d (Suc d) d) (counted (Suc d))" for v
    by (auto simp: triple_def note_report_def counts_def)
  have 3: "triple (counts d (Suc d) d) (member t ''trigger_command'') (\<lambda>_. counts d (Suc d) d) (counted (Suc d))"
    by (rule neutral_triple [OF neutral_member E(1)])
  have 4: "triple (counts d (Suc d) d) (run_command rnd t0 (Dispatched (Suc d) c) why a)
      (\<lambda>_. counts (Suc d) (Suc d) d) (counted (Suc d))" for c why
    unfolding run_command_def
  proof (rule triple_bindS)
    show "triple (counts d (Suc d) d) (require_remaining rnd t0 (ca_clock a) ''EXPERIMENT_TIMEOUT'')
        (\<lambda>_. counts d (Suc d) d) (counted (Suc d))"
      by (rule neutral_triple [OF neutral_require_remaining E(1)])
  next
    fix l
    show "triple (counts d (Suc d) d) (bindS (emit (Dispatched (Suc d) c l)) (\<lambda>_. case ca_end a of
         TimedOut \<Rightarrow> failS (Sup why 124)
       | SpawnFails t \<Rightarrow> failS (Escapes t)
       | Exited rc out js \<Rightarrow>
           if rc \<noteq> 0 then failS (Sup (why @ '':RC_'' @ show_int rc) rc) else retS (out, js)))
       (\<lambda>_. counts (Suc d) (Suc d) d) (counted (Suc d))"
    proof (rule triple_bindS)
      show "triple (counts d (Suc d) d) (emit (Dispatched (Suc d) c l))
          (\<lambda>_. counts (Suc d) (Suc d) d) (counted (Suc d))"
        by (auto simp: triple_def emit_def counts_def)
    next
      fix u
      show "triple (counts (Suc d) (Suc d) d) (case ca_end a of
         TimedOut \<Rightarrow> failS (Sup why 124)
       | SpawnFails t \<Rightarrow> failS (Escapes t)
       | Exited rc out js \<Rightarrow>
           if rc \<noteq> 0 then failS (Sup (why @ '':RC_'' @ show_int rc) rc) else retS (out, js))
       (\<lambda>_. counts (Suc d) (Suc d) d) (counted (Suc d))"
        by (rule neutral_triple [OF neutral_tail E(2)])
    qed
  qed
  have 5: "triple (counts (Suc d) (Suc d) d) (bindS (note_report (bump ''TRIGGER_WRITE_SUCCESS_COUNT'')) (\<lambda>_.
      bindS (note_report (obj_set ''CONTROL_EXECUTED'' (JStr ''YES''))) (\<lambda>_.
      note_report (obj_set (label @ ''_TRIGGER_STDOUT'') v))))
      (\<lambda>_. counts (Suc d) (Suc d) (Suc d)) (counted (Suc d))" for v
    using stdout_keys(2) [of label]
    by (auto simp: triple_def bindS_def note_report_def counts_def bump_def)
  show ?thesis
    unfolding dispatch_def
    by (rule triple_bindS [OF 1], rule triple_bindS [OF 2], rule triple_bindS [OF 3], rule triple_bindS [OF 4])
      (auto intro: 5)
qed

lemma counted_mono: "counted k s \<Longrightarrow> k \<le> k' \<Longrightarrow> counted k' s"
  unfolding counted_def by (meson le_trans)

lemma counts_counted: "counts d d d s \<Longrightarrow> d \<le> k \<Longrightarrow> counted k s"
  unfolding counted_def by (intro exI [of _ d] conjI) simp_all

lemma transition_counts:
  "triple (counts d d d) (run_transition rnd t0 (Suc d, t) e)
     (\<lambda>_. counts (Suc d) (Suc d) (Suc d)) (counted (Suc d))"
proof -
  have tail: "triple (counts d d d) (bindS (dispatch rnd t0 (Suc d) t label a) (\<lambda>_.
      bindS (member t ''post_stationarity_command'') (\<lambda>po.
        stationarity_gate rnd t0 po (post_started e) ''post'' (post_tries e) 0)))
      (\<lambda>_. counts (Suc d) (Suc d) (Suc d)) (counted (Suc d))" for label a
    by (rule triple_bindS [OF dispatch_counts], rule counted_kept)
      (auto intro: neutral_bindS neutral_gate)
  have chain: "triple (counts d d d) (bindS m f) (\<lambda>_. counts (Suc d) (Suc d) (Suc d)) (counted (Suc d))"
    if "neutral m" "\<And>x. triple (counts d d d) (f x) (\<lambda>_. counts (Suc d) (Suc d) (Suc d)) (counted (Suc d))"
    for m :: "'x sup" and f
    by (rule triple_bindS [OF counted_kept [OF that(1)] that(2)]) simp
  show ?thesis
  proof (cases "traffic_dead e")
    case True
    then show ?thesis
      using counted_kept [of "failS (Sup ''TRAFFIC_TERMINATED_BEFORE_TRIGGER'' 76) :: nat sup" d "Suc d"]
      by (simp add: run_transition_def Let_def triple_def failS_def)
  next
    case False
    have "run_transition rnd t0 (Suc d, t) e = bindS (member t ''ratio_bind_command'') (\<lambda>rb.
       bindS (member t ''label'') (\<lambda>l.
       bindS (bind_ratio rnd t0 rb (label_text l) (bind_answer e)) (\<lambda>_.
       bindS (dispatch rnd t0 (Suc d) t (label_text l) (trigger_answer e)) (\<lambda>_.
       bindS (member t ''post_stationarity_command'') (\<lambda>po.
         stationarity_gate rnd t0 po (post_started e) ''post'' (post_tries e) 0)))))"
      using False by (simp add: run_transition_def Let_def)
    then show ?thesis
      by (simp only:)
        (rule triple_bindS [OF counted_kept [OF neutral_member]], simp,
         rule triple_bindS [OF counted_kept [OF neutral_member]], simp,
         rule triple_bindS [OF counted_kept [OF neutral_bind_ratio] tail], simp)
  qed
qed

lemma transitions_counts:
  assumes "map fst its = [Suc d..<Suc d + length its]" and "k = d + length its"
  shows "triple (counts d d d) (run_transitions rnd t0 envs its) (\<lambda>_. counts k k k) (counted k)"
  using assms
proof (induction its arbitrary: d)
  case Nil
  then show ?case by (simp add: counted_kept)
next
  case (Cons it its)
  have "fst it = Suc d" using Cons.prems(1) by (simp add: upt_conv_Cons del: upt_Suc)
  then obtain t where it: "it = (Suc d, t)" by (metis prod.collapse)
  have tl: "map fst its = [Suc (Suc d)..<Suc (Suc d) + length its]" "k = Suc d + length its"
    using Cons.prems by (simp_all add: upt_conv_Cons del: upt_Suc)
  have w: "triple (counts d d d) (run_transition rnd t0 (Suc d, t) (envs (Suc d)))
      (\<lambda>_. counts (Suc d) (Suc d) (Suc d)) (counted k)"
    by (rule triple_weaken [OF transition_counts]) (use tl(2) in \<open>auto intro: counted_mono\<close>)
  show ?case
    unfolding it run_transitions.simps fst_conv
    by (rule triple_bindS [OF w], rule triple_bindS [OF Cons.IH [OF tl]])
      (rule neutral_triple [OF neutral_basic(1)], erule counts_counted, rule order_refl)
qed

lemma live_counts:
  assumes "length (plan_transitions plan) = 6"
  shows "triple (counts 0 0 0) (sup_live rnd env plan token) (\<lambda>_. counts 6 6 6) (counted 6)"
proof -
  have t: "triple (counts 0 0 0) (run_transitions rnd (run_started env) (transition_envs env) (numbered plan))
      (\<lambda>_. counts 6 6 6) (counted 6)"
    by (rule transitions_counts) (simp_all add: numbered_fst assms del: upt_Suc)
  have e: "counts 6 6 6 s \<Longrightarrow> counted 6 s" for s by (erule counts_counted) simp
  have n: "neutral (note_report (obj_set ''PRE_STEP_EXTENSION_COUNT'' v))"
    "neutral (note_report (obj_set ''POST_STEP_EXTENSION_COUNTS'' v))"
    "neutral (note_report (obj_set ''SUPERVISOR_GATE'' v))" "neutral (note_report (obj_set ''FAIL_CLOSED_REASON'' v))"
    for v by (rule neutral_note, simp)+
  have fin: "neutral (finalize rnd env plan)"
    unfolding finalize_def by (intro neutral_bindS neutral_command n) simp_all
  have last: "neutral (bindS (note_report (obj_set ''POST_STEP_EXTENSION_COUNTS'' (JArr (map (\<lambda>n. JInt (int n)) cs))))
      (\<lambda>_. if final_dead env then failS (Sup ''TRAFFIC_TERMINATED_BEFORE_FINALIZATION'' 76) else retS ()))" for cs
    by (intro neutral_bindS neutral_if n) simp_all
  have s: "triple (counts 0 0 0) (supervised rnd env plan) (\<lambda>_. counts 6 6 6) (counted 6)"
    unfolding supervised_def numbered_def [symmetric]
    by (rule triple_bindS [OF counted_kept [OF neutral_gate]], simp,
        rule triple_bindS [OF counted_kept [OF n(1)]], simp,
        rule triple_bindS [OF t], rule neutral_triple [OF last e])
  have te: "neutral (terminate_process err)" for err
    unfolding terminate_process_def by (intro neutral_bindS) (simp_all split: option.split)
  have f: "triple (counts 0 0 0) (finallyS (supervised rnd env plan) (terminate_process (end_error env)))
      (\<lambda>_. counts 6 6 6) (counted 6)"
    unfolding triple_def
  proof (intro allI impI)
    fix st assume c: "counts 0 0 0 st"
    obtain r st' where m: "supervised rnd env plan st = (r, st')" by (cases "supervised rnd env plan st")
    obtain r' st'' where m': "terminate_process (end_error env) st' = (r', st'')"
      by (cases "terminate_process (end_error env) st'")
    have keep: "counts d a j st' \<Longrightarrow> counts d a j st''" for d a j
      using te [of "end_error env"] m' unfolding neutral_def triple_def by (fastforce split: sum.splits)
    have "case r of Inl e \<Rightarrow> counted 6 st' | Inr x \<Rightarrow> counts 6 6 6 st'"
      using s c m unfolding triple_def by fastforce
    then have "case r of Inl e \<Rightarrow> counted 6 st'' | Inr x \<Rightarrow> counts 6 6 6 st''"
      using keep by (auto simp: counted_def split: sum.splits) (meson keep)+
    then show "case finallyS (supervised rnd env plan) (terminate_process (end_error env)) st of
        (Inl e, s') \<Rightarrow> counted 6 s' | (Inr x, s') \<Rightarrow> counts 6 6 6 s'"
      using e by (auto simp: finallyS_def m m' split: sum.splits)
  qed
  have start: "neutral (case traffic_error env of Some t \<Rightarrow> failS (Escapes t)
       | None \<Rightarrow> emit (TrafficStarted (obj_get plan ''traffic_command'')))"
    by (simp split: option.split)
  show ?thesis
    unfolding sup_live_def
    by (rule triple_bindS [OF counted_kept], simp, simp,
        rule triple_bindS [OF counted_kept [OF start]], simp,
        rule triple_bindS [OF f], rule neutral_triple [OF fin e])
qed


subsection \<open>A sample sequence\<close>

definition sample_command :: json where
  "sample_command = JArr [JStr ''c'']"

definition sample_manifest :: json where
  "sample_manifest = JObj [(''schema'', JStr BINDINGS_SCHEMA), (''traffic_command'', sample_command),
     (''initial_stationarity_command'', sample_command), (''finalization_command'', sample_command),
     (''transitions'', JArr (map (\<lambda>i. JObj [(''label'', JStr (label_of i)),
        (''ratio_bind_command'', sample_command), (''trigger_command'', sample_command),
        (''post_stationarity_command'', sample_command)]) [1..<7]))]"

definition sample_transition :: "nat \<Rightarrow> json" where
  "sample_transition i = JObj [(''label'', JStr (label_of i)), (''ratio_bind_command'', sample_command),
     (''trigger_command'', sample_command), (''post_stationarity_command'', sample_command)]"

definition sample_sequence :: obj where
  "sample_sequence = [(''schema'', JStr PLAN_SCHEMA), (''traffic_command'', sample_command),
     (''initial_stationarity_command'', sample_command), (''finalization_command'', sample_command),
     (''transitions'', JArr (map sample_transition [1..<7]))]"

lemma sample_validated: "validate_command sample_command role = Inr sample_command"
  by (simp add: validate_command_Inr sample_command_def nonempty_str_def no_nul_def)

lemma sample_sequence_built: "build_plan sample_manifest = Inr sample_sequence"
proof -
  have k: "require_exact_keys sample_manifest MANIFEST_KEYS role = (case sample_manifest of JObj ob \<Rightarrow> Inr ob | _ \<Rightarrow> Inl (Domain []))"
    for role by (simp add: require_exact_keys_def sample_manifest_def MANIFEST_KEYS_def keys_of_def del: upt_Suc)
  have t: "build_transition (i, sample_transition (Suc i)) = Inr (sample_transition (Suc i))" for i
    by (simp add: build_transition_def Let_def require_exact_keys_def sample_transition_def TRANSITION_KEYS_def
      keys_of_def sample_validated)
  have l: "length (map sample_transition [1..<7]) = 6" "length TRANSITION_LABELS = 6"
    by (simp_all add: TRANSITION_LABELS_def del: upt_Suc)
  have m: "mapE build_transition (zip [0..<6] (map sample_transition [1..<7])) = Inr (map sample_transition [1..<7])"
    unfolding mapE_Inr_iff by (intro conjI allI impI) (simp_all add: t del: upt_Suc)
  have s: "sample_manifest = JObj [(''schema'', JStr BINDINGS_SCHEMA), (''traffic_command'', sample_command),
     (''initial_stationarity_command'', sample_command), (''finalization_command'', sample_command),
     (''transitions'', JArr (map sample_transition [1..<7]))]"
    by (simp add: sample_manifest_def sample_transition_def [abs_def] del: upt_Suc)
  have f: "obj_get [(''schema'', JStr BINDINGS_SCHEMA), (''traffic_command'', sample_command),
     (''initial_stationarity_command'', sample_command), (''finalization_command'', sample_command),
     (''transitions'', JArr (map sample_transition [1..<7]))] ''transitions'' = JArr (map sample_transition [1..<7])"
    by (simp del: upt_Suc)
  show ?thesis
    unfolding build_plan_def k
    unfolding s json.case bindE_simps f l m
    by (simp add: sample_validated sample_sequence_def del: upt_Suc)
qed

theorem built_plan_is_loaded_witness:
  "build_plan sample_manifest = Inr sample_sequence \<and>
   load_plan (FileJson (JObj sample_sequence)) = Inr sample_sequence"
  using sample_sequence_built built_plan_is_loaded [OF sample_sequence_built] by blast

text \<open>A world in which every command answers at once and every phase is stationary; the machine's
  subtraction is exact.\<close>

definition prompt_answer :: "string \<Rightarrow> json \<Rightarrow> cmd_answer" where
  "prompt_answer out js = \<lparr>ca_clock = 0, ca_end = Exited 0 out (Some js)\<rparr>"

definition prompt_try :: "nat \<Rightarrow> gate_try" where
  "prompt_try ext = \<lparr>gt_elapsed_clock = 0, gt_budget_clock = 0,
     gt_command = prompt_answer [] (JObj [(''output_stationarity_gate'', JStr ''PASS'')])\<rparr>"

definition prompt_env :: live_env where
  "prompt_env = \<lparr>live_enabled = True, run_started = 0, traffic_error = None, pre_started = 0,
     pre_tries = prompt_try,
     transition_envs = (\<lambda>i. \<lparr>traffic_dead = False, bind_answer = prompt_answer ''RATIO_BOUND=PASS'' JNull,
       trigger_answer = prompt_answer [] JNull, post_started = 0, post_tries = prompt_try\<rparr>),
     final_dead = False, final_answer = prompt_answer [] JNull, end_error = None\<rparr>"

lemma prompt_remaining: "remaining (\<lambda>x. x) 0 0 = 180"
  by (simp add: remaining_def EXPERIMENT_MAX_S_def)

lemma prompt_gate:
  assumes "role = ''pre'' \<or> role = ''post''"
  shows "result_of (stationarity_gate (\<lambda>x. x) 0 argv 0 role prompt_try 0) = Inr 0"
  using assms
  by (subst stationarity_gate.simps)
    (auto simp: gate_attempt_def wait_for_observation_def phase_limit_def Let_def run_command_def
      prompt_try_def prompt_answer_def prompt_remaining read_gate_def PRE_MIN_S_def POST_MIN_S_def
      PRE_MAX_S_def POST_MAX_S_def)

lemma prompt_smooth: "smooth_run (\<lambda>x. x) prompt_env (Some SUP_LIVE_TOKEN) sample_sequence"
proof -
  have u: "untroubled (\<lambda>x. x) 0 (transition_envs prompt_env) (i, sample_transition k)" for i k
    by (auto simp: untroubled_def Let_def prompt_env_def answered_def prompt_answer_def prompt_remaining
      member_Inr sample_transition_def splitlines_def strip_def is_eol_def is_space_def)
  have "untroubled (\<lambda>x. x) (run_started prompt_env) (transition_envs prompt_env) it"
    if "it \<in> set (numbered sample_sequence)" for it
  proof -
    from that obtain n where n: "n < length (numbered sample_sequence)" "it = numbered sample_sequence ! n"
      by (metis in_set_conv_nth)
    then have "it = (Suc n, sample_transition (Suc n))"
      by (simp add: numbered_def plan_transitions_def sample_sequence_def del: upt_Suc)
    with u show ?thesis by (simp add: prompt_env_def)
  qed
  then show ?thesis by (simp add: smooth_run_def traffic_runs_def list_all_iff) (simp add: prompt_env_def)
qed

lemma prompt_phases:
  "initial_phase (\<lambda>x. x) prompt_env sample_sequence = ''PASS''"
  "post_phases (\<lambda>x. x) prompt_env sample_sequence = replicate 6 ''PASS''"
proof -
  show "initial_phase (\<lambda>x. x) prompt_env sample_sequence = ''PASS''"
    by (simp add: initial_phase_def phase_gate_def prompt_env_def prompt_gate)
  have "post_gate (\<lambda>x. x) (run_started prompt_env) (transition_envs prompt_env) it = ''PASS''" for it
    by (simp add: post_gate_def phase_gate_def prompt_env_def prompt_gate)
  moreover have "length (numbered sample_sequence) = 6"
    by (simp add: numbered_fst plan_transitions_def sample_sequence_def del: upt_Suc)
  ultimately show "post_phases (\<lambda>x. x) prompt_env sample_sequence = replicate 6 ''PASS''"
    unfolding post_phases_def by (intro nth_equalityI) simp_all
qed

lemma sample_sequence_loaded: "load_plan (FileJson (JObj sample_sequence)) = Inr sample_sequence"
  by (rule good_plan_loads [OF build_plan_good [OF sample_sequence_built]])

abbreviation prompt_run :: "(string + int) \<times> obj option \<times> sup_event list" where
  "prompt_run \<equiv> sup_main (\<lambda>x. x) prompt_env (FileJson (JObj sample_sequence)) LiveRun (Some SUP_LIVE_TOKEN) None"


lemma prompt_written: "\<exists>rc r tr. prompt_run = (rc, Some r, tr)"
proof -
  let ?s = "\<lparr>lreport = base_report LiveRun, ltrace = []\<rparr>"
  let ?env = prompt_env
  let ?g = "stationarity_gate (\<lambda>x. x) 0 sample_command 0 ''pre'' prompt_try 0"
  obtain v t where m: "sup_live (\<lambda>x. x) ?env sample_sequence (Some SUP_LIVE_TOKEN) ?s = (v, t)"
    by (cases "sup_live (\<lambda>x. x) ?env sample_sequence (Some SUP_LIVE_TOKEN) ?s")
  have v: "v = result_of (sup_live (\<lambda>x. x) ?env sample_sequence (Some SUP_LIVE_TOKEN))"
    using oblivious_live [of "\<lambda>x. x" ?env sample_sequence "Some SUP_LIVE_TOKEN"] m
    by (metis fst_conv oblivious_def)
  have ts: "\<exists>ns. result_of (run_transitions (\<lambda>x. x) (run_started ?env) (transition_envs ?env) its) = Inr ns"
    if "list_all (untroubled (\<lambda>x. x) (run_started ?env) (transition_envs ?env)) its" for its
    using that
  proof (induction its)
    case Nil
    then show ?case by simp
  next
    case (Cons it its)
    obtain i u where it: "it = (i, u)" by (cases it)
    have "post_gate (\<lambda>x. x) (run_started ?env) (transition_envs ?env) (i, u) = ''PASS''"
      by (simp add: post_gate_def phase_gate_def prompt_env_def prompt_gate)
    with run_transition_untroubled [of "\<lambda>x. x" "run_started ?env" "transition_envs ?env" i u] Cons it
    show ?case by auto
  qed
  have nb: "list_all (untroubled (\<lambda>x. x) (run_started ?env) (transition_envs ?env)) (numbered sample_sequence)"
    using prompt_smooth by (simp add: smooth_run_def)
  from ts [OF nb] obtain ns where ns:
    "result_of (run_transitions (\<lambda>x. x) (run_started ?env) (transition_envs ?env) (numbered sample_sequence)) = Inr ns"
    by blast
  have g: "result_of (stationarity_gate (\<lambda>x. x) (run_started ?env) argv (pre_started ?env) ''pre'' (pre_tries ?env) 0) = Inr 0"
    for argv by (simp add: prompt_env_def prompt_gate)
  have "result_of (supervised (\<lambda>x. x) ?env sample_sequence) = Inr ()"
    by (simp add: supervised_parts g ns) (simp add: prompt_env_def)
  moreover have "result_of (finalize (\<lambda>x. x) ?env sample_sequence) = Inr 0"
    by (simp add: finalize_def run_command_def prompt_env_def prompt_answer_def prompt_remaining)
  ultimately have "v = Inr 0"
    unfolding v sup_live_def by (simp add: ensure_def) (simp add: prompt_env_def ensure_def)
  with m sample_sequence_loaded show ?thesis
    by (simp add: sup_main_def bindS_def liftS_def)
qed



subsection \<open>Two runs that end badly\<close>

text \<open>The first trigger does not return in time: it was dispatched, and what became of it is not
  known, but the report says that no control was executed.\<close>

definition late_env :: live_env where
  "late_env = prompt_env \<lparr>transition_envs := (\<lambda>i. \<lparr>traffic_dead = False,
     bind_answer = prompt_answer ''RATIO_BOUND=PASS'' JNull,
     trigger_answer = \<lparr>ca_clock = 0, ca_end = TimedOut\<rparr>, post_started = 0, post_tries = prompt_try\<rparr>)\<rparr>"

lemma lost_trigger_is_reported_as_no_control:
  "case sup_main (\<lambda>x. x) late_env (FileJson (JObj sample_sequence)) LiveRun (Some SUP_LIVE_TOKEN) None of
     (rc, Some r, tr) \<Rightarrow> dispatched tr = [1] \<and> obj_get r ''CONTROL_EXECUTED'' = JStr ''NO''
   | _ \<Rightarrow> False"
  by code_simp

text \<open>A plan without a ratio command passes the check; its run starts the traffic and then dies of a
  \<open>KeyError\<close>, without a report.\<close>

definition unbound_sequence :: obj where
  "unbound_sequence = obj_set ''transitions'' (JArr (map (\<lambda>i. JObj [(''label'', JStr (label_of i)),
     (''trigger_command'', sample_command), (''post_stationarity_command'', sample_command)]) [1..<7]))
     sample_sequence"

lemma unbound_plan_loses_report:
  "case sup_main (\<lambda>x. x) prompt_env (FileJson (JObj unbound_sequence)) LiveRun (Some SUP_LIVE_TOKEN) None of
     (rc, rep, tr) \<Rightarrow> rc = Inl ''KeyError'' \<and> rep = None \<and> hd tr = TrafficStarted sample_command"
  by code_simp

end
