(* ===== verification/Os_Process.thy ===== *)
theory Os_Process
  imports Py_Path Py_Json
begin

section \<open>Processes over a shared file store\<close>

text \<open>
  The orchestration commands (the stationarity adapter, the precontrol handoff) are sequences of
  system calls: they test, read and create files, start programs, read clocks and sleep, and any
  call may raise.  A computation is a function on the state of the process (the file store, the
  number of calls made, the trace of what the process did); its outcome is an exception or a
  value, or \<open>None\<close> when it never returns.  The \<open>world\<close> says, for the \<open>n\<close>-th call, what other
  processes did to the store before it, whether it raises, what the clocks show and what a
  started program does.
\<close>

named_theorems proc_simps \<open>running a computation\<close>

subsection \<open>Exceptions\<close>

text \<open>The exceptions the handlers of the scripts tell apart, by type name; \<open>JSONDecodeError\<close> is a
  \<open>ValueError\<close>.  A script refuses with a reason and an exit code of its own.\<close>

datatype py_exn = OsError string | ValError string | JsonError | OtherError string

datatype cmd_error = Refused string int | Raised py_exn

definition exn_type :: "py_exn \<Rightarrow> string" where
  "exn_type e = (case e of OsError t \<Rightarrow> t | ValError t \<Rightarrow> t | JsonError \<Rightarrow> ''JSONDecodeError''
     | OtherError t \<Rightarrow> t)"

definition refuse_unless :: "bool \<Rightarrow> string \<Rightarrow> int \<Rightarrow> cmd_error + unit" where
  "refuse_unless c why rc = (if c then Inr () else Inl (Refused why rc))"

subsection \<open>The store and the world\<close>

text \<open>
  A name is a regular file with its bytes, or something else (a directory, a device, a broken
  link), whose use as a file raises.  Names are absolute paths; two names are two files.
\<close>

datatype entry = File string | Other

type_synonym store = "path \<rightharpoonup> entry"

text \<open>A program that was started ends with a code, its standard output and error, or starting it
  (or decoding its output) raises.\<close>

datatype tool_end = ToolRaises py_exn | ToolEnded int string string

datatype act = Wrote path string | Ran "string list" tool_end | Slept rat

record process =
  store :: store
  ticks :: nat
  acts :: "act list"

record world =
  others :: "nat \<Rightarrow> store \<Rightarrow> store"
  fault :: "nat \<Rightarrow> py_exn option"
  torn :: "nat \<Rightarrow> nat option"
  monotonic :: "nat \<Rightarrow> rat"
  utc_ns :: "nat \<Rightarrow> int"
  uuid4 :: "nat \<Rightarrow> string"
  pid :: int
  cwd :: path
  program :: "nat \<Rightarrow> string list \<Rightarrow> store \<Rightarrow> tool_end \<times> store"
  resolves :: "nat \<Rightarrow> path \<Rightarrow> py_exn + path"
  executable :: "path \<Rightarrow> bool"
  loads :: "string \<Rightarrow> py_exn + json"
  dumps :: "json \<Rightarrow> string"
  dumps_compact :: "json \<Rightarrow> string"
  rnd :: "rat \<Rightarrow> rat"

subsection \<open>Computations\<close>

type_synonym 'a proc = "process \<Rightarrow> ((cmd_error + 'a) \<times> process) option"

definition pure :: "'a \<Rightarrow> 'a proc" where
  "pure x s = Some (Inr x, s)"

definition stop :: "cmd_error \<Rightarrow> 'a proc" where
  "stop e s = Some (Inl e, s)"

definition lift :: "cmd_error + 'a \<Rightarrow> 'a proc" where
  "lift r s = Some (r, s)"

definition bindP :: "'a proc \<Rightarrow> ('a \<Rightarrow> 'b proc) \<Rightarrow> 'b proc" where
  "bindP m f s = (case m s of None \<Rightarrow> None | Some (Inl e, s') \<Rightarrow> Some (Inl e, s')
     | Some (Inr x, s') \<Rightarrow> f x s')"

text \<open>\<open>try: m\<close> with a handler for every exception.\<close>

definition catchP :: "'a proc \<Rightarrow> (cmd_error \<Rightarrow> 'a proc) \<Rightarrow> 'a proc" where
  "catchP m h s = (case m s of None \<Rightarrow> None | Some (Inl e, s') \<Rightarrow> h e s' | Some (Inr x, s') \<Rightarrow> Some (Inr x, s'))"

text \<open>A loop that leaves with \<open>Inl\<close> and goes on with \<open>Inr\<close>.\<close>

partial_function (option) loopP ::
    "('x \<Rightarrow> ('y + 'x) proc) \<Rightarrow> 'x \<Rightarrow> process \<Rightarrow> ((cmd_error + 'y) \<times> process) option" where
  "loopP body x s = (case body x s of None \<Rightarrow> None
     | Some (r, s') \<Rightarrow> (case r of Inl e \<Rightarrow> Some (Inl e, s')
         | Inr (Inl y) \<Rightarrow> Some (Inr y, s') | Inr (Inr x') \<Rightarrow> loopP body x' s'))"

declare loopP.simps [code]

fun eachP :: "('a \<Rightarrow> unit proc) \<Rightarrow> 'a list \<Rightarrow> unit proc" where
  "eachP f [] = pure ()"
| "eachP f (x # xs) = bindP (f x) (\<lambda>_. eachP f xs)"

subsection \<open>System calls\<close>

definition abs_path :: "world \<Rightarrow> path \<Rightarrow> path" where
  "abs_path w p = (if is_absolute p then p else child_path (cwd w) (parts p))"

definition sys :: "world \<Rightarrow> (nat \<Rightarrow> store \<Rightarrow> (cmd_error + 'a) \<times> store \<times> act list) \<Rightarrow> 'a proc" where
  "sys w f s = (let n = ticks s; st = others w n (store s) in case fault w n of
       Some e \<Rightarrow> Some (Inl (Raised e), s \<lparr>store := st, ticks := Suc n\<rparr>)
     | None \<Rightarrow> (case f n st of (r, st', new) \<Rightarrow>
         Some (r, s \<lparr>store := st', ticks := Suc n, acts := acts s @ new\<rparr>)))"

definition not_found :: "cmd_error + 'a" where
  "not_found = Inl (Raised (OsError ''FileNotFoundError''))"

definition as_file :: "entry option \<Rightarrow> cmd_error + string" where
  "as_file e = (case e of None \<Rightarrow> not_found | Some Other \<Rightarrow> Inl (Raised (OsError ''IsADirectoryError''))
     | Some (File c) \<Rightarrow> Inr c)"

definition is_file :: "world \<Rightarrow> path \<Rightarrow> bool proc" where
  "is_file w p = sys w (\<lambda>n st. (Inr (case st (abs_path w p) of Some (File c) \<Rightarrow> True | _ \<Rightarrow> False), st, []))"

definition lexists :: "world \<Rightarrow> path \<Rightarrow> bool proc" where
  "lexists w p = sys w (\<lambda>n st. (Inr (st (abs_path w p) \<noteq> None), st, []))"

definition read_file :: "world \<Rightarrow> path \<Rightarrow> string proc" where
  "read_file w p = sys w (\<lambda>n st. (as_file (st (abs_path w p)), st, []))"

definition file_size :: "world \<Rightarrow> path \<Rightarrow> int proc" where
  "file_size w p = sys w (\<lambda>n st. (case as_file (st (abs_path w p)) of Inl e \<Rightarrow> Inl e
     | Inr c \<Rightarrow> Inr (int (length c)), st, []))"

definition make_dirs :: "world \<Rightarrow> path \<Rightarrow> unit proc" where
  "make_dirs w p = sys w (\<lambda>n st. (case st (abs_path w p) of
       Some (File c) \<Rightarrow> (Inl (Raised (OsError ''FileExistsError'')), st, [])
     | _ \<Rightarrow> (Inr (), st(abs_path w p \<mapsto> Other), [])))"

definition make_dir :: "world \<Rightarrow> path \<Rightarrow> unit proc" where
  "make_dir w p = sys w (\<lambda>n st. if st (abs_path w p) \<noteq> None
     then (Inl (Raised (OsError ''FileExistsError'')), st, [])
     else (Inr (), st(abs_path w p \<mapsto> Other), []))"

text \<open>Opening a file for writing, filling, flushing and closing it; a call that raises leaves what
  \<open>torn\<close> says: nothing, or the first bytes.  \<open>exclusive\<close> is mode \<open>x\<close>.\<close>

definition write_file :: "bool \<Rightarrow> world \<Rightarrow> path \<Rightarrow> string \<Rightarrow> unit proc" where
  "write_file exclusive w p data s = (let n = ticks s; st = others w n (store s); q = abs_path w p;
       finish = (\<lambda>r d. Some (r, s \<lparr>store := st(q \<mapsto> File d), ticks := Suc n, acts := acts s @ [Wrote q d]\<rparr>));
       abort = (\<lambda>e. Some (Inl (Raised e), s \<lparr>store := st, ticks := Suc n\<rparr>))
     in if exclusive \<and> st q \<noteq> None then abort (OsError ''FileExistsError'')
     else if st q = Some Other then abort (OsError ''IsADirectoryError'')
     else case fault w n of None \<Rightarrow> finish (Inr ()) data
       | Some e \<Rightarrow> (case torn w n of None \<Rightarrow> abort e | Some k \<Rightarrow> finish (Inl (Raised e)) (take k data)))"

definition run_program :: "world \<Rightarrow> string list \<Rightarrow> tool_end proc" where
  "run_program w argv s = (let n = ticks s; st = others w n (store s) in case program w n argv st of
     (t, st') \<Rightarrow> Some (Inr t, s \<lparr>store := st', ticks := Suc n, acts := acts s @ [Ran argv t]\<rparr>))"

definition resolve_path :: "world \<Rightarrow> path \<Rightarrow> path proc" where
  "resolve_path w p = sys w (\<lambda>n st. (case resolves w n p of Inl e \<Rightarrow> Inl (Raised e) | Inr q \<Rightarrow> Inr q, st, []))"

definition clock_call :: "(nat \<Rightarrow> 'a) \<Rightarrow> 'a proc" where
  "clock_call f s = Some (Inr (f (ticks s)), s \<lparr>ticks := Suc (ticks s)\<rparr>)"

definition pause :: "rat \<Rightarrow> unit proc" where
  "pause d s = Some (Inr (), s \<lparr>ticks := Suc (ticks s), acts := acts s @ [Slept d]\<rparr>)"

text \<open>\<open>json.load\<close> of a file that was read.\<close>

definition parse_json :: "world \<Rightarrow> string \<Rightarrow> json proc" where
  "parse_json w text = lift (case loads w text of Inl e \<Rightarrow> Inl (Raised e) | Inr v \<Rightarrow> Inr v)"

subsection \<open>Partial correctness\<close>

text \<open>From a state with \<open>P\<close>, a returned value satisfies \<open>Q\<close> and an exception \<open>R\<close>, each with the state
  it leaves.\<close>

definition spec :: "(process \<Rightarrow> bool) \<Rightarrow> 'a proc \<Rightarrow> ('a \<Rightarrow> process \<Rightarrow> bool) \<Rightarrow>
    (cmd_error \<Rightarrow> process \<Rightarrow> bool) \<Rightarrow> bool" where
  "spec P m Q R \<longleftrightarrow> (\<forall>s. P s \<longrightarrow> (case m s of None \<Rightarrow> True | Some (Inl e, s') \<Rightarrow> R e s'
     | Some (Inr x, s') \<Rightarrow> Q x s'))"

named_theorems spec_intros \<open>rules for the triples of the combinators\<close>

lemma specI:
  "(\<And>s x s'. P s \<Longrightarrow> m s = Some (Inr x, s') \<Longrightarrow> Q x s') \<Longrightarrow>
   (\<And>s e s'. P s \<Longrightarrow> m s = Some (Inl e, s') \<Longrightarrow> R e s') \<Longrightarrow> spec P m Q R"
  by (auto simp: spec_def split: option.splits prod.splits sum.splits)

lemma specD:
  "spec P m Q R \<Longrightarrow> P s \<Longrightarrow> m s = Some (Inr x, s') \<Longrightarrow> Q x s'"
  "spec P m Q R \<Longrightarrow> P s \<Longrightarrow> m s = Some (Inl e, s') \<Longrightarrow> R e s'"
  by (auto simp: spec_def)

lemma spec_weaken:
  "spec P m Q R \<Longrightarrow> (\<And>s. P' s \<Longrightarrow> P s) \<Longrightarrow> (\<And>x s. Q x s \<Longrightarrow> Q' x s) \<Longrightarrow>
   (\<And>e s. R e s \<Longrightarrow> R' e s) \<Longrightarrow> spec P' m Q' R'"
  by (rule specI) (metis specD)+

lemma spec_conj:
  "spec P m Q R \<Longrightarrow> spec P m Q' R' \<Longrightarrow>
   spec P m (\<lambda>x s. Q x s \<and> Q' x s) (\<lambda>e s. R e s \<and> R' e s)"
  by (rule specI) (auto dest: specD)

lemma bindP_Some:
  "bindP m f s = Some (r, t) \<longleftrightarrow>
   (\<exists>e. m s = Some (Inl e, t) \<and> r = Inl e) \<or> (\<exists>x s'. m s = Some (Inr x, s') \<and> f x s' = Some (r, t))"
  by (auto simp: bindP_def split: option.splits prod.splits sum.splits)

lemma catchP_Some:
  "catchP m h s = Some (r, t) \<longleftrightarrow>
   (\<exists>x. m s = Some (Inr x, t) \<and> r = Inr x) \<or> (\<exists>e s'. m s = Some (Inl e, s') \<and> h e s' = Some (r, t))"
  by (auto simp: catchP_def split: option.splits prod.splits sum.splits)

lemma parse_json_Inr: "parse_json w text s = Some (Inr v, t) \<longleftrightarrow> loads w text = Inr v \<and> t = s"
  by (auto simp: parse_json_def lift_def split: sum.splits)

lemma spec_pure [spec_intros]: "spec (Q x) (pure x) Q R"
  by (simp add: spec_def pure_def)

lemma spec_stop [spec_intros]: "spec (R e) (stop e) Q R"
  by (simp add: spec_def stop_def)

lemma spec_lift [spec_intros]:
  "spec (\<lambda>s. (\<forall>x. r = Inr x \<longrightarrow> Q x s) \<and> (\<forall>e. r = Inl e \<longrightarrow> R e s)) (lift r) Q R"
  by (cases r) (simp_all add: spec_def lift_def)

lemma spec_bindP [spec_intros]:
  "spec P m Q' R \<Longrightarrow> (\<And>x. spec (Q' x) (f x) Q R) \<Longrightarrow> spec P (bindP m f) Q R"
  by (rule specI) (fastforce simp: bindP_Some dest: specD)+

lemma spec_then:
  assumes "spec P m Q' R'" and "\<And>x. spec (Q' x) (f x) Q R" and "\<And>e s. R' e s \<Longrightarrow> R e s"
  shows "spec P (bindP m f) Q R"
  by (rule spec_bindP [OF _ assms(2)], rule spec_weaken [OF assms(1)]) (simp_all add: assms(3))

lemma spec_catchP [spec_intros]:
  "spec P m Q R' \<Longrightarrow> (\<And>e. spec (R' e) (h e) Q R) \<Longrightarrow> spec P (catchP m h) Q R"
  by (rule specI) (fastforce simp: catchP_Some dest: specD)+

lemma spec_if [spec_intros]:
  "(c \<Longrightarrow> spec P m Q R) \<Longrightarrow> (\<not> c \<Longrightarrow> spec P m' Q R) \<Longrightarrow> spec P (if c then m else m') Q R"
  by simp

text \<open>Induction on a run of the loop, and the loop rule with an invariant.\<close>

lemma loopP_induct:
  assumes "loopP body x s = Some r"
    and "\<And>loop x s r. (\<And>x s r. loop body x s = Some r \<Longrightarrow> P x s r) \<Longrightarrow>
       (case body x s of None \<Rightarrow> None | Some (r, s') \<Rightarrow> (case r of Inl e \<Rightarrow> Some (Inl e, s')
         | Inr (Inl y) \<Rightarrow> Some (Inr y, s') | Inr (Inr x') \<Rightarrow> loop body x' s')) = Some r \<Longrightarrow> P x s r"
  shows "P x s r"
proof -
  have "body = body \<longrightarrow> P x s r"
    using loopP.raw_induct [where P = "\<lambda>b x s r. b = body \<longrightarrow> P x s r" and xa = "((body, x), s)" and y = r]
      assms by force
  then show ?thesis by simp
qed

lemma spec_loopP:
  assumes "\<And>x. spec (I x) (body x) (\<lambda>r s. case r of Inl y \<Rightarrow> Q y s | Inr x' \<Rightarrow> I x' s) R"
  shows "spec (I x) (loopP body x) Q R"
proof -
  have "I x s \<longrightarrow> (case r of (Inl e, s') \<Rightarrow> R e s' | (Inr y, s') \<Rightarrow> Q y s')"
    if "loopP body x s = Some r" for s r
    using that
  proof (rule loopP_induct)
    fix loop x s r
    assume IH: "\<And>x s r. loop body x s = Some r \<Longrightarrow>
        I x s \<longrightarrow> (case r of (Inl e, s') \<Rightarrow> R e s' | (Inr y, s') \<Rightarrow> Q y s')"
      and run: "(case body x s of None \<Rightarrow> None | Some (r, s') \<Rightarrow> (case r of Inl e \<Rightarrow> Some (Inl e, s')
         | Inr (Inl y) \<Rightarrow> Some (Inr y, s') | Inr (Inr x') \<Rightarrow> loop body x' s')) = Some r"
    show "I x s \<longrightarrow> (case r of (Inl e, s') \<Rightarrow> R e s' | (Inr y, s') \<Rightarrow> Q y s')"
    proof
      assume I: "I x s"
      from run obtain q t where b: "body x s = Some (q, t)" by (cases "body x s") auto
      show "case r of (Inl e, s') \<Rightarrow> R e s' | (Inr y, s') \<Rightarrow> Q y s'"
      proof (cases q)
        case (Inl e)
        with b run specD(2) [OF assms I] show ?thesis by auto
      next
        case (Inr z)
        with specD(1) [OF assms I] b have "case z of Inl y \<Rightarrow> Q y t | Inr x' \<Rightarrow> I x' t" by blast
        with Inr b run IH show ?thesis by (cases z) auto
      qed
    qed
  qed
  then show ?thesis by (fastforce simp: spec_def split: option.splits prod.splits sum.splits)
qed

subsection \<open>What a process leaves behind\<close>

text \<open>The programs a process has run, and what it has written under one name.\<close>

definition tools_run :: "process \<Rightarrow> (string list \<times> tool_end) list" where
  "tools_run s = concat (map (\<lambda>a. case a of Ran argv t \<Rightarrow> [(argv, t)] | _ \<Rightarrow> []) (acts s))"

definition wrote :: "path \<Rightarrow> process \<Rightarrow> string list" where
  "wrote p s = concat (map (\<lambda>a. case a of Wrote q d \<Rightarrow> if q = p then [d] else [] | _ \<Rightarrow> []) (acts s))"

text \<open>Every run of \<open>m\<close>, however it ends, stays within a relation on the states.\<close>

definition stays :: "(process \<Rightarrow> process \<Rightarrow> bool) \<Rightarrow> 'a proc \<Rightarrow> bool" where
  "stays Rel m \<longleftrightarrow> (\<forall>s r t. m s = Some (r, t) \<longrightarrow> Rel s t)"

named_theorems stays_intros \<open>computations that stay within a relation\<close>

locale process_relation =
  fixes Rel :: "process \<Rightarrow> process \<Rightarrow> bool"
  assumes reflexive: "Rel s s"
    and transitive: "Rel s t \<Longrightarrow> Rel t u \<Longrightarrow> Rel s u"
begin

lemma stays_basic: "stays Rel (pure x)" "stays Rel (stop e)" "stays Rel (lift r)"
  by (simp_all add: stays_def pure_def stop_def lift_def reflexive)

lemma stays_bindP: "stays Rel m \<Longrightarrow> (\<And>x. stays Rel (f x)) \<Longrightarrow> stays Rel (bindP m f)"
  unfolding stays_def bindP_Some by (meson transitive)

lemma stays_catchP: "stays Rel m \<Longrightarrow> (\<And>e. stays Rel (h e)) \<Longrightarrow> stays Rel (catchP m h)"
  unfolding stays_def catchP_Some by (meson transitive)

lemma stays_eachP: "(\<And>x. x \<in> set xs \<Longrightarrow> stays Rel (f x)) \<Longrightarrow> stays Rel (eachP f xs)"
  by (induction xs) (auto intro!: stays_basic stays_bindP)

lemma stays_loopP:
  assumes "\<And>x. stays Rel (body x)"
  shows "stays Rel (loopP body x)"
proof -
  have "spec (\<lambda>s. Rel s0 s) (body x) (\<lambda>r s. case r of Inl y \<Rightarrow> Rel s0 s | Inr x' \<Rightarrow> Rel s0 s)
      (\<lambda>e s. Rel s0 s)" for s0 x
    using assms transitive by (intro specI) (auto simp: stays_def split: sum.splits)
  then have l: "spec (\<lambda>s. Rel s0 s) (loopP body x) (\<lambda>y s. Rel s0 s) (\<lambda>e s. Rel s0 s)" for s0
    by (rule spec_loopP)
  show ?thesis
    unfolding stays_def
  proof (intro allI impI)
    fix s r t
    assume "loopP body x s = Some (r, t)"
    then show "Rel s t" using specD [OF l [of s] reflexive] by (cases r) auto
  qed
qed

text \<open>An assertion that the relation keeps is kept by the computation.\<close>

lemma stays_spec:
  assumes "stays Rel m" and "\<And>s t. Rel s t \<Longrightarrow> A s \<Longrightarrow> A t"
  shows "spec A m (\<lambda>_. A) (\<lambda>_. A)"
  using assms unfolding stays_def by (intro specI) blast+

end

text \<open>No program is run and nothing is written under the name.\<close>

definition quiet :: "path \<Rightarrow> process \<Rightarrow> process \<Rightarrow> bool" where
  "quiet p s t \<longleftrightarrow> tools_run t = tools_run s \<and> wrote p t = wrote p s"

text \<open>The calls are counted and the trace only grows.\<close>

definition later :: "process \<Rightarrow> process \<Rightarrow> bool" where
  "later s t \<longleftrightarrow> ticks s \<le> ticks t \<and> (\<exists>new. acts t = acts s @ new)"

interpretation quiet: process_relation "quiet p" for p
  by unfold_locales (simp_all add: quiet_def)

interpretation later: process_relation later
  by unfold_locales (auto simp: later_def)

lemmas quiet_combinators = quiet.stays_basic quiet.stays_bindP quiet.stays_catchP
  quiet.stays_eachP quiet.stays_loopP

lemmas later_combinators = later.stays_basic later.stays_bindP later.stays_catchP
  later.stays_eachP later.stays_loopP

lemma stays_sys:
  assumes "\<And>n st s. Rel s (s \<lparr>store := st, ticks := Suc (ticks s)\<rparr>)"
    and "\<And>n st r st' new s. f n st = (r, st', new) \<Longrightarrow>
      Rel s (s \<lparr>store := st', ticks := Suc (ticks s), acts := acts s @ new\<rparr>)"
  shows "stays Rel (sys w f)"
  using assms by (auto simp: stays_def sys_def Let_def split: option.splits prod.splits)

lemma quiet_state:
  "quiet p s (s \<lparr>store := st, ticks := n\<rparr>)"
  "quiet p s (s \<lparr>store := st, ticks := n, acts := acts s\<rparr>)"
  "quiet p s (s \<lparr>ticks := n\<rparr>)" "quiet p s (s \<lparr>ticks := n, acts := acts s @ [Slept d]\<rparr>)"
  "q \<noteq> p \<Longrightarrow> quiet p s (s \<lparr>store := st, ticks := n, acts := acts s @ [Wrote q c]\<rparr>)"
  by (simp_all add: quiet_def tools_run_def wrote_def)

lemma quiet_calls [stays_intros]:
  "stays (quiet p) (is_file w q)" "stays (quiet p) (lexists w q)" "stays (quiet p) (read_file w q)"
  "stays (quiet p) (file_size w q)" "stays (quiet p) (make_dirs w q)" "stays (quiet p) (make_dir w q)"
  "stays (quiet p) (resolve_path w q)" "stays (quiet p) (clock_call f)" "stays (quiet p) (pause d)"
  "stays (quiet p) (parse_json w t)"
  by (auto simp: is_file_def lexists_def read_file_def file_size_def make_dirs_def make_dir_def
      resolve_path_def parse_json_def quiet.stays_basic quiet_state
      intro!: stays_sys split: option.splits entry.splits if_splits sum.splits)
    (auto simp: stays_def clock_call_def pause_def quiet_state)

lemma quiet_write [stays_intros]:
  "abs_path w q \<noteq> p \<Longrightarrow> stays (quiet p) (write_file x w q c)"
  by (auto simp: stays_def write_file_def Let_def quiet_state split: if_splits option.splits)

lemma later_calls [stays_intros]:
  "stays later (is_file w q)" "stays later (lexists w q)" "stays later (read_file w q)"
  "stays later (file_size w q)" "stays later (make_dirs w q)" "stays later (make_dir w q)"
  "stays later (resolve_path w q)" "stays later (clock_call f)" "stays later (pause d)"
  "stays later (parse_json w t)" "stays later (write_file x w q c)" "stays later (run_program w argv)"
  by (auto simp: is_file_def lexists_def read_file_def file_size_def make_dirs_def make_dir_def
      resolve_path_def parse_json_def later.stays_basic later_def
      intro!: stays_sys split: option.splits entry.splits if_splits sum.splits)
    (auto simp: stays_def clock_call_def pause_def write_file_def run_program_def later_def Let_def
      split: if_splits option.splits prod.splits)

subsection \<open>Computations that return\<close>

definition returns :: "'a proc \<Rightarrow> bool" where
  "returns m \<longleftrightarrow> (\<forall>s. m s \<noteq> None)"

named_theorems returns_intros \<open>computations that return\<close>

lemma returns_basic [returns_intros]: "returns (pure x)" "returns (stop e)" "returns (lift r)"
  by (simp_all add: returns_def pure_def stop_def lift_def)

lemma returns_bindP [returns_intros]: "returns m \<Longrightarrow> (\<And>x. returns (f x)) \<Longrightarrow> returns (bindP m f)"
  by (auto simp: returns_def bindP_def split: option.splits sum.splits prod.splits)

lemma returns_catchP [returns_intros]: "returns m \<Longrightarrow> (\<And>e. returns (h e)) \<Longrightarrow> returns (catchP m h)"
  by (auto simp: returns_def catchP_def split: option.splits sum.splits prod.splits)

lemma returns_eachP [returns_intros]: "(\<And>x. returns (f x)) \<Longrightarrow> returns (eachP f xs)"
  by (induction xs) (auto intro: returns_intros)

lemma returns_if [returns_intros]: "returns m \<Longrightarrow> returns m' \<Longrightarrow> returns (if c then m else m')"
  by simp

lemma returns_sys: "returns (sys w f)"
  by (auto simp: returns_def sys_def Let_def split: option.splits prod.splits)

lemma returns_calls [returns_intros]:
  "returns (is_file w q)" "returns (lexists w q)" "returns (read_file w q)" "returns (file_size w q)"
  "returns (make_dirs w q)" "returns (make_dir w q)" "returns (resolve_path w q)"
  "returns (clock_call f)" "returns (pause d)" "returns (parse_json w t)"
  "returns (write_file x w q c)" "returns (run_program w argv)"
  by (simp_all add: is_file_def lexists_def read_file_def file_size_def make_dirs_def make_dir_def
      resolve_path_def parse_json_def returns_sys returns_basic)
    (auto simp: returns_def clock_call_def pause_def write_file_def run_program_def Let_def
      split: option.splits prod.splits)

text \<open>A loop whose body goes on only while the clock shows less than a bound returns, because the
  calls are counted and the clock passes every bound.\<close>

definition time_passes :: "world \<Rightarrow> bool" where
  "time_passes w \<longleftrightarrow> (\<forall>d. \<exists>N. \<forall>n \<ge> N. d \<le> monotonic w n)"

lemma returns_loopP:
  assumes "time_passes w" and "\<And>x. returns (body x)"
    and "\<And>x s x' t. body x s = Some (Inr (Inr x'), t) \<Longrightarrow>
      \<exists>n. ticks s \<le> n \<and> n < ticks t \<and> monotonic w n < d"
  shows "returns (loopP body x)"
proof -
  obtain N where N: "\<And>n. N \<le> n \<Longrightarrow> d \<le> monotonic w n" using assms(1) by (auto simp: time_passes_def)
  have "loopP body x s \<noteq> None" for s
  proof (induction "N - ticks s" arbitrary: x s rule: less_induct)
    case less
    obtain r t where b: "body x s = Some (r, t)" using assms(2) [of x] by (force simp: returns_def)
    show ?case
    proof (cases "\<exists>x'. r = Inr (Inr x')")
      case True
      then obtain x' where r: "r = Inr (Inr x')" by blast
      with b assms(3) obtain n where "ticks s \<le> n" "n < ticks t" "monotonic w n < d" by blast
      then have "N - ticks t < N - ticks s" using N [of n] by fastforce
      from less [OF this] b r show ?thesis by (simp add: loopP.simps [of body x])
    next
      case False
      with b show ?thesis by (auto simp: loopP.simps [of body x] split: sum.splits)
    qed
  qed
  then show ?thesis by (simp add: returns_def)
qed

end
