(* ===== verification/Stationarity_Adapter.thy ===== *)
theory Stationarity_Adapter
  imports Os_Process
begin

section \<open>The bounded stationarity command\<close>

text \<open>
  \<^verbatim>\<open>scripts/experiment-harness/prompt12-bounded-stationarity-command.py\<close>: the command the
  supervisor and the handoff run to learn whether the output is stationary.  It takes a stable
  snapshot of the receiver's two files while the receiver goes on writing them, in post-step mode
  first has the actuator timeline built by a command it repeats until the expected number of
  events is there, then runs the parser, the canonicaliser and the evaluator on the snapshot and
  prints the evaluator's report.
\<close>

subsection \<open>Arguments\<close>

datatype adapter_mode = InitialMode | PostMode

definition adapter_mode_name :: "adapter_mode \<Rightarrow> string" where
  "adapter_mode_name m = (case m of InitialMode \<Rightarrow> ''initial-pre-step'' | PostMode \<Rightarrow> ''post-step'')"

record adapter_args =
  ad_python :: string
  ad_parser :: string
  ad_canonicalizer :: string
  ad_evaluator :: string
  ad_raw :: string
  ad_timestamps :: string
  ad_schema :: string
  ad_experiment :: string
  ad_run :: string
  ad_mode :: adapter_mode
  ad_root :: string
  ad_timeline :: "string option"
  ad_control :: "int option"
  ad_stable_ms :: int
  ad_snapshot_ms :: int
  ad_command :: "string option"
  ad_expected :: "int option"
  ad_ready_ms :: int
  ad_poll_ms :: int

record adapter_paths =
  ap_python :: path
  ap_parser :: path
  ap_canonicalizer :: path
  ap_evaluator :: path
  ap_raw :: path
  ap_timestamps :: path
  ap_schema :: path
  ap_timeline :: "path option"

definition require_regular_file :: "world \<Rightarrow> string \<Rightarrow> string \<Rightarrow> path proc" where
  "require_regular_file w v label = bindP (is_file w (to_path v)) (\<lambda>ok.
     if ok then pure (to_path v) else stop (Refused (label @ ''_MISSING'') 66))"

definition mode_paths :: "world \<Rightarrow> adapter_args \<Rightarrow> path option proc" where
  "mode_paths w a = (case ad_mode a of
       InitialMode \<Rightarrow> if ad_timeline a \<noteq> None \<or> ad_control a \<noteq> None
         then stop (Refused ''INITIAL_MODE_POST_ARGUMENT_PRESENT'' 64) else pure None
     | PostMode \<Rightarrow> (case (ad_timeline a, ad_control a) of
         (Some t, Some i) \<Rightarrow> if \<not> (1 \<le> i \<and> i \<le> 6) then stop (Refused ''CONTROL_INDEX_INVALID'' 64)
           else bindP (require_regular_file w t ''ACTUATOR_TIMELINE'') (\<lambda>p. pure (Some p))
       | _ \<Rightarrow> stop (Refused ''POST_MODE_ARGUMENT_MISSING'' 64)))"

definition validate_arguments :: "world \<Rightarrow> adapter_args \<Rightarrow> adapter_paths proc" where
  "validate_arguments w a =
     bindP (require_regular_file w (ad_python a) ''PYTHON_EXECUTABLE'') (\<lambda>py.
     bindP (lift (refuse_unless (executable w py) ''PYTHON_EXECUTABLE_NOT_EXECUTABLE'' 77)) (\<lambda>_.
     bindP (require_regular_file w (ad_parser a) ''PARSER'') (\<lambda>pa.
     bindP (require_regular_file w (ad_canonicalizer a) ''CANONICALIZER'') (\<lambda>ca.
     bindP (require_regular_file w (ad_evaluator a) ''EVALUATOR'') (\<lambda>ev.
     bindP (require_regular_file w (ad_raw a) ''RAW_INPUT'') (\<lambda>ra.
     bindP (require_regular_file w (ad_timestamps a) ''TIMESTAMP_INPUT'') (\<lambda>ti.
     bindP (require_regular_file w (ad_schema a) ''SCHEMA'') (\<lambda>sc.
     bindP (lift (refuse_unless (0 \<le> ad_stable_ms a) ''STABLE_MS_INVALID'' 64)) (\<lambda>_.
     bindP (lift (refuse_unless (0 < ad_snapshot_ms a) ''SNAPSHOT_TIMEOUT_MS_INVALID'' 64)) (\<lambda>_.
     bindP (mode_paths w a) (\<lambda>tl. pure \<lparr>ap_python = py, ap_parser = pa, ap_canonicalizer = ca,
       ap_evaluator = ev, ap_raw = ra, ap_timestamps = ti, ap_schema = sc, ap_timeline = tl\<rparr>)))))))))))"

subsection \<open>The evidence directory of one attempt\<close>

definition attempt_name :: "world \<Rightarrow> nat \<Rightarrow> int \<Rightarrow> string" where
  "attempt_name w n ns = ''attempt-'' @ show_int ns @ ''-'' @ show_int (pid w) @ ''-'' @ uuid4 w n"

definition new_attempt :: "world \<Rightarrow> path \<Rightarrow> string list \<Rightarrow> path proc" where
  "new_attempt w base names =
     bindP (make_dirs w base) (\<lambda>_.
     bindP (clock_call (\<lambda>n. attempt_name w n (utc_ns w n))) (\<lambda>name.
     (let attempt = child_path base [name]
      in bindP (make_dir w attempt) (\<lambda>_.
         bindP (eachP (\<lambda>d. make_dir w (child_path attempt [d])) names) (\<lambda>_. pure attempt)))))"

definition create_attempt :: "world \<Rightarrow> string \<Rightarrow> path proc" where
  "create_attempt w evidence_root = new_attempt w (to_path evidence_root) [''raw'', ''processed'', ''logs'']"

definition in_raw :: "path \<Rightarrow> string \<Rightarrow> path" where
  "in_raw attempt name = child_path attempt [''raw'', name]"

definition in_processed :: "path \<Rightarrow> string \<Rightarrow> path" where
  "in_processed attempt name = child_path attempt [''processed'', name]"

definition in_logs :: "path \<Rightarrow> string \<Rightarrow> path" where
  "in_logs attempt name = child_path attempt [''logs'', name]"

subsection \<open>Snapshots of files that grow\<close>

text \<open>\<open>handle.read(size)\<close> gives at most \<open>size\<close> bytes.\<close>

definition read_exact :: "world \<Rightarrow> path \<Rightarrow> int \<Rightarrow> string proc" where
  "read_exact w p n = bindP (read_file w p) (\<lambda>c.
     if int (length (take (nat n) c)) = n then pure (take (nat n) c)
     else stop (Refused ''SNAPSHOT_SHORT_READ'' 75))"

definition pair_sizes :: "world \<Rightarrow> path \<Rightarrow> path \<Rightarrow> (int \<times> int) proc" where
  "pair_sizes w raw stamps = bindP (file_size w raw) (\<lambda>a. bindP (file_size w stamps) (\<lambda>b. pure (a, b)))"

definition complete_lines :: "string \<Rightarrow> bool" where
  "complete_lines data \<longleftrightarrow> data \<noteq> [] \<and> last data = CHR 0x0A"

text \<open>What the loop remembers: the last sizes seen, and since when they are the same.\<close>

type_synonym snap_state = "(int \<times> int) option \<times> rat option"

definition take_pair :: "world \<Rightarrow> path \<Rightarrow> path \<Rightarrow> path \<Rightarrow> path \<Rightarrow> int \<times> int \<Rightarrow>
    (unit + snap_state) proc" where
  "take_pair w raw stamps raw_to stamps_to sizes =
     bindP (read_exact w raw (fst sizes)) (\<lambda>raw_data.
     bindP (read_exact w stamps (snd sizes)) (\<lambda>stamp_data.
     bindP (pair_sizes w raw stamps) (\<lambda>after.
       if after \<noteq> sizes then bindP (clock_call (monotonic w)) (\<lambda>t. pure (Inr (Some after, Some t)))
       else if \<not> complete_lines raw_data then stop (Refused ''RAW_SNAPSHOT_INCOMPLETE_LINE'' 75)
       else if \<not> complete_lines stamp_data then stop (Refused ''TIMESTAMP_SNAPSHOT_INCOMPLETE_LINE'' 75)
       else bindP (write_file True w raw_to raw_data) (\<lambda>_.
            bindP (write_file True w stamps_to stamp_data) (\<lambda>_. pure (Inl ()))))))"

definition snapshot_turn :: "world \<Rightarrow> path \<Rightarrow> path \<Rightarrow> path \<Rightarrow> path \<Rightarrow> rat \<Rightarrow> rat \<Rightarrow> snap_state \<Rightarrow>
    (unit + snap_state) proc" where
  "snapshot_turn w raw stamps raw_to stamps_to deadline settle st =
     bindP (clock_call (monotonic w)) (\<lambda>t.
       if \<not> t < deadline then stop (Refused ''SNAPSHOT_STABILITY_TIMEOUT'' 75)
       else bindP (pair_sizes w raw stamps) (\<lambda>sizes.
         bindP (clock_call (monotonic w)) (\<lambda>now.
         (let again = (\<lambda>st'. bindP (pause (1 / 100)) (\<lambda>_. pure (Inr st')))
          in if \<not> (0 < fst sizes \<and> 0 < snd sizes) then again st
             else if Some sizes \<noteq> fst st then again (Some sizes, Some now)
             else (case snd st of None \<Rightarrow> again st
               | Some since \<Rightarrow> if \<not> settle \<le> rnd w (now - since) then again st
                   else take_pair w raw stamps raw_to stamps_to sizes)))))"

definition stable_pair_snapshot :: "world \<Rightarrow> path \<Rightarrow> path \<Rightarrow> path \<Rightarrow> path \<Rightarrow> int \<Rightarrow> int \<Rightarrow> unit proc" where
  "stable_pair_snapshot w raw stamps raw_to stamps_to stable_ms timeout_ms =
     bindP (clock_call (monotonic w)) (\<lambda>t.
       loopP (snapshot_turn w raw stamps raw_to stamps_to
           (rnd w (t + rnd w (of_int timeout_ms / 1000))) (rnd w (of_int stable_ms / 1000)))
         (None, None))"

definition stable_single_snapshot :: "world \<Rightarrow> path \<Rightarrow> path \<Rightarrow> unit proc" where
  "stable_single_snapshot w source destination =
     bindP (file_size w source) (\<lambda>n.
     bindP (lift (refuse_unless (0 < n) ''ACTUATOR_TIMELINE_EMPTY'' 75)) (\<lambda>_.
     bindP (read_exact w source n) (\<lambda>data.
     bindP (file_size w source) (\<lambda>n'.
     bindP (lift (refuse_unless (n' = n) ''ACTUATOR_TIMELINE_CHANGED_DURING_SNAPSHOT'' 75)) (\<lambda>_.
     bindP (lift (refuse_unless (complete_lines data) ''ACTUATOR_TIMELINE_INCOMPLETE_LINE'' 75)) (\<lambda>_.
       write_file True w destination data))))))"

subsection \<open>Programs\<close>

definition write_json_exclusive :: "world \<Rightarrow> path \<Rightarrow> json \<Rightarrow> unit proc" where
  "write_json_exclusive w p v = write_file True w p (dumps w v @ [CHR 0x0A])"

text \<open>A started program that could not be run raises what \<open>subprocess.run\<close> raises.\<close>

definition tool_result :: "tool_end \<Rightarrow> cmd_error + (int \<times> string \<times> string)" where
  "tool_result t = (case t of ToolRaises e \<Rightarrow> Inl (Raised e) | ToolEnded rc out err \<Rightarrow> Inr (rc, out, err))"

definition upper :: "string \<Rightarrow> string" where
  "upper s = map (\<lambda>c. if 97 \<le> (of_char c :: nat) \<and> (of_char c :: nat) \<le> 122
     then char_of ((of_char c :: nat) - 32) else c) s"

definition run_tool :: "world \<Rightarrow> string \<Rightarrow> string list \<Rightarrow> path \<Rightarrow> unit proc" where
  "run_tool w label argv attempt =
     bindP (run_program w argv) (\<lambda>t.
     bindP (lift (tool_result t)) (\<lambda>(rc, out, err).
     bindP (write_file False w (in_logs attempt (label @ ''.stdout.log'')) out) (\<lambda>_.
     bindP (write_file False w (in_logs attempt (label @ ''.stderr.log'')) err) (\<lambda>_.
       lift (refuse_unless (rc = 0) (upper label @ ''_FAILED_RC_'' @ show_int rc) 70)))))"

definition raw_snapshot :: "path \<Rightarrow> path" where
  "raw_snapshot attempt = in_raw attempt ''iperf3-receiver.stdout.log''"

definition timestamp_snapshot :: "path \<Rightarrow> path" where
  "timestamp_snapshot attempt = in_raw attempt ''iperf3-receiver.timestamps.jsonl''"

definition timeline_snapshot :: "path \<Rightarrow> path" where
  "timeline_snapshot attempt = in_raw attempt ''actuator-timeline.jsonl''"

definition staging_rows :: "path \<Rightarrow> path" where
  "staging_rows attempt = in_processed attempt ''intervals.staging.jsonl''"

definition canonical_rows :: "path \<Rightarrow> path" where
  "canonical_rows attempt = in_processed attempt ''intervals.canonical.jsonl''"

definition report_file :: "path \<Rightarrow> path" where
  "report_file attempt = in_processed attempt ''stationarity.json''"

definition parser_command :: "adapter_paths \<Rightarrow> path \<Rightarrow> string list" where
  "parser_command p attempt = [path_str (ap_python p), path_str (ap_parser p),
     ''--raw-input'', path_str (raw_snapshot attempt),
     ''--timestamp-input'', path_str (timestamp_snapshot attempt),
     ''--output'', path_str (staging_rows attempt)]"

definition canonicalizer_command :: "adapter_args \<Rightarrow> adapter_paths \<Rightarrow> path \<Rightarrow> string list" where
  "canonicalizer_command a p attempt = [path_str (ap_python p), path_str (ap_canonicalizer p),
     ''--input'', path_str (staging_rows attempt), ''--output'', path_str (canonical_rows attempt),
     ''--schema'', path_str (ap_schema p), ''--experiment-id'', ad_experiment a, ''--run-id'', ad_run a,
     ''--classification-scope'', (case ad_mode a of InitialMode \<Rightarrow> ''no-actuator-transitions''
        | PostMode \<Rightarrow> ''actuator-transitions'')] @
     (case ad_mode a of InitialMode \<Rightarrow> []
      | PostMode \<Rightarrow> [''--actuator-timeline'', path_str (timeline_snapshot attempt)])"

definition control_text :: "int option \<Rightarrow> string" where
  "control_text i = (case i of None \<Rightarrow> ''None'' | Some i \<Rightarrow> show_int i)"

definition evaluator_command :: "adapter_args \<Rightarrow> adapter_paths \<Rightarrow> path \<Rightarrow> string list" where
  "evaluator_command a p attempt = [path_str (ap_python p), path_str (ap_evaluator p),
     ''--input'', path_str (canonical_rows attempt), ''--schema'', path_str (ap_schema p),
     ''--experiment-id'', ad_experiment a, ''--run-id'', ad_run a,
     ''--mode'', adapter_mode_name (ad_mode a), ''--output'', path_str (report_file attempt)] @
     (case ad_mode a of InitialMode \<Rightarrow> []
      | PostMode \<Rightarrow> [''--actuator-timeline'', path_str (timeline_snapshot attempt),
          ''--control-index'', control_text (ad_control a)])"

definition build_commands :: "adapter_args \<Rightarrow> adapter_paths \<Rightarrow> path \<Rightarrow> (string \<times> string list) list" where
  "build_commands a p attempt = [(''parser'', parser_command p attempt),
     (''canonicalizer'', canonicalizer_command a p attempt),
     (''evaluator'', evaluator_command a p attempt)]"

definition argv_json :: "string list \<Rightarrow> json" where
  "argv_json argv = JArr (map JStr argv)"

definition commands_json :: "(string \<times> string list) list \<Rightarrow> json" where
  "commands_json cs = JObj (map (\<lambda>(l, argv). (l, argv_json argv)) cs)"

subsection \<open>The timeline command\<close>

definition TIMELINE_OUTPUT_TOKEN :: string where
  "TIMELINE_OUTPUT_TOKEN = ''@PROMPT12_ACTUATOR_TIMELINE@''"

definition PROHIBITED_TIMELINE_EXECUTABLES :: "string list" where
  "PROHIBITED_TIMELINE_EXECUTABLES = [''bash'', ''dash'', ''sh'', ''zsh'', ''ksh'']"

definition is_argument :: "json \<Rightarrow> bool" where
  "is_argument v = (case v of JStr s \<Rightarrow> s \<noteq> [] \<and> CHR 0x00 \<notin> set s | _ \<Rightarrow> False)"

definition argument_text :: "json \<Rightarrow> string" where
  "argument_text v = (case v of JStr s \<Rightarrow> s | _ \<Rightarrow> [])"

fun check_arguments :: "nat \<Rightarrow> json list \<Rightarrow> cmd_error + unit" where
  "check_arguments i [] = Inr ()"
| "check_arguments i (v # vs) = bindE (refuse_unless (is_argument v)
     (''TIMELINE_COMMAND_ARG_'' @ show_nat i @ ''_INVALID'') 64) (\<lambda>_. check_arguments (Suc i) vs)"

definition check_expected :: "adapter_args \<Rightarrow> cmd_error + unit" where
  "check_expected a = (case (ad_expected a, ad_control a) of
       (None, _) \<Rightarrow> Inl (Refused ''EXPECTED_TIMELINE_EVENT_COUNT_INVALID'' 64)
     | (Some n, c) \<Rightarrow> if n \<le> 0 then Inl (Refused ''EXPECTED_TIMELINE_EVENT_COUNT_INVALID'' 64)
         else (case c of None \<Rightarrow> Inl (Refused ''CONTROL_INDEX_REQUIRED_FOR_TIMELINE_COMMAND'' 64)
           | Some c \<Rightarrow> refuse_unless (n = c * 3) ''TIMELINE_EVENT_COUNT_CONTROL_INDEX_MISMATCH'' 64))"

definition check_template :: "adapter_args \<Rightarrow> json \<Rightarrow> cmd_error + string list" where
  "check_template a v = (case v of
       JArr (x # xs) \<Rightarrow>
         (let argv = map argument_text (x # xs)
          in bindE (seqE [
            check_arguments 0 (x # xs),
            refuse_unless (base_name (to_path (hd argv)) \<notin> set PROHIBITED_TIMELINE_EXECUTABLES)
              ''TIMELINE_SHELL_EXECUTION_FORBIDDEN'' 64,
            refuse_unless (count_list argv TIMELINE_OUTPUT_TOKEN = 1)
              ''TIMELINE_OUTPUT_TOKEN_COUNT_INVALID'' 64,
            check_expected a,
            refuse_unless (0 < ad_ready_ms a) ''TIMELINE_READINESS_TIMEOUT_INVALID'' 64,
            refuse_unless (0 < ad_poll_ms a \<and> ad_poll_ms a \<le> ad_ready_ms a)
              ''TIMELINE_READINESS_POLL_INVALID'' 64]) (\<lambda>_. Inr argv))
     | _ \<Rightarrow> Inl (Refused ''TIMELINE_COMMAND_NOT_NONEMPTY_ARGV'' 64))"

definition parse_timeline_command_template :: "world \<Rightarrow> adapter_args \<Rightarrow> cmd_error + string list option" where
  "parse_timeline_command_template w a = (case ad_command a of
       None \<Rightarrow> bindE (refuse_unless (ad_expected a = None) ''TIMELINE_EVENT_COUNT_WITHOUT_COMMAND'' 64)
         (\<lambda>_. Inr None)
     | Some encoded \<Rightarrow>
         bindE (seqE [
           refuse_unless (ad_mode a = PostMode) ''TIMELINE_COMMAND_FORBIDDEN_OUTSIDE_POST_STEP'' 64,
           refuse_unless (ad_timeline a = None) ''TIMELINE_COMMAND_AND_INPUT_MUTUALLY_EXCLUSIVE'' 64])
         (\<lambda>_. case loads w encoded of
             Inl JsonError \<Rightarrow> Inl (Refused ''TIMELINE_COMMAND_JSON_INVALID'' 64)
           | Inl e \<Rightarrow> Inl (Raised e)
           | Inr v \<Rightarrow> bindE (check_template a v) (\<lambda>argv. Inr (Some argv))))"

text \<open>The lines of a text file as it is iterated: each ends after a line feed, a carriage return or
  both.\<close>

fun file_lines :: "string \<Rightarrow> string \<Rightarrow> string list" where
  "file_lines acc [] = (if acc = [] then [] else [rev acc])"
| "file_lines acc (c # cs) = (if c = CHR 0x0A then rev acc # file_lines [] cs
     else if c = CHR 0x0D then (case cs of d # ds \<Rightarrow> (if d = CHR 0x0A then rev acc # file_lines [] ds
         else rev acc # file_lines [] cs) | [] \<Rightarrow> [rev acc])
     else file_lines (c # acc) cs)"

definition json_rows :: "world \<Rightarrow> string \<Rightarrow> py_exn + json list" where
  "json_rows w text = mapE (loads w) (filter (\<lambda>l. strip l \<noteq> []) (file_lines [] text))"

text \<open>\<open>None\<close> when the file cannot be read, holds something that is not JSON, no row or a row that is
  not an object; any other exception goes on.\<close>

definition swallowed :: "cmd_error \<Rightarrow> bool" where
  "swallowed e = (case e of Raised (OsError _) \<Rightarrow> True | Raised JsonError \<Rightarrow> True | _ \<Rightarrow> False)"

definition timeline_record_count :: "world \<Rightarrow> path \<Rightarrow> nat option proc" where
  "timeline_record_count w p =
     catchP (bindP (read_file w p) (\<lambda>text.
       bindP (lift (case json_rows w text of Inl e \<Rightarrow> Inl (Raised e) | Inr rows \<Rightarrow> Inr rows)) (\<lambda>rows.
         pure (if rows = [] \<or> \<not> list_all is_dict rows then None else Some (length rows)))))
     (\<lambda>e. if swallowed e then pure None else stop e)"

definition resolved_template :: "string list \<Rightarrow> path \<Rightarrow> string list" where
  "resolved_template template candidate =
     map (\<lambda>v. if v = TIMELINE_OUTPUT_TOKEN then path_str candidate else v) template"

definition candidate_file :: "path \<Rightarrow> nat \<Rightarrow> path" where
  "candidate_file candidates k = child_path candidates [''actuator-timeline-'' @ zero_pad 4 k @ ''.jsonl'']"

definition timeline_started :: "tool_end \<Rightarrow> cmd_error + (int \<times> string \<times> string)" where
  "timeline_started t = (case t of
       ToolRaises (OsError name) \<Rightarrow> Inl (Refused (''TIMELINE_COMMAND_EXECUTION_FAILED:'' @ name) 70)
     | _ \<Rightarrow> tool_result t)"

text \<open>What an attempt says: the timeline is ready (\<open>Inl\<close>), or why not (\<open>Inr\<close>).\<close>

definition judge_count :: "nat option \<Rightarrow> int \<Rightarrow> cmd_error + (unit + string)" where
  "judge_count n expected = (case n of
       None \<Rightarrow> Inr (Inr ''OUTPUT_INVALID'')
     | Some n \<Rightarrow> if int n = expected then Inr (Inl ())
         else if expected < int n
         then Inl (Refused (''TIMELINE_EVENT_COUNT_EXCEEDS_EXPECTED:'' @ show_nat n) 65)
         else Inr (Inr (''EVENT_COUNT_'' @ show_nat n @ ''_EXPECTED_'' @ show_int expected)))"

definition timeline_attempt :: "world \<Rightarrow> string list \<Rightarrow> int \<Rightarrow> path \<Rightarrow> path \<Rightarrow> nat \<Rightarrow> (unit + string) proc" where
  "timeline_attempt w template expected attempt candidates k =
     (let candidate = candidate_file candidates k; command = resolved_template template candidate
      in bindP (write_json_exclusive w (child_path candidates [''command-'' @ zero_pad 4 k @ ''.json''])
             (argv_json command)) (\<lambda>_.
         bindP (run_program w command) (\<lambda>t.
         bindP (lift (timeline_started t)) (\<lambda>(rc, out, err).
         bindP (write_file False w (in_logs attempt (''timeline-'' @ zero_pad 4 k @ ''.stdout.log'')) out) (\<lambda>_.
         bindP (write_file False w (in_logs attempt (''timeline-'' @ zero_pad 4 k @ ''.stderr.log'')) err) (\<lambda>_.
           if rc \<noteq> 0 then pure (Inr (''COMMAND_RC_'' @ show_int rc))
           else bindP (timeline_record_count w candidate) (\<lambda>n. lift (judge_count n expected))))))))"

definition timeline_turn :: "world \<Rightarrow> string list \<Rightarrow> int \<Rightarrow> path \<Rightarrow> path \<Rightarrow> rat \<Rightarrow> rat \<Rightarrow> nat \<Rightarrow> (path + nat) proc" where
  "timeline_turn w template expected attempt candidates deadline poll k =
     bindP (timeline_attempt w template expected attempt candidates (Suc k)) (\<lambda>r. case r of
         Inl _ \<Rightarrow> pure (Inl (candidate_file candidates (Suc k)))
       | Inr why \<Rightarrow> bindP (clock_call (monotonic w)) (\<lambda>t.
           (let left = rnd w (deadline - t)
            in if left \<le> 0 then stop (Refused (''ACTUATOR_TIMELINE_READINESS_TIMEOUT:'' @ why) 75)
               else bindP (pause (min poll left)) (\<lambda>_. pure (Inr (Suc k))))))"

definition expected_events :: "adapter_args \<Rightarrow> int" where
  "expected_events a = (case ad_expected a of None \<Rightarrow> 0 | Some n \<Rightarrow> n)"

definition run_incremental_timeline :: "world \<Rightarrow> adapter_args \<Rightarrow> string list \<Rightarrow> path \<Rightarrow> path proc" where
  "run_incremental_timeline w a template attempt =
     (let candidates = child_path attempt [''timeline-candidates'']
      in bindP (make_dir w candidates) (\<lambda>_.
         bindP (clock_call (monotonic w)) (\<lambda>t.
           loopP (timeline_turn w template (expected_events a) attempt candidates
             (rnd w (t + rnd w (of_int (ad_ready_ms a) / 1000))) (rnd w (of_int (ad_poll_ms a) / 1000))) 0)))"

subsection \<open>The command\<close>

definition canonical_snapshot_path :: "world \<Rightarrow> path \<Rightarrow> string proc" where
  "canonical_snapshot_path w attempt =
     bindP (catchP
       (bindP (resolve_path w (canonical_rows attempt)) (\<lambda>q. bindP (read_file w q) (\<lambda>data. pure (q, data))))
       (\<lambda>e. case e of Raised (OsError _) \<Rightarrow> stop (Refused ''CANONICAL_INTERVAL_SNAPSHOT_UNAVAILABLE'' 65)
         | _ \<Rightarrow> stop e)) (\<lambda>(q, data).
     if complete_lines data then pure (path_str q)
     else stop (Refused ''CANONICAL_INTERVAL_SNAPSHOT_INVALID'' 65))"

definition prepared :: "world \<Rightarrow> adapter_args \<Rightarrow> (adapter_paths \<times> path) proc" where
  "prepared w a = bindP (lift (parse_timeline_command_template w a)) (\<lambda>template. case template of
       None \<Rightarrow> bindP (validate_arguments w a) (\<lambda>paths.
         bindP (create_attempt w (ad_root a)) (\<lambda>attempt. pure (paths, attempt)))
     | Some argv \<Rightarrow> bindP (create_attempt w (ad_root a)) (\<lambda>attempt.
         bindP (run_incremental_timeline w a argv attempt) (\<lambda>candidate.
         bindP (validate_arguments w (a \<lparr>ad_timeline := Some (path_str candidate)\<rparr>)) (\<lambda>paths.
           pure (paths, attempt)))))"

definition take_snapshots :: "world \<Rightarrow> adapter_args \<Rightarrow> adapter_paths \<Rightarrow> path \<Rightarrow> unit proc" where
  "take_snapshots w a p attempt =
     bindP (stable_pair_snapshot w (ap_raw p) (ap_timestamps p) (raw_snapshot attempt)
       (timestamp_snapshot attempt) (ad_stable_ms a) (ad_snapshot_ms a)) (\<lambda>_.
     case ap_timeline p of None \<Rightarrow> pure ()
     | Some t \<Rightarrow> stable_single_snapshot w t (timeline_snapshot attempt))"

definition report_object :: "json \<Rightarrow> cmd_error + obj" where
  "report_object v = (case v of
       JObj ob \<Rightarrow> if py_eq (obj_get ob ''output_stationarity_gate'') (JStr ''PASS'') \<or>
           py_eq (obj_get ob ''output_stationarity_gate'') (JStr ''FAIL'') then Inr ob
         else Inl (Refused ''EVALUATOR_GATE_INVALID'' 65)
     | _ \<Rightarrow> Inl (Refused ''EVALUATOR_REPORT_NOT_OBJECT'' 65))"

definition read_report :: "world \<Rightarrow> path \<Rightarrow> obj proc" where
  "read_report w attempt =
     bindP (catchP (bindP (read_file w (report_file attempt)) (parse_json w))
       (\<lambda>e. if swallowed e then stop (Refused ''EVALUATOR_REPORT_INVALID'' 65) else stop e)) (\<lambda>v.
     lift (report_object v))"

definition adapter_execute :: "world \<Rightarrow> adapter_args \<Rightarrow> (obj \<times> path) proc" where
  "adapter_execute w a =
     bindP (prepared w a) (\<lambda>(p, attempt).
     bindP (take_snapshots w a p attempt) (\<lambda>_.
     (let commands = build_commands a p attempt
      in bindP (write_json_exclusive w (child_path attempt [''commands.json'']) (commands_json commands)) (\<lambda>_.
         bindP (eachP (\<lambda>(label, argv). run_tool w label argv attempt) commands) (\<lambda>_.
         bindP (read_report w attempt) (\<lambda>report.
         bindP (canonical_snapshot_path w attempt) (\<lambda>snapshot.
           pure (obj_set ''canonical_interval_snapshot_path'' (JStr snapshot) report, attempt))))))))"

text \<open>A process ends with a code and what it printed, or dies of an exception.\<close>

datatype cmd_exit = Exits int string "string list" | Dies string

definition failure_lines :: "string \<Rightarrow> string \<Rightarrow> path option \<Rightarrow> string list" where
  "failure_lines gate_name why attempt = [gate_name @ ''=FAIL'', ''FAIL_REASON='' @ why] @
     (case attempt of None \<Rightarrow> [] | Some p \<Rightarrow> [''ATTEMPT_DIR='' @ path_str p])"

text \<open>The handlers of both commands; \<open>attempt\<close> is the local variable of \<open>main\<close>, which is assigned
  only when \<open>execute\<close> returns.\<close>

definition command_exit :: "string \<Rightarrow> path option \<Rightarrow> cmd_error \<Rightarrow> cmd_exit" where
  "command_exit gate_name attempt e = (case e of
       Refused why rc \<Rightarrow> Exits rc [] (failure_lines gate_name why attempt)
     | Raised (OtherError t) \<Rightarrow> Dies t
     | Raised x \<Rightarrow> Exits 70 [] (failure_lines gate_name (''UNEXPECTED_LOCAL_ERROR:'' @ exn_type x) attempt))"

definition adapter_main :: "world \<Rightarrow> adapter_args \<Rightarrow> process \<Rightarrow> (cmd_exit \<times> process) option" where
  "adapter_main w a s = (case adapter_execute w a s of
       None \<Rightarrow> None
     | Some (Inl e, s') \<Rightarrow> Some (command_exit ''STATIONARITY_COMMAND_ADAPTER_GATE'' None e, s')
     | Some (Inr (report, attempt), s') \<Rightarrow>
         Some (Exits 0 (dumps_compact w (JObj report) @ [CHR 0x0A]) [], s'))"

end
