(* ===== verification/Precontrol_Handoff.thy ===== *)
theory Precontrol_Handoff
  imports Stationarity_Adapter
begin

section \<open>The bounded precontrol handoff\<close>

text \<open>
  \<^verbatim>\<open>scripts/experiment-harness/prompt12-bounded-precontrol-handoff.py\<close>: the command that turns a
  stationarity PASS into the precontrol document the trigger executor asks for.  It runs the
  stationarity command, and after a PASS the freshness command on the canonical intervals the
  report names, checks the gates of the document that command leaves and publishes it under a
  name that must not exist; its standard output is the stationarity report.
\<close>

definition STATIONARITY_MARKER :: string where "STATIONARITY_MARKER = ''--stationarity-command''"

definition FRESHNESS_MARKER :: string where "FRESHNESS_MARKER = ''--freshness-command''"

definition STATIONARITY_JSON_TOKEN :: string where
  "STATIONARITY_JSON_TOKEN = ''@PROMPT12_STATIONARITY_JSON@''"

definition PRECONTROL_JSON_TOKEN :: string where
  "PRECONTROL_JSON_TOKEN = ''@PROMPT12_PRECONTROL_JSON@''"

definition DECISION_UTC_NS_TOKEN :: string where
  "DECISION_UTC_NS_TOKEN = ''@PROMPT12_DECISION_UTC_NS@''"

definition CANONICAL_INTERVALS_TOKEN :: string where
  "CANONICAL_INTERVALS_TOKEN = ''@PROMPT12_CANONICAL_INTERVALS@''"

definition SHELL_NAMES :: "string list" where
  "SHELL_NAMES = [''bash'', ''dash'', ''sh'', ''zsh'', ''ksh'']"

subsection \<open>The command line\<close>

record handoff_args =
  ha_root :: string
  ha_output :: string

text \<open>What \<open>argparse\<close> makes of the options before the first marker: an error message, the help, or
  the two options.\<close>

datatype parsed_options = OptionsWrong string | OptionsHelp | OptionsRead handoff_args

definition underscored :: "string \<Rightarrow> string" where
  "underscored s = map (\<lambda>c. if c = CHR '' '' then CHR ''_'' else c) s"

definition common_options :: "parsed_options \<Rightarrow> cmd_error + handoff_args" where
  "common_options p = (case p of
       OptionsWrong message \<Rightarrow> Inl (Refused (''ARGUMENTS_INVALID:'' @ underscored message) 64)
     | OptionsHelp \<Rightarrow> Inl (Raised (OtherError ''SystemExit''))
     | OptionsRead a \<Rightarrow> Inr a)"

definition command_uses_shell_string :: "string list \<Rightarrow> bool" where
  "command_uses_shell_string command = list_ex (\<lambda>(v, next_value).
     base_name (to_path v) \<in> set SHELL_NAMES \<and> next_value \<in> {''-c'', ''-lc''}) (zip command (tl command))"

definition validate_argv :: "string list \<Rightarrow> string \<Rightarrow> cmd_error + unit" where
  "validate_argv command label = seqE [
     refuse_unless (command \<noteq> []) (label @ ''_COMMAND_EMPTY'') 64,
     refuse_unless (list_all (\<lambda>v. v \<noteq> [] \<and> CHR 0x00 \<notin> set v) command)
       (label @ ''_COMMAND_ARGUMENT_INVALID'') 64,
     refuse_unless (\<not> command_uses_shell_string command) (label @ ''_SHELL_STRING_PROHIBITED'') 64]"

definition validate_freshness_template :: "string list \<Rightarrow> cmd_error + unit" where
  "validate_freshness_template command = seqE [
     refuse_unless (count_list command STATIONARITY_JSON_TOKEN = 1)
       ''FRESHNESS_STATIONARITY_TOKEN_COUNT_INVALID'' 64,
     refuse_unless (count_list command PRECONTROL_JSON_TOKEN = 1)
       ''FRESHNESS_PRECONTROL_TOKEN_COUNT_INVALID'' 64,
     refuse_unless (count_list command CANONICAL_INTERVALS_TOKEN = 1)
       ''FRESHNESS_CANONICAL_INTERVALS_TOKEN_COUNT_INVALID'' 64,
     refuse_unless (count_list command DECISION_UTC_NS_TOKEN \<le> 1)
       ''FRESHNESS_DECISION_TIME_TOKEN_COUNT_INVALID'' 64]"

definition index_of :: "'a \<Rightarrow> 'a list \<Rightarrow> nat" where
  "index_of x xs = length (takeWhile (\<lambda>y. y \<noteq> x) xs)"

definition parse_invocation :: "(string list \<Rightarrow> parsed_options) \<Rightarrow> string list \<Rightarrow>
    cmd_error + (handoff_args \<times> string list \<times> string list)" where
  "parse_invocation argparse argv =
     (let i = index_of STATIONARITY_MARKER argv; j = index_of FRESHNESS_MARKER argv;
          stationarity = take (j - (i + 1)) (drop (i + 1) argv); freshness = drop (j + 1) argv
      in bindE (seqE [
           refuse_unless (count_list argv STATIONARITY_MARKER = 1)
             ''STATIONARITY_COMMAND_MARKER_COUNT_INVALID'' 64,
           refuse_unless (count_list argv FRESHNESS_MARKER = 1)
             ''FRESHNESS_COMMAND_MARKER_COUNT_INVALID'' 64,
           refuse_unless (i < j) ''COMMAND_MARKER_ORDER_INVALID'' 64]) (\<lambda>_.
         bindE (common_options (argparse (take i argv))) (\<lambda>common.
         bindE (seqE [validate_argv stationarity ''STATIONARITY'', validate_argv freshness ''FRESHNESS'',
           validate_freshness_template freshness]) (\<lambda>_. Inr (common, stationarity, freshness)))))"

subsection \<open>Files and programs\<close>

definition handoff_attempt :: "world \<Rightarrow> path \<Rightarrow> path proc" where
  "handoff_attempt w base = new_attempt w base [''logs'']"

definition write_text_exclusive :: "world \<Rightarrow> path \<Rightarrow> string \<Rightarrow> unit proc" where
  "write_text_exclusive w p v = bindP (make_dirs w (parent p)) (\<lambda>_. write_file True w p v)"

definition write_json_text :: "world \<Rightarrow> path \<Rightarrow> json \<Rightarrow> unit proc" where
  "write_json_text w p v = write_text_exclusive w p (dumps w v @ [CHR 0x0A])"

definition lower :: "string \<Rightarrow> string" where
  "lower s = map (\<lambda>c. if 65 \<le> (of_char c :: nat) \<and> (of_char c :: nat) \<le> 90
     then char_of ((of_char c :: nat) + 32) else c) s"

definition handoff_started :: "string \<Rightarrow> tool_end \<Rightarrow> cmd_error + (int \<times> string \<times> string)" where
  "handoff_started label t = (case t of
       ToolRaises (OsError name) \<Rightarrow> Inl (Refused (label @ ''_EXECUTION_FAILED:'' @ name) 70)
     | _ \<Rightarrow> tool_result t)"

definition run_handoff_tool :: "world \<Rightarrow> string \<Rightarrow> string list \<Rightarrow> path \<Rightarrow> (int \<times> string) proc" where
  "run_handoff_tool w label command attempt =
     bindP (run_program w command) (\<lambda>t.
     bindP (lift (handoff_started label t)) (\<lambda>(rc, out, err).
     bindP (write_text_exclusive w (in_logs attempt (lower label @ ''.stdout.log'')) out) (\<lambda>_.
     bindP (write_text_exclusive w (in_logs attempt (lower label @ ''.stderr.log'')) err) (\<lambda>_.
       pure (rc, out)))))"

definition tool_passed :: "string \<Rightarrow> int \<Rightarrow> cmd_error + unit" where
  "tool_passed label rc = refuse_unless (rc = 0) (label @ ''_COMMAND_FAILED_RC_'' @ show_int rc) rc"

subsection \<open>What the programs leave\<close>

definition parse_stationarity :: "world \<Rightarrow> string \<Rightarrow> cmd_error + (obj \<times> bool)" where
  "parse_stationarity w out = (case loads w out of
       Inl JsonError \<Rightarrow> Inl (Refused ''STATIONARITY_STDOUT_INVALID_JSON'' 65)
     | Inl e \<Rightarrow> Inl (Raised e)
     | Inr (JObj ob) \<Rightarrow>
         if py_eq (obj_get ob ''output_stationarity_gate'') (JStr ''PASS'') then Inr (ob, True)
         else if py_eq (obj_get ob ''output_stationarity_gate'') (JStr ''FAIL'') then Inr (ob, False)
         else Inl (Refused ''STATIONARITY_GATE_INVALID'' 65)
     | Inr _ \<Rightarrow> Inl (Refused ''STATIONARITY_STDOUT_NOT_OBJECT'' 65))"

definition PRECONTROL_GATES :: "(string \<times> string) list" where
  "PRECONTROL_GATES = [(''selection'', ''latest_50_complete_contiguous_samples''),
     (''stationarity_window_binding_gate'', ''PASS''), (''output_stationarity_gate'', ''PASS''),
     (''freshness_gate'', ''PASS''), (''precontrol_admission_gate'', ''PASS'')]"

definition gates_pass :: "obj \<Rightarrow> bool" where
  "gates_pass ob = list_all (\<lambda>(k, v). py_eq (obj_get ob k) (JStr v)) PRECONTROL_GATES"

definition judge_precontrol :: "json \<Rightarrow> cmd_error + unit" where
  "judge_precontrol v = (case v of
       JObj ob \<Rightarrow> refuse_unless (gates_pass ob) ''PRECONTROL_CANDIDATE_GATE_NOT_PASS'' 65
     | _ \<Rightarrow> Inl (Refused ''PRECONTROL_CANDIDATE_NOT_OBJECT'' 65))"

definition validate_precontrol :: "world \<Rightarrow> path \<Rightarrow> unit proc" where
  "validate_precontrol w p =
     bindP (is_file w p) (\<lambda>found.
     bindP (lift (refuse_unless found ''PRECONTROL_CANDIDATE_MISSING'' 65)) (\<lambda>_.
     bindP (catchP (bindP (read_file w p) (parse_json w))
       (\<lambda>e. if swallowed e then stop (Refused ''PRECONTROL_CANDIDATE_INVALID'' 65) else stop e)) (\<lambda>v.
       lift (judge_precontrol v))))"

definition publish_failure :: "cmd_error \<Rightarrow> cmd_error" where
  "publish_failure e = (case e of
       Raised (OsError t) \<Rightarrow> if t = ''FileExistsError'' then Refused ''PRECONTROL_OUTPUT_ALREADY_EXISTS'' 65
         else Refused (''PRECONTROL_PUBLISH_FAILED:'' @ t) 70
     | _ \<Rightarrow> e)"

definition publish_exclusive :: "world \<Rightarrow> path \<Rightarrow> path \<Rightarrow> unit proc" where
  "publish_exclusive w candidate destination =
     bindP (make_dirs w (parent destination)) (\<lambda>_.
       catchP (bindP (read_file w candidate) (\<lambda>payload. write_file True w destination payload))
         (\<lambda>e. stop (publish_failure e)))"

definition snapshot_layout :: "path \<Rightarrow> bool" where
  "snapshot_layout p \<longleftrightarrow> base_name p = ''intervals.canonical.jsonl'' \<and>
     base_name (parent p) = ''processed'' \<and> starts_with ''attempt-'' (base_name (parent (parent p)))"

definition snapshot_value :: "obj \<Rightarrow> cmd_error + string" where
  "snapshot_value ob = (case obj_get ob ''canonical_interval_snapshot_path'' of
       JStr (c # cs) \<Rightarrow> if is_absolute (to_path (c # cs)) then Inr (c # cs)
         else Inl (Refused ''CANONICAL_INTERVAL_SNAPSHOT_PATH_NOT_ABSOLUTE'' 65)
     | _ \<Rightarrow> Inl (Refused ''CANONICAL_INTERVAL_SNAPSHOT_PATH_MISSING'' 65))"

definition validate_canonical_snapshot :: "world \<Rightarrow> obj \<Rightarrow> string proc" where
  "validate_canonical_snapshot w ob =
     bindP (lift (snapshot_value ob)) (\<lambda>v.
     bindP (catchP
       (bindP (resolve_path w (to_path v)) (\<lambda>q. bindP (read_file w q) (\<lambda>data. pure (q, data))))
       (\<lambda>e. case e of Raised (OsError _) \<Rightarrow> stop (Refused ''CANONICAL_INTERVAL_SNAPSHOT_UNAVAILABLE'' 65)
         | _ \<Rightarrow> stop e)) (\<lambda>(q, data).
     bindP (lift (seqE [
       refuse_unless (path_str q = v) ''CANONICAL_INTERVAL_SNAPSHOT_PATH_NOT_CANONICAL'' 65,
       refuse_unless (snapshot_layout q) ''CANONICAL_INTERVAL_SNAPSHOT_LAYOUT_INVALID'' 65,
       refuse_unless (complete_lines data) ''CANONICAL_INTERVAL_SNAPSHOT_CONTENT_INVALID'' 65])) (\<lambda>_.
       pure v)))"

definition bind_canonical_snapshot :: "string list \<Rightarrow> string \<Rightarrow> cmd_error + string list" where
  "bind_canonical_snapshot template snapshot =
     (let resolved = map (\<lambda>v. if v = CANONICAL_INTERVALS_TOKEN then snapshot else v) template
      in bindE (refuse_unless (CANONICAL_INTERVALS_TOKEN \<notin> set resolved)
           ''CANONICAL_INTERVALS_TOKEN_UNRESOLVED'' 64) (\<lambda>_. Inr resolved))"

text \<open>The token after \<open>--stationarity-output\<close> names a file the freshness command writes.\<close>

definition resolve_argument :: "path \<Rightarrow> path \<Rightarrow> int \<Rightarrow> path \<Rightarrow> string option \<times> string \<Rightarrow> string" where
  "resolve_argument stationarity candidate decision fresh_stationarity = (\<lambda>(before, v).
     if v = STATIONARITY_JSON_TOKEN \<and> before = Some ''--stationarity-output'' then path_str fresh_stationarity
     else if v = STATIONARITY_JSON_TOKEN then path_str stationarity
     else if v = PRECONTROL_JSON_TOKEN then path_str candidate
     else if v = DECISION_UTC_NS_TOKEN then show_int decision
     else v)"

definition resolve_freshness_command :: "string list \<Rightarrow> path \<Rightarrow> path \<Rightarrow> int \<Rightarrow> path \<Rightarrow> string list" where
  "resolve_freshness_command template stationarity candidate decision fresh_stationarity =
     map (resolve_argument stationarity candidate decision fresh_stationarity)
       (zip (None # map Some template) template)"

subsection \<open>The command\<close>

definition stationarity_record :: "path \<Rightarrow> path" where
  "stationarity_record attempt = child_path attempt [''stationarity.precheck.json'']"

definition candidate_document :: "path \<Rightarrow> path" where
  "candidate_document attempt = child_path attempt [''precontrol.candidate.json'']"

text \<open>What comes after a stationarity PASS.\<close>

definition admit_precontrol :: "world \<Rightarrow> handoff_args \<Rightarrow> path \<Rightarrow> obj \<Rightarrow> string list \<Rightarrow> unit proc" where
  "admit_precontrol w a attempt record template =
     bindP (validate_canonical_snapshot w record) (\<lambda>snapshot.
     bindP (clock_call (utc_ns w)) (\<lambda>decision.
     bindP (lift (bind_canonical_snapshot template snapshot)) (\<lambda>bound.
     (let command = resolve_freshness_command bound (stationarity_record attempt)
            (candidate_document attempt) decision (child_path attempt [''stationarity.json''])
      in bindP (write_json_text w (child_path attempt [''freshness-command.resolved.json''])
             (argv_json command)) (\<lambda>_.
         bindP (run_handoff_tool w ''FRESHNESS'' command attempt) (\<lambda>(rc, out).
         bindP (lift (tool_passed ''FRESHNESS'' rc)) (\<lambda>_.
         bindP (validate_precontrol w (candidate_document attempt)) (\<lambda>_.
           publish_exclusive w (candidate_document attempt) (to_path (ha_output a))))))))))"

definition invocation_json :: "handoff_args \<Rightarrow> string list \<Rightarrow> string list \<Rightarrow> json" where
  "invocation_json a stationarity template = JObj [
     (''stationarity_command'', argv_json stationarity),
     (''freshness_command_template'', argv_json template),
     (''precontrol_output'', JStr (path_str (to_path (ha_output a))))]"

text \<open>Up to the recorded stationarity report: the attempt, the output, the report and its gate.\<close>

definition precheck :: "world \<Rightarrow> handoff_args \<Rightarrow> string list \<Rightarrow> string list \<Rightarrow>
    (path \<times> string \<times> obj \<times> bool) proc" where
  "precheck w a stationarity template =
     bindP (lexists w (to_path (ha_output a))) (\<lambda>taken.
     bindP (lift (seqE [refuse_unless (\<not> taken) ''PRECONTROL_OUTPUT_ALREADY_EXISTS'' 65,
       refuse_unless (abs_path w (to_path (ha_root a)) \<noteq> abs_path w (to_path (ha_output a)))
         ''ATTEMPT_ROOT_EQUALS_PRECONTROL_OUTPUT'' 64])) (\<lambda>_.
     bindP (handoff_attempt w (to_path (ha_root a))) (\<lambda>attempt.
     bindP (write_json_text w (child_path attempt [''commands.json''])
       (invocation_json a stationarity template)) (\<lambda>_.
     bindP (run_handoff_tool w ''STATIONARITY'' stationarity attempt) (\<lambda>(rc, out).
     bindP (lift (tool_passed ''STATIONARITY'' rc)) (\<lambda>_.
     bindP (lift (parse_stationarity w out)) (\<lambda>(record, passed).
     bindP (write_text_exclusive w (stationarity_record attempt) out) (\<lambda>_.
       pure (attempt, out, record, passed)))))))))"

definition handoff_execute :: "world \<Rightarrow> handoff_args \<Rightarrow> string list \<Rightarrow> string list \<Rightarrow> (string \<times> path) proc" where
  "handoff_execute w a stationarity template =
     bindP (precheck w a stationarity template) (\<lambda>(attempt, out, record, passed).
     bindP (if passed then admit_precontrol w a attempt record template else pure ()) (\<lambda>_.
       pure (out, attempt)))"

definition emit_stationarity :: "string \<Rightarrow> string" where
  "emit_stationarity out = (if out \<noteq> [] \<and> last out = CHR 0x0A then out else out @ [CHR 0x0A])"

definition contract_text :: string where
  "contract_text = concat (map (\<lambda>l. l @ [CHR 0x0A]) [
     ''PROMPT12_BOUNDED_PRECONTROL_HANDOFF_CONTRACT=1'', ''COMMAND_FORM=ARGV_ONLY'',
     ''STATIONARITY_STDOUT_FORM=EXACTLY_ONE_JSON_OBJECT'',
     ''CANONICAL_INTERVALS_TOKEN=@PROMPT12_CANONICAL_INTERVALS@'',
     ''PRECONTROL_CREATED_ONLY_AFTER_STATIONARITY_PASS=YES'',
     ''PRECONTROL_OUTPUT_OVERWRITE_ALLOWED=NO'', ''SHELL_STRING_EXECUTION_ALLOWED=NO'',
     ''TRIGGER_WRITE_CAPABILITY=ABSENT'', ''CONTROL_EXECUTED=NO''])"

definition handoff_main :: "world \<Rightarrow> (string list \<Rightarrow> parsed_options) \<Rightarrow> string list \<Rightarrow> process \<Rightarrow>
    (cmd_exit \<times> process) option" where
  "handoff_main w argparse argv s = (if argv = [''contract''] then Some (Exits 0 contract_text [], s)
     else case bindP (lift (parse_invocation argparse argv))
       (\<lambda>(a, stationarity, freshness). handoff_execute w a stationarity freshness) s of
         None \<Rightarrow> None
       | Some (Inl e, s') \<Rightarrow> Some (command_exit ''PROMPT12_PRECONTROL_HANDOFF_GATE'' None e, s')
       | Some (Inr (out, attempt), s') \<Rightarrow> Some (Exits 0 (emit_stationarity out) [], s'))"

end
