(* ===== verification/Handoff_Properties.thy ===== *)
theory Handoff_Properties
  imports Precontrol_Handoff
begin

section \<open>What the precontrol handoff guarantees\<close>

text \<open>
  The evidence of an attempt lies in a directory with a fresh name, which no other process
  touches; everything else in the store may change between any two calls.  Under this reliance
  the handoff publishes a precontrol document only after both commands have passed, and what it
  publishes is what it has checked.
\<close>

subsection \<open>The private directory of an attempt\<close>

definition in_attempt :: "path \<Rightarrow> bool" where
  "in_attempt p \<longleftrightarrow> list_ex (starts_with ''attempt-'') (parts p)"

definition private_evidence :: "world \<Rightarrow> bool" where
  "private_evidence w \<longleftrightarrow> (\<forall>n st p. in_attempt p \<longrightarrow> others w n st p = st p)"

lemma in_attempt_child [simp]: "in_attempt p \<Longrightarrow> in_attempt (child_path p xs)"
  by (simp add: in_attempt_def child_path_def)

lemma in_attempt_abs [simp]: "in_attempt p \<Longrightarrow> in_attempt (abs_path w p)"
  by (simp add: in_attempt_def abs_path_def child_path_def)

lemma in_attempt_new: "in_attempt (child_path base [attempt_name w n ns])"
  by (simp add: in_attempt_def child_path_def attempt_name_def starts_with_def)

lemma in_attempt_parent: "in_attempt (abs_path w (parent p)) \<Longrightarrow> in_attempt (abs_path w p)"
  by (auto simp: in_attempt_def abs_path_def child_path_def parent_def is_absolute_def list_ex_iff
      split: if_splits dest: in_set_butlastD)

lemma quiet_attempt_write [stays_intros]:
  "\<not> in_attempt p \<Longrightarrow> in_attempt q \<Longrightarrow> stays (quiet p) (write_file x w q c)"
  by (rule quiet_write) (metis in_attempt_abs)

lemma quiet_attempt_text [stays_intros]:
  "\<not> in_attempt p \<Longrightarrow> in_attempt q \<Longrightarrow> stays (quiet p) (write_text_exclusive w q c)"
  unfolding write_text_exclusive_def by (intro quiet_combinators stays_intros)

lemma quiet_attempt_json [stays_intros]:
  "\<not> in_attempt p \<Longrightarrow> in_attempt q \<Longrightarrow> stays (quiet p) (write_json_text w q v)"
  unfolding write_json_text_def by (rule quiet_attempt_text)

lemma in_logs_attempt [simp]: "in_attempt attempt \<Longrightarrow> in_attempt (in_logs attempt n)"
  by (simp add: in_logs_def)

lemma quiet_new_attempt [stays_intros]: "stays (quiet p) (new_attempt w base names)"
  unfolding new_attempt_def Let_def by (intro quiet_combinators stays_intros)

lemma new_attempt_private:
  "spec (\<lambda>s. True) (new_attempt w base names) (\<lambda>p s. in_attempt p) (\<lambda>e s. True)"
  by (rule specI) (auto simp: new_attempt_def bindP_Some clock_call_def pure_def Let_def in_attempt_new)

text \<open>An assertion on the programs run and on what was written under the name.\<close>

lemma quiet_spec:
  assumes "stays (quiet p) m"
  shows "spec (\<lambda>s. A (tools_run s) (wrote p s)) m (\<lambda>_ s. A (tools_run s) (wrote p s))
    (\<lambda>_ s. A (tools_run s) (wrote p s))"
  using quiet.stays_spec [OF assms, of "\<lambda>s. A (tools_run s) (wrote p s)"] by (simp add: quiet_def)

lemma quiet_then:
  assumes "stays (quiet p) m" and "\<And>x. spec (\<lambda>s. A (tools_run s) (wrote p s)) (f x) Q R"
    and "\<And>e s. A (tools_run s) (wrote p s) \<Longrightarrow> R e s"
  shows "spec (\<lambda>s. A (tools_run s) (wrote p s)) (bindP m f) Q R"
proof (rule spec_bindP [OF _ assms(2)])
  show "spec (\<lambda>s. A (tools_run s) (wrote p s)) m (\<lambda>_ s. A (tools_run s) (wrote p s)) R"
    by (rule spec_weaken [OF quiet_spec [OF assms(1), of A]]) (use assms(3) in auto)
qed

text \<open>A decision that leaves the state alone.\<close>

lemma lift_then:
  assumes "\<And>x. r = Inr x \<Longrightarrow> spec P (f x) Q R" and "\<And>e s. r = Inl e \<Longrightarrow> P s \<Longrightarrow> R e s"
  shows "spec P (bindP (lift r) f) Q R"
  using assms by (cases r) (auto simp: spec_def bindP_def lift_def)

lemma pure_spec: "(\<And>s. P s \<Longrightarrow> Q x s) \<Longrightarrow> spec P (pure x) Q R"
  by (simp add: spec_def pure_def)

lemma run_then:
  assumes "\<And>t. spec (\<lambda>s. tools_run s = xs @ [(argv, t)] \<and> wrote p s = ds) (f t) Q R"
  shows "spec (\<lambda>s. tools_run s = xs \<and> wrote p s = ds) (bindP (run_program w argv) f) Q R"
proof (rule spec_bindP [OF _ assms])
  show "spec (\<lambda>s. tools_run s = xs \<and> wrote p s = ds) (run_program w argv)
      (\<lambda>t s. tools_run s = xs @ [(argv, t)] \<and> wrote p s = ds) R"
    by (rule specI) (auto simp: run_program_def tools_run_def wrote_def Let_def split: prod.splits)
qed

subsection \<open>Running a program\<close>

lemma tool_result_Inr: "tool_result t = Inr (rc, out, err) \<longleftrightarrow> t = ToolEnded rc out err"
  by (cases t) (auto simp: tool_result_def)

lemma handoff_started_Inr: "handoff_started l t = Inr (rc, out, err) \<longleftrightarrow> t = ToolEnded rc out err"
  by (auto simp: handoff_started_def tool_result_def split: tool_end.splits py_exn.splits)

lemma run_handoff_tool_spec:
  assumes "in_attempt attempt" and "\<not> in_attempt p"
  shows "spec (\<lambda>s. tools_run s = xs \<and> wrote p s = [])
     (run_handoff_tool w l c attempt)
     (\<lambda>(rc, out) s. \<exists>err. tools_run s = xs @ [(c, ToolEnded rc out err)] \<and> wrote p s = [])
     (\<lambda>e s. wrote p s = [])"
  unfolding run_handoff_tool_def
proof (rule run_then, rule lift_then)
  fix t and r :: "int \<times> string \<times> string"
  assume "handoff_started l t = Inr r"
  moreover obtain rc out err where r: "r = (rc, out, err)" by (cases r)
  ultimately have t: "t = ToolEnded rc out err" by (simp add: handoff_started_Inr)
  have q: "stays (quiet p) (write_text_exclusive w (in_logs attempt n) d)" for n d
    using assms by (intro stays_intros) simp_all
  show "spec (\<lambda>s. tools_run s = xs @ [(c, t)] \<and> wrote p s = []) (case r of (rc, out, err) \<Rightarrow>
      bindP (write_text_exclusive w (in_logs attempt (lower l @ ''.stdout.log'')) out) (\<lambda>_.
      bindP (write_text_exclusive w (in_logs attempt (lower l @ ''.stderr.log'')) err) (\<lambda>_. pure (rc, out))))
      (\<lambda>(rc, out) s. \<exists>err. tools_run s = xs @ [(c, ToolEnded rc out err)] \<and> wrote p s = [])
      (\<lambda>e s. wrote p s = [])"
    unfolding r prod.case t
    by (rule quiet_then [OF q], rule quiet_then [OF q], rule pure_spec) auto
qed simp

lemma tool_passed_Inr: "tool_passed l rc = Inr u \<longleftrightarrow> rc = 0"
  by (simp add: tool_passed_def refuse_unless_def)

subsection \<open>What is published is what was checked\<close>

definition admitting :: "world \<Rightarrow> string \<Rightarrow> bool" where
  "admitting w data \<longleftrightarrow> (\<exists>doc. loads w data = Inr (JObj doc) \<and> gates_pass doc)"

lemma as_file_Inr: "as_file e = Inr c \<longleftrightarrow> e = Some (File c)"
  by (auto simp: as_file_def not_found_def split: option.splits entry.splits)

lemma read_file_Inr: "read_file w p s = Some (Inr c, t) \<Longrightarrow>
    store t = others w (ticks s) (store s) \<and> store t (abs_path w p) = Some (File c) \<and> acts t = acts s"
  by (auto simp: read_file_def sys_def Let_def as_file_Inr split: option.splits)

lemma judge_precontrol_Inr: "judge_precontrol v = Inr u \<longleftrightarrow> (\<exists>doc. v = JObj doc \<and> gates_pass doc)"
  by (auto simp: judge_precontrol_def refuse_unless_def split: json.splits if_splits)

lemma quiet_validate [stays_intros]: "stays (quiet p) (validate_precontrol w c)"
  unfolding validate_precontrol_def by (intro quiet_combinators stays_intros) (auto intro: quiet_combinators)

lemma validate_precontrol_store:
  assumes "validate_precontrol w c s = Some (Inr u, t)"
  shows "\<exists>data. store t (abs_path w c) = Some (File data) \<and> admitting w data"
proof -
  from assms have "\<exists>v s1 data s2. read_file w c s1 = Some (Inr data, s2) \<and> loads w data = Inr v \<and>
      judge_precontrol v = Inr u \<and> t = s2"
    by (auto simp: validate_precontrol_def bindP_Some catchP_Some parse_json_Inr lift_def stop_def
        split: if_splits)
  then obtain v s1 data s2
    where r: "read_file w c s1 = Some (Inr data, s2)" and v: "loads w data = Inr v"
      and j: "judge_precontrol v = Inr u" and t: "t = s2" by blast
  from read_file_Inr [OF r] v j t show ?thesis by (auto simp: admitting_def judge_precontrol_Inr)
qed

definition failing :: "cmd_error \<Rightarrow> bool" where
  "failing e \<longleftrightarrow> (\<forall>why. e \<noteq> Refused why 0)"

lemma make_dirs_parent_keeps:
  assumes "private_evidence w" and "in_attempt c" and "\<not> in_attempt (abs_path w d)"
    and "make_dirs w (parent d) s = Some (r, t)"
  shows "store t (abs_path w c) = store s (abs_path w c) \<and> acts t = acts s"
proof -
  have "abs_path w (parent d) \<noteq> abs_path w c"
    using assms(2,3) in_attempt_parent [of w d] in_attempt_abs [of c w] by metis
  moreover have "others w n st (abs_path w c) = st (abs_path w c)" for n st
    using assms(1,2) by (simp add: private_evidence_def)
  ultimately show ?thesis
    using assms(4) by (auto simp: make_dirs_def sys_def Let_def
        split: option.splits entry.splits if_splits)
qed

lemma make_dirs_raises: "make_dirs w d s = Some (Inl e, t) \<Longrightarrow> failing e"
  by (auto simp: make_dirs_def sys_def Let_def failing_def split: option.splits entry.splits)

lemma read_file_raises: "read_file w d s = Some (Inl e, t) \<Longrightarrow> \<exists>x. e = Raised x \<and> acts t = acts s"
  by (auto simp: read_file_def sys_def Let_def as_file_def not_found_def
      split: option.splits entry.splits)

lemma write_file_cases:
  assumes "write_file x w d c s = Some (r, t)" and "p = abs_path w d"
  shows "(r = Inr () \<and> acts t = acts s @ [Wrote p c]) \<or>
    (\<exists>e. r = Inl (Raised e) \<and> (acts t = acts s \<or> (\<exists>k. acts t = acts s @ [Wrote p (take k c)])))"
  using assms by (auto simp: write_file_def Let_def split: if_splits option.splits)

lemma publish_failure_failing: "failing (publish_failure (Raised x))"
  by (cases x) (auto simp: publish_failure_def failing_def)

lemma publish_exclusive_cases:
  assumes "private_evidence w" and "in_attempt c" and "\<not> in_attempt p" and "p = abs_path w d"
    and "store s (abs_path w c) = Some (File data)"
    and "publish_exclusive w c d s = Some (r, t)"
  shows "(r = Inr () \<and> acts t = acts s @ [Wrote p data]) \<or>
    (\<exists>e. r = Inl e \<and> failing e \<and> (acts t = acts s \<or> (\<exists>k. acts t = acts s @ [Wrote p (take k data)])))"
proof -
  from assms(6) consider
      (made) u s1 where "make_dirs w (parent d) s = Some (Inr u, s1)"
        "catchP (bindP (read_file w c) (\<lambda>payload. write_file True w d payload))
          (\<lambda>e. stop (publish_failure e)) s1 = Some (r, t)"
    | (unmade) e where "make_dirs w (parent d) s = Some (Inl e, t)" "r = Inl e"
    unfolding publish_exclusive_def bindP_Some by auto
  then show ?thesis
  proof cases
    case unmade
    then show ?thesis
      using make_dirs_parent_keeps [OF assms(1,2) _ unmade(1)] make_dirs_raises assms(3,4) by blast
  next
    case made
    have kept: "store s1 (abs_path w c) = Some (File data)" "acts s1 = acts s"
      using make_dirs_parent_keeps [OF assms(1,2) _ made(1)] assms(3-5) by simp_all
    have own: "others w n st (abs_path w c) = st (abs_path w c)" for n st
      using assms(1,2) by (simp add: private_evidence_def)
    from made(2) consider
        (unread) x s2 where "read_file w c s1 = Some (Inl (Raised x), s2)" "acts s2 = acts s1"
          "r = Inl (publish_failure (Raised x))" "t = s2"
      | (written) payload s2 where "read_file w c s1 = Some (Inr payload, s2)"
          "write_file True w d payload s2 = Some (Inr (), t)" "r = Inr ()"
      | (unwritten) payload s2 e where "read_file w c s1 = Some (Inr payload, s2)"
          "write_file True w d payload s2 = Some (Inl e, t)" "r = Inl (publish_failure e)"
      unfolding catchP_Some bindP_Some stop_def using read_file_raises by fastforce
    then show ?thesis
    proof cases
      case unread
      with kept show ?thesis by (auto simp: publish_failure_failing)
    next
      case written
      with read_file_Inr [OF written(1)] kept own have "payload = data" "acts s2 = acts s"
        by (metis entry.inject option.inject)+
      with write_file_cases [OF written(2) assms(4)] written(3) show ?thesis by auto
    next
      case unwritten
      with read_file_Inr [OF unwritten(1)] kept own have "payload = data" "acts s2 = acts s"
        by (metis entry.inject option.inject)+
      with write_file_cases [OF unwritten(2) assms(4)] unwritten(3) show ?thesis
        by (auto simp: publish_failure_failing)
    qed
  qed
qed

subsection \<open>From a stationarity pass to the published document\<close>

definition fresh_command :: "string list \<Rightarrow> path \<Rightarrow> string list \<Rightarrow> bool" where
  "fresh_command template attempt command \<longleftrightarrow> (\<exists>snapshot bound decision.
     bind_canonical_snapshot template snapshot = Inr bound \<and>
     command = resolve_freshness_command bound (stationarity_record attempt)
       (candidate_document attempt) decision (child_path attempt [''stationarity.json'']))"

text \<open>The freshness command has ended with code 0 on top of the programs run before.\<close>

definition fresh_ended :: "string list \<Rightarrow> path \<Rightarrow> (string list \<times> tool_end) list \<Rightarrow>
    (string list \<times> tool_end) list \<Rightarrow> bool" where
  "fresh_ended template attempt before tools \<longleftrightarrow> (\<exists>command out err.
     fresh_command template attempt command \<and> tools = before @ [(command, ToolEnded 0 out err)])"

lemma quiet_snapshot_check [stays_intros]: "stays (quiet p) (validate_canonical_snapshot w ob)"
  unfolding validate_canonical_snapshot_def
  by (intro quiet_combinators stays_intros) (auto intro!: quiet_combinators split: cmd_error.splits py_exn.splits)

lemma publication_spec:
  assumes "private_evidence w" and "in_attempt c" and "\<not> in_attempt p" and "p = abs_path w d"
  shows "spec (\<lambda>s. tools_run s = xs \<and> wrote p s = [])
     (bindP (validate_precontrol w c) (\<lambda>_. publish_exclusive w c d))
     (\<lambda>_ s. tools_run s = xs \<and> (\<exists>data. wrote p s = [data] \<and> admitting w data))
     (\<lambda>e s. wrote p s = [] \<or> failing e \<and> tools_run s = xs \<and>
       (\<exists>data k. wrote p s = [take k data] \<and> admitting w data))"
proof (rule spec_bindP)
  let ?A = "\<lambda>s. tools_run s = xs \<and> wrote p s = []"
  have q: "spec ?A (validate_precontrol w c) (\<lambda>_. ?A) (\<lambda>_. ?A)"
    by (rule quiet_spec [where A = "\<lambda>r ds. r = xs \<and> ds = []", OF quiet_validate])
  show "spec ?A (validate_precontrol w c)
      (\<lambda>_ s. ?A s \<and> (\<exists>data. store s (abs_path w c) = Some (File data) \<and> admitting w data))
      (\<lambda>e s. wrote p s = [] \<or> failing e \<and> tools_run s = xs \<and>
       (\<exists>data k. wrote p s = [take k data] \<and> admitting w data))"
    using validate_precontrol_store specD [OF q] by (intro specI) blast+
next
  fix u :: unit
  show "spec (\<lambda>s. (tools_run s = xs \<and> wrote p s = []) \<and>
        (\<exists>data. store s (abs_path w c) = Some (File data) \<and> admitting w data))
      (publish_exclusive w c d)
      (\<lambda>_ s. tools_run s = xs \<and> (\<exists>data. wrote p s = [data] \<and> admitting w data))
      (\<lambda>e s. wrote p s = [] \<or> failing e \<and> tools_run s = xs \<and>
       (\<exists>data k. wrote p s = [take k data] \<and> admitting w data))"
    using publish_exclusive_cases [OF assms]
    by (intro specI) (fastforce simp: tools_run_def wrote_def)+
qed

lemma admit_precontrol_spec:
  assumes "private_evidence w" and "in_attempt attempt" and "\<not> in_attempt p"
    and "p = abs_path w (to_path (ha_output a))"
  shows "spec (\<lambda>s. tools_run s = xs \<and> wrote p s = []) (admit_precontrol w a attempt record template)
     (\<lambda>_ s. fresh_ended template attempt xs (tools_run s) \<and> (\<exists>data. wrote p s = [data] \<and> admitting w data))
     (\<lambda>e s. wrote p s = [] \<or> failing e \<and> fresh_ended template attempt xs (tools_run s) \<and>
       (\<exists>data k. wrote p s = [take k data] \<and> admitting w data))"
  (is "spec ?A _ ?Q ?R")
  unfolding admit_precontrol_def Let_def
proof (rule quiet_then [where A = "\<lambda>r ds. r = xs \<and> ds = []", OF quiet_snapshot_check],
    rule quiet_then [where A = "\<lambda>r ds. r = xs \<and> ds = []", OF quiet_calls(8)], rule lift_then,
    rule quiet_then [where A = "\<lambda>r ds. r = xs \<and> ds = []", OF quiet_attempt_json])
  fix snapshot decision bound
  assume b: "bind_canonical_snapshot template snapshot = Inr bound"
  let ?c = "resolve_freshness_command bound (stationarity_record attempt) (candidate_document attempt)
      decision (child_path attempt [''stationarity.json''])"
  have fc: "fresh_command template attempt ?c" using b by (auto simp: fresh_command_def)
  have cand: "in_attempt (candidate_document attempt)"
    using assms(2) by (simp add: candidate_document_def)
  have final: "spec (\<lambda>s. tools_run s = xs @ [(?c, ToolEnded 0 out err)] \<and> wrote p s = [])
     (bindP (validate_precontrol w (candidate_document attempt))
       (\<lambda>_. publish_exclusive w (candidate_document attempt) (to_path (ha_output a)))) ?Q ?R" for out err
    by (rule spec_weaken [OF publication_spec [OF assms(1) cand assms(3,4)]])
      (use fc in \<open>auto simp: fresh_ended_def\<close>)
  show "spec ?A (bindP (run_handoff_tool w ''FRESHNESS'' ?c attempt) (\<lambda>(rc, out).
      bindP (lift (tool_passed ''FRESHNESS'' rc)) (\<lambda>_.
      bindP (validate_precontrol w (candidate_document attempt))
       (\<lambda>_. publish_exclusive w (candidate_document attempt) (to_path (ha_output a)))))) ?Q ?R"
  proof (rule spec_then [OF run_handoff_tool_spec [OF assms(2,3)]])
    fix r :: "int \<times> string"
    obtain rc out where r: "r = (rc, out)" by (cases r)
    show "spec (case r of (rc, out) \<Rightarrow> \<lambda>s. \<exists>err. tools_run s = xs @ [(?c, ToolEnded rc out err)] \<and> wrote p s = [])
       (case r of (rc, out) \<Rightarrow> bindP (lift (tool_passed ''FRESHNESS'' rc)) (\<lambda>_.
      bindP (validate_precontrol w (candidate_document attempt))
       (\<lambda>_. publish_exclusive w (candidate_document attempt) (to_path (ha_output a))))) ?Q ?R"
      unfolding r prod.case
    proof (rule lift_then)
      fix u
      assume "tool_passed ''FRESHNESS'' rc = Inr u"
      then have "rc = 0" by (simp add: tool_passed_Inr)
      with final [of out] show "spec (\<lambda>s. \<exists>err. tools_run s = xs @ [(?c, ToolEnded rc out err)] \<and> wrote p s = [])
         (bindP (validate_precontrol w (candidate_document attempt))
           (\<lambda>_. publish_exclusive w (candidate_document attempt) (to_path (ha_output a)))) ?Q ?R"
        unfolding spec_def by blast
    qed auto
  qed simp
qed (use assms in auto)

lemma spec_fact: "(c \<Longrightarrow> spec P m Q R) \<Longrightarrow> spec (\<lambda>s. c \<and> P s) m Q R"
  by (auto simp: spec_def)

lemma new_attempt_spec:
  "spec (\<lambda>s. tools_run s = xs \<and> wrote p s = ds) (new_attempt w base names)
     (\<lambda>attempt s. in_attempt attempt \<and> tools_run s = xs \<and> wrote p s = ds)
     (\<lambda>_ s. tools_run s = xs \<and> wrote p s = ds)"
  using spec_conj [OF spec_weaken [OF new_attempt_private]
      quiet_spec [where A = "\<lambda>r s. r = xs \<and> s = ds", OF quiet_new_attempt]]
  by (rule spec_weaken) auto

lemma precheck_spec:
  assumes "\<not> in_attempt p"
  shows "spec (\<lambda>s. tools_run s = [] \<and> wrote p s = []) (precheck w a stationarity template)
     (\<lambda>(attempt, out, record, passed) s. in_attempt attempt \<and>
        parse_stationarity w out = Inr (record, passed) \<and>
        (\<exists>err. tools_run s = [(stationarity, ToolEnded 0 out err)]) \<and> wrote p s = [])
     (\<lambda>e s. wrote p s = [])"
  (is "spec ?A _ ?Q ?R")
  unfolding precheck_def handoff_attempt_def
proof (rule quiet_then [where A = "\<lambda>r ds. r = [] \<and> ds = []", OF quiet_calls(2)], rule lift_then,
    rule spec_then [OF new_attempt_spec], rule spec_fact,
    rule quiet_then [where A = "\<lambda>r ds. r = [] \<and> ds = []", OF quiet_attempt_json])
  fix attempt
  assume own: "in_attempt attempt"
  show "spec ?A (bindP (run_handoff_tool w ''STATIONARITY'' stationarity attempt) (\<lambda>(rc, out).
     bindP (lift (tool_passed ''STATIONARITY'' rc)) (\<lambda>_.
     bindP (lift (parse_stationarity w out)) (\<lambda>(record, passed).
     bindP (write_text_exclusive w (stationarity_record attempt) out) (\<lambda>_.
       pure (attempt, out, record, passed)))))) ?Q ?R"
  proof (rule spec_then [OF run_handoff_tool_spec [OF own assms]])
    fix r :: "int \<times> string"
    obtain rc out where r: "r = (rc, out)" by (cases r)
    show "spec (case r of (rc, out) \<Rightarrow> \<lambda>s. \<exists>err. tools_run s = [] @ [(stationarity, ToolEnded rc out err)] \<and> wrote p s = [])
       (case r of (rc, out) \<Rightarrow> bindP (lift (tool_passed ''STATIONARITY'' rc)) (\<lambda>_.
     bindP (lift (parse_stationarity w out)) (\<lambda>(record, passed).
     bindP (write_text_exclusive w (stationarity_record attempt) out) (\<lambda>_.
       pure (attempt, out, record, passed))))) ?Q ?R"
      unfolding r prod.case
    proof (rule lift_then, rule lift_then)
      fix u and v :: "obj \<times> bool"
      assume "tool_passed ''STATIONARITY'' rc = Inr u" and v: "parse_stationarity w out = Inr v"
      then have rc: "rc = 0" by (simp add: tool_passed_Inr)
      obtain doc ok where vp: "v = (doc, ok)" by (cases v)
      have q: "stays (quiet p) (write_text_exclusive w (stationarity_record attempt) out)"
        using assms own by (intro stays_intros) (simp_all add: stationarity_record_def)
      show "spec (\<lambda>s. \<exists>err. tools_run s = [] @ [(stationarity, ToolEnded rc out err)] \<and> wrote p s = [])
         (case v of (record, passed) \<Rightarrow>
           bindP (write_text_exclusive w (stationarity_record attempt) out) (\<lambda>_.
             pure (attempt, out, record, passed))) ?Q ?R"
        unfolding vp prod.case
        by (rule quiet_then [where A = "\<lambda>r ds. \<exists>err. r = [] @ [(stationarity, ToolEnded rc out err)] \<and> ds = []",
              OF q], rule pure_spec) (use own v vp rc in auto)
    qed auto
  qed simp
qed (use assms in auto)

lemma parse_stationarity_Inr: "parse_invocation argparse argv = Inr x \<Longrightarrow> argv \<noteq> [''contract'']"
  by (auto simp: parse_invocation_def refuse_unless_def STATIONARITY_MARKER_def)

lemma failing_exit: "failing e \<Longrightarrow> command_exit g d e \<noteq> Exits 0 out lines"
  by (auto simp: failing_def command_exit_def split: cmd_error.splits py_exn.splits)

lemma handoff_execute_spec:
  assumes "private_evidence w" and "\<not> in_attempt p" and "p = abs_path w (to_path (ha_output a))"
  shows "spec (\<lambda>s. tools_run s = [] \<and> wrote p s = []) (handoff_execute w a stationarity template)
     (\<lambda>(out, attempt) s. wrote p s = [] \<or> (\<exists>err report data.
        parse_stationarity w out = Inr (report, True) \<and>
        fresh_ended template attempt [(stationarity, ToolEnded 0 out err)] (tools_run s) \<and>
        wrote p s = [data] \<and> admitting w data))
     (\<lambda>e s. wrote p s = [] \<or> failing e \<and> (\<exists>attempt out err report data k.
        parse_stationarity w out = Inr (report, True) \<and>
        fresh_ended template attempt [(stationarity, ToolEnded 0 out err)] (tools_run s) \<and>
        wrote p s = [take k data] \<and> admitting w data))"
  (is "spec ?A _ ?Q ?R")
  unfolding handoff_execute_def
proof (rule spec_then [OF precheck_spec [OF assms(2)]])
  fix r :: "path \<times> string \<times> obj \<times> bool"
  obtain attempt out report passed where r: "r = (attempt, out, report, passed)" by (cases r)
  let ?m = "bindP (if passed then admit_precontrol w a attempt report template else pure ())
      (\<lambda>_. pure (out, attempt))"
  have "spec (\<lambda>s. tools_run s = [(stationarity, ToolEnded 0 out err)] \<and> wrote p s = []) ?m ?Q ?R"
    if own: "in_attempt attempt" and st: "parse_stationarity w out = Inr (report, passed)" for err
  proof (cases passed)
    case True
    then show ?thesis
      by simp (rule spec_then [OF admit_precontrol_spec [OF assms(1) own assms(2,3)]],
        rule pure_spec, use st in auto)
  next
    case False
    then show ?thesis by (simp add: spec_def bindP_def pure_def)
  qed
  then show "spec ((\<lambda>(attempt, out, report, passed) s. in_attempt attempt \<and>
        parse_stationarity w out = Inr (report, passed) \<and>
        (\<exists>err. tools_run s = [(stationarity, ToolEnded 0 out err)]) \<and> wrote p s = []) r)
      (case r of (attempt, out, report, passed) \<Rightarrow>
        bindP (if passed then admit_precontrol w a attempt report template else pure ())
          (\<lambda>_. pure (out, attempt))) ?Q ?R"
    unfolding r prod.case spec_def by blast
qed auto

text \<open>C37: a precontrol document appears under the requested name only after the stationarity
  command has ended with code 0 and a PASS on its standard output, and then the freshness command
  with code 0; what is written is a document whose five gates pass: the whole of it when the
  command succeeds with the stationarity report as its output, the first bytes of it when the
  publication breaks off, which is never reported as a success.\<close>

theorem precontrol_needs_two_passes:
  assumes "private_evidence w"
    and "parse_invocation argparse argv = Inr (a, stationarity, freshness)"
    and "p = abs_path w (to_path (ha_output a))" and "\<not> in_attempt p"
    and "acts s0 = []" and "handoff_main w argparse argv s0 = Some (e, s)" and "wrote p s \<noteq> []"
  shows "\<exists>attempt out err report data.
     parse_stationarity w out = Inr (report, True) \<and>
     fresh_ended freshness attempt [(stationarity, ToolEnded 0 out err)] (tools_run s) \<and>
     admitting w data \<and>
     (e = Exits 0 (emit_stationarity out) [] \<and> wrote p s = [data] \<or>
      (\<forall>out lines. e \<noteq> Exits 0 out lines) \<and> (\<exists>k. wrote p s = [take k data]))"
proof -
  have start: "tools_run s0 = [] \<and> wrote p s0 = []"
    using assms(5) by (simp add: tools_run_def wrote_def)
  note run = specD [OF handoff_execute_spec [OF assms(1,4,3)], OF start]
  from assms(2,6) parse_stationarity_Inr [OF assms(2)] consider
      (good) out attempt where "handoff_execute w a stationarity freshness s0 = Some (Inr (out, attempt), s)"
        "e = Exits 0 (emit_stationarity out) []"
    | (bad) x where "handoff_execute w a stationarity freshness s0 = Some (Inl x, s)"
        "e = command_exit ''PROMPT12_PRECONTROL_HANDOFF_GATE'' None x"
    by (auto simp: handoff_main_def bindP_def lift_def split: option.splits sum.splits prod.splits)
  then show ?thesis
  proof cases
    case good
    with run(1) [OF good(1)] assms(7) show ?thesis by auto
  next
    case bad
    with run(2) [OF bad(1)] assms(7) failing_exit show ?thesis by (metis (no_types, lifting))
  qed
qed

subsection \<open>A run\<close>

definition sample_tool :: "nat \<Rightarrow> string list \<Rightarrow> store \<Rightarrow> tool_end \<times> store" where
  "sample_tool n argv st = (if hd argv = ''stationarity'' then (ToolEnded 0 ''S'' [], st)
     else (ToolEnded 0 [] [], st(to_path (last argv) \<mapsto> File ''P'')))"

definition sample_snapshot :: string where
  "sample_snapshot = ''/e/attempt-1/processed/intervals.canonical.jsonl''"

definition sample_json :: "string \<Rightarrow> py_exn + json" where
  "sample_json t =
     (if t = ''S'' then Inr (JObj [(''output_stationarity_gate'', JStr ''PASS''),
        (''canonical_interval_snapshot_path'', JStr sample_snapshot)])
      else if t = ''P'' then Inr (JObj (map (\<lambda>(k, v). (k, JStr v)) PRECONTROL_GATES))
      else Inl JsonError)"

definition sample_world :: world where
  "sample_world = \<lparr>others = \<lambda>n st. st, fault = \<lambda>n. None, torn = \<lambda>n. None, monotonic = of_nat,
     utc_ns = int, uuid4 = \<lambda>n. ''u'', pid = 7, cwd = to_path ''/'', program = sample_tool,
     resolves = \<lambda>n p. Inr p, executable = \<lambda>p. True, loads = sample_json, dumps = \<lambda>v. ''J'',
     dumps_compact = \<lambda>v. ''J'', rnd = \<lambda>q. q\<rparr>"

definition sample_invocation :: "string list" where
  "sample_invocation = [''--attempt-root'', ''/e'', ''--precontrol-output'', ''/p.json'',
     STATIONARITY_MARKER, ''stationarity'', FRESHNESS_MARKER, ''fresh'', ''--stationarity-output'',
     STATIONARITY_JSON_TOKEN, CANONICAL_INTERVALS_TOKEN, PRECONTROL_JSON_TOKEN]"

definition sample_options :: "string list \<Rightarrow> parsed_options" where
  "sample_options argv = OptionsRead \<lparr>ha_root = ''/e'', ha_output = ''/p.json''\<rparr>"

definition sample_process :: process where
  "sample_process = \<lparr>store = [to_path sample_snapshot \<mapsto> File [CHR 0x0A]], ticks = 0, acts = []\<rparr>"

definition sample_published :: "(cmd_exit \<times> string list) option" where
  "sample_published = map_option (\<lambda>(e, s). (e, wrote (to_path ''/p.json'') s))
     (handoff_main sample_world sample_options sample_invocation sample_process)"

lemma sample_publishes: "sample_published = Some (Exits 0 (''S'' @ [CHR 0x0A]) [], [''P''])"
  by code_simp

lemma sample_parsed: "parse_invocation sample_options sample_invocation = Inr
    (\<lparr>ha_root = ''/e'', ha_output = ''/p.json''\<rparr>, [''stationarity''], [''fresh'', ''--stationarity-output'',
     STATIONARITY_JSON_TOKEN, CANONICAL_INTERVALS_TOKEN, PRECONTROL_JSON_TOKEN])"
  by code_simp

lemma sample_target: "abs_path sample_world (to_path ''/p.json'') = to_path ''/p.json''"
  "\<not> in_attempt (to_path ''/p.json'')"
  by code_simp+

theorem precontrol_needs_two_passes_witness:
  "\<exists>e s attempt out err report data.
     handoff_main sample_world sample_options sample_invocation sample_process = Some (e, s) \<and>
     wrote (to_path ''/p.json'') s = [''P''] \<and>
     parse_stationarity sample_world out = Inr (report, True) \<and>
     fresh_ended [''fresh'', ''--stationarity-output'', STATIONARITY_JSON_TOKEN, CANONICAL_INTERVALS_TOKEN,
       PRECONTROL_JSON_TOKEN] attempt [([''stationarity''], ToolEnded 0 out err)] (tools_run s) \<and>
     admitting sample_world data \<and> (e = Exits 0 (emit_stationarity out) [] \<and> [''P''] = [data])"
proof -
  from sample_publishes obtain s where
    run: "handoff_main sample_world sample_options sample_invocation sample_process =
      Some (Exits 0 (''S'' @ [CHR 0x0A]) [], s)" and w: "wrote (to_path ''/p.json'') s = [''P'']"
    by (auto simp: sample_published_def)
  have pr: "private_evidence sample_world" by (simp add: private_evidence_def sample_world_def)
  have fresh: "acts sample_process = []" by (simp add: sample_process_def)
  from precontrol_needs_two_passes [OF pr sample_parsed _ sample_target(2) fresh run] w
  obtain attempt out err report data where
    "parse_stationarity sample_world out = Inr (report, True)"
    "fresh_ended [''fresh'', ''--stationarity-output'', STATIONARITY_JSON_TOKEN, CANONICAL_INTERVALS_TOKEN,
       PRECONTROL_JSON_TOKEN] attempt [([''stationarity''], ToolEnded 0 out err)] (tools_run s)"
    "admitting sample_world data"
    "Exits 0 (''S'' @ [CHR 0x0A]) [] = Exits 0 (emit_stationarity out) [] \<and> [''P''] = [data]"
    by (simp add: sample_target(1)) blast
  with run w show ?thesis by blast
qed

subsection \<open>Every command returns\<close>

text \<open>The clock passes every bound, so the waiting loops of the stationarity command end; nothing
  else repeats.\<close>

lemma returns_shared [returns_intros]:
  "returns (new_attempt w base names)" "returns (write_text_exclusive w q c)" "returns (write_json_text w q v)"
  "returns (run_handoff_tool w l argv q)" "returns (validate_precontrol w q)" "returns (publish_exclusive w q r)"
  "returns (validate_canonical_snapshot w ob)"
  by (auto simp: new_attempt_def write_text_exclusive_def write_json_text_def run_handoff_tool_def
      validate_precontrol_def publish_exclusive_def validate_canonical_snapshot_def Let_def
      intro!: returns_intros split: prod.splits cmd_error.splits py_exn.splits)

lemma handoff_returns: "returns (handoff_execute w a stationarity template)"
  by (auto simp: handoff_execute_def precheck_def handoff_attempt_def admit_precontrol_def Let_def
      intro!: returns_intros split: prod.splits)

end
