(* ===== verification/Adapter_Properties.thy ===== *)
theory Adapter_Properties
  imports Handoff_Properties "HOL-Library.Sublist"
begin

section \<open>What the stationarity command guarantees\<close>

text \<open>
  Both waiting loops end because time passes, and a report is printed only when a snapshot of
  complete lines was taken and the three programs then ran on it, in order, each with code 0.
\<close>

subsection \<open>It returns\<close>

definition sign_kept :: "world \<Rightarrow> bool" where
  "sign_kept w \<longleftrightarrow> (\<forall>q \<le> 0. rnd w q \<le> 0)"

lemma returns_adapter [returns_intros]:
  "returns (require_regular_file w v l)" "returns (read_exact w p n)" "returns (pair_sizes w p q)"
  "returns (run_tool w l argv p)" "returns (write_json_exclusive w p js)" "returns (timeline_record_count w p)"
  "returns (canonical_snapshot_path w p)" "returns (read_report w p)"
  by (auto simp: require_regular_file_def read_exact_def pair_sizes_def run_tool_def
      write_json_exclusive_def timeline_record_count_def canonical_snapshot_path_def read_report_def
      intro!: returns_intros split: prod.splits cmd_error.splits py_exn.splits)

lemma returns_parts [returns_intros]:
  "returns (stable_single_snapshot w p q)" "returns (take_pair w p q p' q' sizes)" "returns (mode_paths w a)"
  "returns (timeline_attempt w tpl expected p q k)" "returns (create_attempt w r)"
  by (auto simp: stable_single_snapshot_def take_pair_def mode_paths_def timeline_attempt_def
      create_attempt_def Let_def intro!: returns_intros split: prod.splits adapter_mode.splits option.splits)

lemma returns_arguments [returns_intros]: "returns (validate_arguments w a)"
  unfolding validate_arguments_def by (intro returns_intros)

lemma later_shared [stays_intros]:
  "stays later (read_exact w p n)" "stays later (pair_sizes w p q)" "stays later (write_json_exclusive w p js)"
  "stays later (timeline_record_count w p)" "stays later (run_tool w l argv p)"
  by (auto simp: read_exact_def pair_sizes_def write_json_exclusive_def timeline_record_count_def run_tool_def
      intro!: later_combinators stays_intros split: prod.splits)

lemma later_turns [stays_intros]:
  "stays later (take_pair w p q p' q' sizes)" "stays later (timeline_attempt w tpl expected p q k)"
  by (auto simp: take_pair_def timeline_attempt_def Let_def
      intro!: later_combinators stays_intros split: prod.splits)

lemma later_snapshot_turn [stays_intros]: "stays later (snapshot_turn w p q p' q' d settle st)"
  by (auto simp: snapshot_turn_def Let_def intro!: later_combinators stays_intros split: option.splits)

lemma later_timeline_turn [stays_intros]: "stays later (timeline_turn w tpl expected p q d poll k)"
  by (auto simp: timeline_turn_def Let_def intro!: later_combinators stays_intros split: sum.splits)

lemma clock_then:
  assumes "bindP (clock_call f) g s = Some (r, t)" and "\<And>x. stays later (g x)"
  shows "g (f (ticks s)) (s \<lparr>ticks := Suc (ticks s)\<rparr>) = Some (r, t) \<and> ticks s < ticks t"
proof -
  have "g (f (ticks s)) (s \<lparr>ticks := Suc (ticks s)\<rparr>) = Some (r, t)"
    using assms(1) by (simp add: bindP_def clock_call_def)
  with assms(2) have "later (s \<lparr>ticks := Suc (ticks s)\<rparr>) t" unfolding stays_def by blast
  with \<open>g (f (ticks s)) (s \<lparr>ticks := Suc (ticks s)\<rparr>) = Some (r, t)\<close> show ?thesis
    by (simp add: later_def)
qed

lemma snapshot_turn_goes_on:
  assumes "snapshot_turn w p q p' q' d settle st s = Some (Inr (Inr st'), t)"
  shows "\<exists>n. ticks s \<le> n \<and> n < ticks t \<and> monotonic w n < d"
proof -
  have "monotonic w (ticks s) < d \<and> ticks s < ticks t"
    using assms unfolding snapshot_turn_def
  proof (rule clock_then [THEN conjE])
    show "stays later (if \<not> x < d then stop (Refused ''SNAPSHOT_STABILITY_TIMEOUT'' 75) else
        bindP (pair_sizes w p q) (\<lambda>sizes. bindP (clock_call (monotonic w)) (\<lambda>now.
         (let again = (\<lambda>st'. bindP (pause (1 / 100)) (\<lambda>_. pure (Inr st')))
          in if \<not> (0 < fst sizes \<and> 0 < snd sizes) then again st
             else if Some sizes \<noteq> fst st then again (Some sizes, Some now)
             else (case snd st of None \<Rightarrow> again st
               | Some since \<Rightarrow> if \<not> settle \<le> rnd w (now - since) then again st
                   else take_pair w p q p' q' sizes)))))" for x
      by (auto simp: Let_def intro!: later_combinators stays_intros split: option.splits)
  qed (auto simp: stop_def split: if_splits)
  then show ?thesis by blast
qed

lemma timeline_turn_goes_on:
  assumes "sign_kept w" and "timeline_turn w tpl expected p q d poll k s = Some (Inr (Inr k'), t)"
  shows "\<exists>n. ticks s \<le> n \<and> n < ticks t \<and> monotonic w n < d"
proof -
  have "\<not> d - x \<le> 0" if "\<not> rnd w (d - x) \<le> 0" for x using assms(1) that by (auto simp: sign_kept_def)
  then have pos: "x < d" if "\<not> rnd w (d - x) \<le> 0" for x using that by force
  let ?go = "\<lambda>why. bindP (clock_call (monotonic w)) (\<lambda>x. let left = rnd w (d - x) in
        if left \<le> 0 then stop (Refused (''ACTUATOR_TIMELINE_READINESS_TIMEOUT:'' @ why) 75)
        else bindP (pause (min poll left)) (\<lambda>_. pure (Inr (Suc k))))"
  from assms(2) obtain v s1 where
    a: "timeline_attempt w tpl expected p q (Suc k) s = Some (Inr v, s1)"
    and c: "(case v of Inl _ \<Rightarrow> pure (Inl (candidate_file q (Suc k))) | Inr why \<Rightarrow> ?go why) s1 =
      Some (Inr (Inr k'), t)"
    unfolding timeline_turn_def by (elim bindP_Some [THEN iffD1, elim_format]) blast
  from c obtain why where b: "?go why s1 = Some (Inr (Inr k' :: path + nat), t)"
    by (cases v) (auto simp: pure_def)
  have "ticks s \<le> ticks s1" using a later_turns(2) by (fastforce simp: stays_def later_def)
  moreover have "monotonic w (ticks s1) < d \<and> ticks s1 < ticks t"
    using b
    by (rule clock_then [THEN conjE])
      (auto simp: Let_def stop_def intro!: later_combinators stays_intros pos split: if_splits)
  ultimately show ?thesis by (intro exI [of _ "ticks s1"]) simp
qed

lemma adapter_returns:
  assumes "time_passes w" and "sign_kept w"
  shows "returns (adapter_execute w a)"
proof -
  have t: "returns (snapshot_turn w p q p' q' d settle st)" "returns (timeline_turn w tpl n p q d poll k)"
    for p q p' q' d settle st tpl n poll k
    by (auto simp: snapshot_turn_def timeline_turn_def Let_def intro!: returns_intros
        split: option.splits sum.splits)
  have "returns (stable_pair_snapshot w p q p' q' i j)" for p q p' q' i j
    unfolding stable_pair_snapshot_def
    by (intro returns_intros returns_loopP [OF assms(1) t(1)] snapshot_turn_goes_on)
  moreover have "returns (run_incremental_timeline w a argv p)" for a argv p
    unfolding run_incremental_timeline_def Let_def
    by (intro returns_intros returns_loopP [OF assms(1) t(2)] timeline_turn_goes_on [OF assms(2)])
  ultimately show ?thesis
    by (auto simp: adapter_execute_def prepared_def take_snapshots_def Let_def
        intro!: returns_intros split: option.splits prod.splits)
qed


subsection \<open>What a printed report rests on\<close>

text \<open>The acts of a computation in order, others between them.\<close>

definition seen :: "act list \<Rightarrow> process \<Rightarrow> bool" where
  "seen as s \<longleftrightarrow> subseq as (acts s)"

lemma seen_later: "seen as s \<Longrightarrow> later s t \<Longrightarrow> seen as t"
  by (auto simp: seen_def later_def intro: list_emb_prefix)

lemma seen_append: "seen as s \<Longrightarrow> acts t = acts s @ bs \<Longrightarrow> seen (as @ bs) t"
  by (auto simp: seen_def intro: list_emb_append_mono)

lemma seen_then:
  assumes "stays later m" and "\<And>x. spec (seen as) (f x) Q (\<lambda>_ _. True)"
  shows "spec (seen as) (bindP m f) Q (\<lambda>_ _. True)"
proof (rule spec_bindP [OF _ assms(2)])
  show "spec (seen as) m (\<lambda>_. seen as) (\<lambda>_ _. True)"
    by (rule spec_weaken [OF later.stays_spec [OF assms(1), of "seen as"]])
      (auto intro: seen_later)
qed

lemma write_then:
  assumes "spec (seen (as @ [Wrote (abs_path w p) c])) (f ()) Q (\<lambda>_ _. True)"
  shows "spec (seen as) (bindP (write_file x w p c) f) Q (\<lambda>_ _. True)"
proof (rule spec_bindP)
  show "spec (seen as) (write_file x w p c) (\<lambda>_. seen (as @ [Wrote (abs_path w p) c])) (\<lambda>_ _. True)"
  proof (rule specI)
    fix s u t
    assume "seen as s" and "write_file x w p c s = Some (Inr u, t)"
    with write_file_cases [OF this(2) refl] show "seen (as @ [Wrote (abs_path w p) c]) t"
      by (auto intro: seen_append)
  qed simp
qed (use assms in simp)

lemma stop_any: "spec P (stop e) Q (\<lambda>_ _. True)"
  by (simp add: spec_def stop_def)

lemma lift_then_any:
  "(\<And>x. r = Inr x \<Longrightarrow> spec P (f x) Q (\<lambda>_ _. True)) \<Longrightarrow> spec P (bindP (lift r) f) Q (\<lambda>_ _. True)"
  by (rule lift_then) auto

definition snapped :: "world \<Rightarrow> path \<Rightarrow> path \<Rightarrow> process \<Rightarrow> bool" where
  "snapped w p q s \<longleftrightarrow> (\<exists>raw stamps. complete_lines raw \<and> complete_lines stamps \<and>
     seen [Wrote (abs_path w p) raw, Wrote (abs_path w q) stamps] s)"

lemma take_pair_spec:
  "spec (\<lambda>s. True) (take_pair w p q p' q' sizes)
     (\<lambda>r s. case r of Inl _ \<Rightarrow> snapped w p' q' s | Inr _ \<Rightarrow> True) (\<lambda>_ _. True)"
proof -
  have "spec (seen []) (take_pair w p q p' q' sizes)
     (\<lambda>r s. case r of Inl _ \<Rightarrow> snapped w p' q' s | Inr _ \<Rightarrow> True) (\<lambda>_ _. True)"
    unfolding take_pair_def
  proof (rule seen_then, rule later_shared, rule seen_then, rule later_shared, rule seen_then,
      rule later_shared, rule spec_if, rule seen_then, rule later_calls, rule pure_spec, simp,
      rule spec_if, rule stop_any, rule spec_if, rule stop_any)
    fix raw stamps
    assume "\<not> \<not> complete_lines raw" "\<not> \<not> complete_lines stamps"
    then show "spec (seen []) (bindP (write_file True w p' raw) (\<lambda>_.
        bindP (write_file True w q' stamps) (\<lambda>_. pure (Inl ()))))
      (\<lambda>r s. case r of Inl _ \<Rightarrow> snapped w p' q' s | Inr _ \<Rightarrow> True) (\<lambda>_ _. True)"
      by (intro write_then pure_spec) (auto simp: snapped_def)
  qed
  then show ?thesis by (rule spec_weaken) (simp_all add: seen_def)
qed

lemma take_pair_done:
  "take_pair w p q p' q' sizes s = Some (Inr (Inl u), t) \<Longrightarrow> snapped w p' q' t"
  using specD(1) [OF take_pair_spec TrueI] by fastforce

lemma snapshot_turn_spec:
  "spec (\<lambda>s. True) (snapshot_turn w p q p' q' d settle st)
     (\<lambda>r s. case r of Inl _ \<Rightarrow> snapped w p' q' s | Inr _ \<Rightarrow> True) (\<lambda>_ _. True)"
  (is "spec ?T _ ?Q ?E")
  unfolding snapshot_turn_def Let_def
  by (rule specI) (auto simp: bindP_Some clock_call_def stop_def pause_def pure_def
      dest: take_pair_done split: if_splits option.splits sum.splits)

lemma pair_snapshot_spec:
  "spec (\<lambda>s. True) (stable_pair_snapshot w p q p' q' i j) (\<lambda>_ s. snapped w p' q' s) (\<lambda>_ _. True)"
  unfolding stable_pair_snapshot_def
proof (rule spec_bindP)
  show "spec (\<lambda>s. True) (clock_call (monotonic w)) (\<lambda>_ _. True) (\<lambda>_ _. True)"
    by (rule specI) simp_all
  show "spec (\<lambda>s. True) (loopP (snapshot_turn w p q p' q'
      (rnd w (t + rnd w (of_int j / 1000))) (rnd w (of_int i / 1000))) (None, None))
      (\<lambda>_ s. snapped w p' q' s) (\<lambda>_ _. True)" for t
    by (rule spec_loopP [where I = "\<lambda>_ _. True"]) (rule spec_weaken [OF snapshot_turn_spec]; auto split: sum.splits)
qed

lemma write_file_store:
  "write_file x w p c s = Some (Inr u, t) \<Longrightarrow>
   store t = (others w (ticks s) (store s))(abs_path w p \<mapsto> File c) \<and> acts t = acts s @ [Wrote (abs_path w p) c]"
  by (auto simp: write_file_def Let_def split: if_splits option.splits)

lemma abs_child_inject: "abs_path w (child_path p xs) = abs_path w (child_path p ys) \<longleftrightarrow> xs = ys"
  by (cases p; cases "cwd w") (auto simp: abs_path_def child_path_def is_absolute_def)

lemma run_tool_leaves:
  assumes "private_evidence w" and "in_attempt attempt" and "d \<noteq> ''logs''"
    and "run_tool w l argv attempt s = Some (Inr u, t)"
  shows "\<exists>n st st' out err as. program w n argv st = (ToolEnded 0 out err, st') \<and>
     store t (abs_path w (child_path attempt [d, f])) = st' (abs_path w (child_path attempt [d, f])) \<and>
     acts t = acts s @ Ran argv (ToolEnded 0 out err) # as"
proof -
  let ?q = "abs_path w (child_path attempt [d, f])"
  have own: "others w n st ?q = st ?q" for n st
    using assms(1,2) by (simp add: private_evidence_def)
  have diff: "abs_path w (in_logs attempt name) \<noteq> ?q" for name
    using assms(3) by (simp add: in_logs_def abs_child_inject)
  from assms(4) obtain e s1 out err s2 s3 where
    r: "run_program w argv s = Some (Inr e, s1)" "tool_result e = Inr (0, out, err)"
    and w: "write_file False w (in_logs attempt (l @ ''.stdout.log'')) out s1 = Some (Inr (), s2)"
      "write_file False w (in_logs attempt (l @ ''.stderr.log'')) err s2 = Some (Inr (), s3)" "t = s3"
    by (auto simp: run_tool_def bindP_Some lift_def refuse_unless_def split: if_splits)
  from r obtain st' where p: "program w (ticks s) argv (others w (ticks s) (store s)) = (ToolEnded 0 out err, st')"
    and s1: "store s1 = st'" "acts s1 = acts s @ [Ran argv (ToolEnded 0 out err)]"
    by (auto simp: run_program_def tool_result_Inr Let_def split: prod.splits)
  have "store t ?q = st' ?q"
    using write_file_store [OF w(1)] write_file_store [OF w(2)] w(3) s1 own diff diff [symmetric] by simp
  moreover have "\<exists>as. acts t = acts s @ Ran argv (ToolEnded 0 out err) # as"
    using write_file_store [OF w(1)] write_file_store [OF w(2)] w(3) s1 by simp
  ultimately show ?thesis using p by blast
qed

lemma report_object_Inr: "report_object v = Inr ob \<longleftrightarrow>
    v = JObj ob \<and> obj_get ob ''output_stationarity_gate'' \<in> {JStr ''PASS'', JStr ''FAIL''}"
  by (auto simp: report_object_def split: json.splits if_splits)

lemma read_report_Inr:
  assumes "read_report w attempt s = Some (Inr ob, t)"
  shows "\<exists>n content. others w n (store s) (abs_path w (report_file attempt)) = Some (File content) \<and>
    loads w content = Inr (JObj ob) \<and> later s t \<and>
    obj_get ob ''output_stationarity_gate'' \<in> {JStr ''PASS'', JStr ''FAIL''}"
proof -
  have l: "later s t"
  proof -
    have "stays later (read_report w attempt)"
      unfolding read_report_def
      by (intro later_combinators stays_intros) (auto intro: later_combinators)
    with assms show ?thesis unfolding stays_def by blast
  qed
  from assms obtain v s1 where
    c: "catchP (bindP (read_file w (report_file attempt)) (parse_json w))
       (\<lambda>e. if swallowed e then stop (Refused ''EVALUATOR_REPORT_INVALID'' 65) else stop e) s = Some (Inr v, s1)"
    and g: "v = JObj ob" "obj_get ob ''output_stationarity_gate'' \<in> {JStr ''PASS'', JStr ''FAIL''}"
    by (auto simp: read_report_def bindP_Some lift_def report_object_Inr)
  from c have "\<exists>content s2. read_file w (report_file attempt) s = Some (Inr content, s2) \<and> loads w content = Inr v"
    by (auto simp: catchP_Some bindP_Some parse_json_Inr stop_def split: if_splits)
  then obtain content s2 where
    "read_file w (report_file attempt) s = Some (Inr content, s2)" "loads w content = Inr v" by blast
  with read_file_Inr [OF this(1)] g l show ?thesis by metis
qed

lemma prepared_private:
  "prepared w a s = Some (Inr (p, attempt), t) \<Longrightarrow> in_attempt attempt"
proof -
  have own: "create_attempt w r s = Some (Inr q, t) \<Longrightarrow> in_attempt q" for r s q t
    unfolding create_attempt_def using specD(1) [OF new_attempt_private TrueI] by blast
  assume "prepared w a s = Some (Inr (p, attempt), t)"
  then show ?thesis
    by (auto simp: prepared_def bindP_Some pure_def split: option.splits dest: own)
qed

lemma later_single [stays_intros]: "stays later (stable_single_snapshot w p q)"
  unfolding stable_single_snapshot_def by (intro later_combinators stays_intros)

lemma later_canonical [stays_intros]: "stays later (canonical_snapshot_path w p)"
  unfolding canonical_snapshot_path_def
  by (auto intro!: later_combinators stays_intros split: prod.splits cmd_error.splits py_exn.splits)

lemma staysD: "stays Rel m \<Longrightarrow> m s = Some (r, t) \<Longrightarrow> Rel s t"
  unfolding stays_def by blast

lemma take_snapshots_snapped:
  assumes "take_snapshots w a p attempt s = Some (Inr u, t)"
  shows "snapped w (raw_snapshot attempt) (timestamp_snapshot attempt) t"
proof -
  from assms obtain s1 v where
    s1: "stable_pair_snapshot w (ap_raw p) (ap_timestamps p) (raw_snapshot attempt)
       (timestamp_snapshot attempt) (ad_stable_ms a) (ad_snapshot_ms a) s = Some (Inr v, s1)"
    and t: "(case ap_timeline p of None \<Rightarrow> pure ()
       | Some q \<Rightarrow> stable_single_snapshot w q (timeline_snapshot attempt)) s1 = Some (Inr u, t)"
    by (auto simp: take_snapshots_def bindP_Some)
  have "snapped w (raw_snapshot attempt) (timestamp_snapshot attempt) s1"
    using specD(1) [OF pair_snapshot_spec TrueI s1] .
  moreover have "later s1 t"
    using t staysD [OF later_single] later.reflexive by (auto simp: pure_def split: option.splits)
  ultimately show ?thesis unfolding snapped_def by (meson seen_later)
qed

lemma seen_next: "seen as s \<Longrightarrow> acts t = acts s @ b # bs \<Longrightarrow> seen (as @ [b]) t"
  using seen_append [of as s "s \<lparr>acts := acts s @ [b]\<rparr>" "[b]"]
    seen_later [of "as @ [b]" "s \<lparr>acts := acts s @ [b]\<rparr>" t]
  by (auto simp: seen_def intro: list_emb_prefix list_emb_append_mono)

text \<open>A program of the command ended with code 0, in the store it left.\<close>

definition ended_ok :: "world \<Rightarrow> string list \<Rightarrow> tool_end \<Rightarrow> store \<Rightarrow> bool" where
  "ended_ok w argv e left \<longleftrightarrow> (\<exists>n st out err. e = ToolEnded 0 out err \<and> program w n argv st = (e, left))"

lemma tool_step:
  assumes "private_evidence w" and "in_attempt attempt" and "seen as s"
    and "run_tool w l argv attempt s = Some (Inr u, t)"
  shows "\<exists>e left. ended_ok w argv e left \<and> seen (as @ [Ran argv e]) t \<and>
    store t (abs_path w (report_file attempt)) = left (abs_path w (report_file attempt))"
proof -
  have "''processed'' \<noteq> ''logs''" by simp
  from run_tool_leaves [OF assms(1,2) this assms(4), of "''stationarity.json''"]
  obtain n st left out err as' where e: "program w n argv st = (ToolEnded 0 out err, left)"
    "store t (abs_path w (report_file attempt)) = left (abs_path w (report_file attempt))"
    "acts t = acts s @ Ran argv (ToolEnded 0 out err) # as'"
    by (auto simp: report_file_def in_processed_def)
  with seen_next [OF assms(3) e(3)] show ?thesis unfolding ended_ok_def by blast
qed

lemma tools_ended:
  assumes "private_evidence w" and "in_attempt attempt" and "seen as s"
    and "eachP (\<lambda>(label, argv). run_tool w label argv attempt) [(l1, c1), (l2, c2), (l3, c3)] s = Some (Inr u, t)"
  shows "\<exists>e1 e2 e3 left1 left2 left3. ended_ok w c1 e1 left1 \<and> ended_ok w c2 e2 left2 \<and> ended_ok w c3 e3 left3 \<and>
     seen (as @ [Ran c1 e1, Ran c2 e2, Ran c3 e3]) t \<and>
     store t (abs_path w (report_file attempt)) = left3 (abs_path w (report_file attempt))"
proof -
  from assms(4) obtain t1 t2 where
    r: "run_tool w l1 c1 attempt s = Some (Inr (), t1)" "run_tool w l2 c2 attempt t1 = Some (Inr (), t2)"
      "run_tool w l3 c3 attempt t2 = Some (Inr (), t)"
    by (auto simp: bindP_Some pure_def)
  note step = tool_step [OF assms(1,2)]
  from step [OF assms(3) r(1)] obtain e1 left1 where
    e1: "ended_ok w c1 e1 left1" "seen (as @ [Ran c1 e1]) t1" by blast
  from step [OF e1(2) r(2)] obtain e2 left2 where
    e2: "ended_ok w c2 e2 left2" "seen ((as @ [Ran c1 e1]) @ [Ran c2 e2]) t2" by blast
  from step [OF e2(2) r(3)] obtain e3 left3 where
    "ended_ok w c3 e3 left3" "seen (((as @ [Ran c1 e1]) @ [Ran c2 e2]) @ [Ran c3 e3]) t"
    "store t (abs_path w (report_file attempt)) = left3 (abs_path w (report_file attempt))" by blast
  with e1 e2 show ?thesis by (metis append.assoc append_Cons append_Nil)
qed

text \<open>A report that was read and the path added to it, from a private directory.\<close>

lemma report_left:
  assumes "private_evidence w" and "in_attempt attempt" and "read_report w attempt s = Some (Inr report, t)"
  shows "\<exists>content. store s (abs_path w (report_file attempt)) = Some (File content) \<and>
    loads w content = Inr (JObj report) \<and> later s t \<and>
    obj_get report ''output_stationarity_gate'' \<in> {JStr ''PASS'', JStr ''FAIL''}"
  using read_report_Inr [OF assms(3)] assms(1,2)
  by (auto simp: private_evidence_def report_file_def in_processed_def)


subsection \<open>A run\<close>

definition output_of :: "string list \<Rightarrow> path" where
  "output_of argv = to_path (hd (tl (dropWhile (\<lambda>v. v \<noteq> ''--output'') argv)))"

definition sample_programs :: "nat \<Rightarrow> string list \<Rightarrow> store \<Rightarrow> tool_end \<times> store" where
  "sample_programs n argv st = (ToolEnded 0 [] [], st(output_of argv \<mapsto>
     File (if argv ! 1 = ''/evaluator'' then ''R'' else [CHR 0x0A])))"

definition measuring_world :: world where
  "measuring_world = sample_world \<lparr>monotonic := \<lambda>n. of_nat n / 1000, program := sample_programs,
     loads := \<lambda>t. if t = ''R'' then Inr (JObj [(''output_stationarity_gate'', JStr ''PASS'')]) else Inl JsonError\<rparr>"

definition sample_adapter_args :: adapter_args where
  "sample_adapter_args = \<lparr>ad_python = ''/python'', ad_parser = ''/parser'', ad_canonicalizer = ''/canonicalizer'',
     ad_evaluator = ''/evaluator'', ad_raw = ''/raw'', ad_timestamps = ''/stamps'', ad_schema = ''/schema'',
     ad_experiment = ''x'', ad_run = ''r'', ad_mode = InitialMode, ad_root = ''/e'', ad_timeline = None,
     ad_control = None, ad_stable_ms = 5, ad_snapshot_ms = 1000, ad_command = None, ad_expected = None,
     ad_ready_ms = 5000, ad_poll_ms = 100\<rparr>"

definition measuring_process :: process where
  "measuring_process = \<lparr>store = map_of (map (\<lambda>f. (to_path f, File [CHR 0x0A]))
     [''/python'', ''/parser'', ''/canonicalizer'', ''/evaluator'', ''/raw'', ''/stamps'', ''/schema'']),
     ticks = 0, acts = []\<rparr>"

lemma sample_measures:
  "map_option fst (adapter_main measuring_world sample_adapter_args measuring_process) =
   Some (Exits 0 [CHR ''J'', CHR 0x0A] [])"
  by code_simp


lemma measuring_private: "private_evidence measuring_world"
  by (simp add: private_evidence_def measuring_world_def sample_world_def)



text \<open>A failing command never names the directory of its attempt, although its handlers print it:
  \<open>main\<close> learns it only when \<open>execute\<close> returns.\<close>

lemma failures_hide_the_attempt:
  "adapter_main w a s = Some (Exits rc [] lines, t) \<Longrightarrow>
   \<exists>why. lines = [''STATIONARITY_COMMAND_ADAPTER_GATE=FAIL'', ''FAIL_REASON='' @ why]"
  by (auto simp: adapter_main_def command_exit_def failure_lines_def
      split: option.splits sum.splits prod.splits cmd_error.splits py_exn.splits)

end
