(* ===== verification/Spec2Isabelle.thy ===== *)
theory Spec2Isabelle
  imports Transaction_Properties Trigger_Executor Critical_Section Actuator_Timeline
    Receiver_Canonical Output_Stationarity Precontrol_Freshness Ratio_Binding
    Sequence_Properties Adapter_Properties
begin

text \<open>
  The control harness of the Prompt-12 experiment, \<^verbatim>\<open>scripts/experiment-harness\<close>.
\<close>

section \<open>From the freshness gate to the trigger\<close>

text \<open>What the executor needs of its command line and machine to serve a request.\<close>

definition authorised :: "exec_args \<Rightarrow> exec_env \<Rightarrow> bool" where
  "authorised args env \<longleftrightarrow> mode args = Fifo \<and> max_age_ms args = ''800'' \<and>
     executor_start_utc_ns args = None \<and>
     control_authorization_token args = Some CONTROL_AUTHORIZATION_TOKEN \<and>
     (\<exists>c p. fifo_path args = Some (c # p)) \<and> fifo_node env = NodeFifo \<and>
     CHR 0x0A \<notin> set (trigger_token args)"

lemma admission_document:
  assumes "freshness_main fenv ex run = Inr (0, doc)"
  obtains f doc1 doc2 rep where "doc = freshness_document fenv ex run f doc1 doc2 rep"
    "admission f" "0 \<le> decision_ns f - latest_ns f"
  using assms
proof (rule freshness_main_Inr)
  fix pol all_rows cs rows1 rows2 rep bound latest limit d doc1 doc2 decision f
  assume "f = \<lparr>canonical_count = length all_rows, complete_count = length cs,
        bound_ok = bound, stationary_ok = stationarity_holds bound rep, decision_ns = decision,
        latest_ns = latest, max_age = d,
        fresh_ok = (0 \<le> decision - latest \<and> decision - latest \<le> limit)\<rparr>"
    and "0 = (if admission f then 0 else 10 :: int)"
    and doc: "doc = freshness_document fenv ex run f doc1 doc2 rep"
  then have "admission f" "0 \<le> decision_ns f - latest_ns f"
    by (simp_all add: admission_def split: if_splits)
  with doc show thesis by (rule that)
qed

text \<open>C28: what the freshness gate admits, the executor serves: on the document of an admission
  with the 800 ms policy, an authorised executor that starts after the decision and at most
  800,000,000 ns after the latest sample writes the token once and ends with exit code 0, when
  the FIFO takes the token and the output path is free.\<close>

theorem admitted_precontrol_is_served:
  assumes "freshness_main fenv ex run = Inr (0, doc)"
    and "precontrol_file env = FileJson (JObj doc)" and "authorised args env"
    and "obj_get doc ''maximum_allowed_age_ms'' = JStr ''800''"
    and "obj_get doc ''decision_utc_ns'' = JInt decision" and "decision \<le> clock_start env"
    and "obj_get doc ''latest_sample_timestamp_utc_ns'' = JInt latest"
    and "clock_start env \<le> latest + 800000000"
    and "write_confirmed args env" and "close_error env = None" and "out_state env = OutFree"
  shows "exit_code (executor_main args env) = Inr 0 \<and>
    os_writes (executor_main args env) = [trigger_token args @ [CHR 0x0A]]"
proof -
  from admission_document [OF assms(1)] obtain f doc1 doc2 rep where
    doc: "doc = freshness_document fenv ex run f doc1 doc2 rep" and ad: "admission f"
    and nn: "0 \<le> decision_ns f - latest_ns f" by metis
  have dl: "decision = decision_ns f" "latest = latest_ns f"
    using assms(5,7) by (simp_all add: doc freshness_document_def)
  have "required_source_pass doc"
    using freshness_bound [OF assms(1)] ad
    by (simp add: required_source_pass_def doc freshness_document_def admission_def gate_def)
  moreover have "timing_fields doc ''800'' = Some (latest, decision, Dec False 800 0, Dec False 800 0)"
  proof -
    have t: "dec_text (max_age f) = ''800''"
      using assms(4) by (simp add: doc freshness_document_def)
    have "obj_idx doc ''latest_sample_timestamp_utc_ns'' = Inr (JInt latest)"
      "obj_idx doc ''decision_utc_ns'' = Inr (JInt decision)"
      "map_of doc ''maximum_allowed_age_ms'' = Some (JStr ''800'')"
      by (simp_all add: doc freshness_document_def obj_idx_def dl t)
    then show ?thesis by (simp add: timing_fields_def decimal_of_def dec_of_text_800)
  qed
  ultimately have "fresh_request args env doc latest decision"
    using assms(2,3,6,8) nn unfolding fresh_request_def authorised_def dl by simp
  from fresh_request_fires [OF this] obtain r where "executor_main args env = fire args env r" by blast
  with fire_confirmed [OF assms(9-11), of r] show ?thesis by auto
qed

definition served_env :: "obj \<Rightarrow> exec_env" where
  "served_env doc = (sample_env OutFree) \<lparr>precontrol_file := FileJson (JObj doc),
     clock_start := sample_wall 49 + 700000000\<rparr>"

theorem admitted_precontrol_is_served_witness:
  "\<exists>doc. freshness_main sample_fresh_env sample_ex Actuator_Timeline.sample_run = Inr (0, doc) \<and>
    os_writes (executor_main sample_args (served_env doc)) = [''TRIGGER'' @ [CHR 0x0A]]"
proof -
  from sample_admitted obtain f doc1 doc2 rep doc where
    d: "freshness_main sample_fresh_env sample_ex Actuator_Timeline.sample_run = Inr (0, doc)"
      "doc = freshness_document sample_fresh_env sample_ex Actuator_Timeline.sample_run f doc1 doc2 rep"
      "latest_ns f = sample_wall 49" "decision_ns f = sample_wall 49 + 500000000"
      "max_age f = Dec False 800 0" by blast
  have t: "dec_text (Dec False 800 0) = ''800''" by code_simp
  have doc: "obj_get doc ''maximum_allowed_age_ms'' = JStr ''800''"
    "obj_get doc ''decision_utc_ns'' = JInt (sample_wall 49 + 500000000)"
    "obj_get doc ''latest_sample_timestamp_utc_ns'' = JInt (sample_wall 49)"
    by (simp_all add: d freshness_document_def t)
  have "exit_code (executor_main sample_args (served_env doc)) = Inr 0 \<and>
    os_writes (executor_main sample_args (served_env doc)) = [trigger_token sample_args @ [CHR 0x0A]]"
    by (rule admitted_precontrol_is_served [OF d(1) _ _ doc(1,2) _ doc(3)])
      (simp_all add: served_env_def sample_env_def sample_args_def authorised_def write_confirmed_def
        utf8_len_def)
  with d(1) show ?thesis by (auto simp: sample_args_def)
qed

section \<open>From the freshness gate through the handoff\<close>

text \<open>C40: the handoff checks exactly the admission: a document the freshness gate writes passes the
  five tests of the handoff if and only if the gate ended with code 0; the tests on the selection
  and on the window binding never decide.\<close>

theorem handoff_accepts_admissions:
  assumes "freshness_main fenv ex run = Inr (rc, doc)"
  shows "judge_precontrol (JObj doc) = Inr () \<longleftrightarrow> rc = 0"
  using assms
proof (rule freshness_main_Inr)
  fix pol all_rows cs rows1 rows2 rep bound latest limit d doc1 doc2 decision f
  assume f: "f = \<lparr>canonical_count = length all_rows, complete_count = length cs,
        bound_ok = bound, stationary_ok = stationarity_holds bound rep, decision_ns = decision,
        latest_ns = latest, max_age = d,
        fresh_ok = (0 \<le> decision - latest \<and> decision - latest \<le> limit)\<rparr>"
    and rc: "rc = (if admission f then 0 else 10)"
    and doc: "doc = freshness_document fenv ex run f doc1 doc2 rep"
  have "gates_pass doc \<longleftrightarrow> bound_ok f \<and> stationary_ok f \<and> fresh_ok f \<and> admission f"
    by (auto simp: gates_pass_def PRECONTROL_GATES_def doc freshness_document_def gate_def)
  also have "\<dots> \<longleftrightarrow> admission f"
    by (auto simp: f admission_def stationarity_holds_def)
  finally show ?thesis by (simp add: judge_precontrol_Inr rc)
qed

theorem handoff_accepts_admissions_witness:
  "\<exists>doc. freshness_main sample_fresh_env sample_ex Actuator_Timeline.sample_run = Inr (0, doc) \<and>
    judge_precontrol (JObj doc) = Inr ()"
proof -
  from sample_admitted obtain doc where
    d: "freshness_main sample_fresh_env sample_ex Actuator_Timeline.sample_run = Inr (0, doc)" by blast
  with handoff_accepts_admissions [OF d] show ?thesis by blast
qed

section \<open>From the critical section to the executor\<close>

lemma count_list_map_fixed:
  "(\<And>x. g x = name \<longleftrightarrow> x = name) \<Longrightarrow> count_list (map g xs) name = count_list xs name"
  by (induction xs) auto

lemma dropWhile_map_fixed:
  "(\<And>x. g x = name \<longleftrightarrow> x = name) \<Longrightarrow>
   dropWhile (\<lambda>x. x \<noteq> name) (map g xs) = map g (dropWhile (\<lambda>x. x \<noteq> name) xs)"
  by (induction xs) auto

lemma option_value_map:
  assumes "\<And>x. g x = name \<longleftrightarrow> x = name" and "option_value argv name = Inr v"
  shows "option_value (map g argv) name = Inr (g v)"
  using assms(2)
  by (auto simp: option_value_def count_list_map_fixed [OF assms(1)] dropWhile_map_fixed [OF assms(1)]
    drop_map split: if_splits list.splits)

lemma load_t2_plan_options:
  assumes "load_t2_plan co mat = Inr plan"
  shows "option_value (trigger_cmd plan) ''--mode'' = Inr ''fifo'' \<and>
    option_value (trigger_cmd plan) ''--max-age-ms'' = Inr ''800'' \<and>
    option_value (trigger_cmd plan) ''--control-authorization-token'' = Inr CONTROL_PLACEHOLDER"
proof -
  have "\<exists>ratio u. contract_options ratio (trigger_cmd plan) = Inr u"
  proof (cases mat)
    case (FileJson v)
    show ?thesis
    proof (cases v)
      case (JObj raw)
      from assms show ?thesis
        unfolding load_t2_plan_def FileJson JObj loaded.case json.case bindE_Inr_iff Let_def
          sum.inject
        by (elim exE conjE, hypsubst, unfold t2_plan.select_convs, blast)
    qed (use assms FileJson in \<open>simp_all add: load_t2_plan_def\<close>)
  qed (use assms in \<open>simp_all add: load_t2_plan_def split: if_splits\<close>)
  then obtain ratio u where "contract_options ratio (trigger_cmd plan) = Inr u" by blast
  then show ?thesis by (auto simp: contract_options_def Let_def split: if_splits)
qed

text \<open>The command line that the critical section dispatches carries, in the place of the
  placeholder, the very token the executor asks for, with FIFO mode and the 800 ms limit.\<close>

theorem dispatched_trigger_carries_token:
  assumes "load_t2_plan co mat = Inr plan"
  shows "option_value (resolved_trigger (new_proc plan env op)) ''--control-authorization-token'' =
      Inr CONTROL_AUTHORIZATION_TOKEN \<and>
    option_value (resolved_trigger (new_proc plan env op)) ''--mode'' = Inr ''fifo'' \<and>
    option_value (resolved_trigger (new_proc plan env op)) ''--max-age-ms'' = Inr ''800''"
proof -
  let ?g = "\<lambda>x. if x = CONTROL_PLACEHOLDER then CONTROL_TOKEN else x"
  have r: "resolved_trigger (new_proc plan env op) = map ?g (trigger_cmd plan)"
    by (simp add: resolved_trigger_def new_proc_def)
  have g: "option_value (map ?g argv) name = Inr (?g v)"
    if "name \<noteq> CONTROL_PLACEHOLDER" "name \<noteq> CONTROL_TOKEN" "option_value argv name = Inr v"
    for argv name v
    by (rule option_value_map) (use that in auto)
  have n: "''--mode'' \<noteq> CONTROL_PLACEHOLDER" "''--max-age-ms'' \<noteq> CONTROL_PLACEHOLDER"
    "''--control-authorization-token'' \<noteq> CONTROL_PLACEHOLDER" "''--mode'' \<noteq> CONTROL_TOKEN"
    "''--max-age-ms'' \<noteq> CONTROL_TOKEN" "''--control-authorization-token'' \<noteq> CONTROL_TOKEN"
    by (simp_all add: CONTROL_TOKEN_def CONTROL_PLACEHOLDER_def)
  have v: "?g CONTROL_PLACEHOLDER = CONTROL_AUTHORIZATION_TOKEN" "?g ''fifo'' = ''fifo''"
    "?g ''800'' = ''800''"
    by (simp_all add: CONTROL_TOKEN_def CONTROL_AUTHORIZATION_TOKEN_def CONTROL_PLACEHOLDER_def)
  from load_t2_plan_options [OF assms]
    g [OF n(3,6), of "trigger_cmd plan" CONTROL_PLACEHOLDER, unfolded v]
    g [OF n(1,4), of "trigger_cmd plan" "''fifo''", unfolded v]
    g [OF n(2,5), of "trigger_cmd plan" "''800''", unfolded v]
  show ?thesis unfolding r by blast
qed

text \<open>A materialisation that passes the check.\<close>

definition sample_materialization :: json where
  "sample_materialization = JObj [(''schema'', JStr SCHEMA), (''transition_label'', JStr ''T2''),
     (''transition_index'', JInt 2), (''executed_transition_ordinal'', JInt 1),
     (''expected_actuator_transaction_count'', JInt 1), (''expected_timeline_event_count'', JInt 3),
     (''synthetic_prior_transition_events'', JBool False),
     (''skipped_transition_bindings_consumed'', JBool False), (''t3_handoff_present'', JBool False),
     (''t3_trigger_present'', JBool False), (''command_executed'', JBool False),
     (''control_executed'', JBool False), (''traffic_executed'', JBool False),
     (''initial_precontrol_command'', JArr (map JStr [''python3'',
        ''/s/prompt12-bounded-precontrol-handoff.py'', ''--stationarity-command'', ''x'',
        ''--freshness-command'', ''y'', ''--precontrol-output'', ''/e/s/r/precontrol/T2.json''])),
     (''ratio_bind_command'', JArr (map JStr [''python3'',
        ''/s/prompt12-pretrigger-ratio-binding-writer.py'', ''--transition-label'', ''T2'',
        ''--transition-index'', ''2'', ''--requested-ratio-pct'', ''75'', ''--output'',
        ''/e/s/r/runtime/ratio-bindings/T2.binding.json''])),
     (''trigger_command'', JArr (map JStr [''python3'',
        ''/s/prompt12-precontrol-trigger-executor.py'', ''--mode'', ''fifo'', ''--max-age-ms'',
        ''800'', ''--control-authorization-token'', CONTROL_PLACEHOLDER, ''--precontrol-json'',
        ''/e/s/r/precontrol/T2.json'', ''--output'', ''/e/s/r/control/T2.executor.json'']))]"

definition sample_checkout :: checkout where
  "sample_checkout = \<lparr>script_path = (\<lambda>s. child_path (to_path ''/s'') [s]),
     resolve = (\<lambda>p. Some (to_path p))\<rparr>"

lemma sample_plan_loads:
  "\<exists>plan. load_t2_plan sample_checkout (FileJson sample_materialization) = Inr plan"
proof -
  have "case load_t2_plan sample_checkout (FileJson sample_materialization) of Inl _ \<Rightarrow> False | Inr p \<Rightarrow> True"
    by code_simp
  then show ?thesis by (cases "load_t2_plan sample_checkout (FileJson sample_materialization)") auto
qed

theorem dispatched_trigger_carries_token_witness:
  "\<exists>plan. load_t2_plan sample_checkout (FileJson sample_materialization) = Inr plan \<and>
    option_value (resolved_trigger (new_proc plan sample_cs_env ''op-00001''))
      ''--control-authorization-token'' = Inr CONTROL_AUTHORIZATION_TOKEN"
proof -
  obtain plan where p: "load_t2_plan sample_checkout (FileJson sample_materialization) = Inr plan"
    using sample_plan_loads by blast
  with dispatched_trigger_carries_token [OF p] show ?thesis by blast
qed

end
